theory Spec2Isabelle
  imports Complex_Main "HOL-Library.Word" "HOL-Library.Sublist"
begin

section \<open>Data model\<close>

text \<open>
  A shallow embedding of the orchestration facade \<^verbatim>\<open>AMM\<close> (amm.ts) and of the helpers
  it calls (common.ts, constants.ts).

  Modelling conventions.
  \<^item> A JavaScript \<^verbatim>\<open>number\<close> that holds an amount of SOL, a random draw or a delay is a
    \<^typ>\<open>real\<close>. The arithmetic of the volume workflow is that of IEEE 754 doubles: every
    operation there gives the exact result rounded by \<open>fl\<close> (see below). The table index
    of the random selections and the quotient of a balance query are left unrounded.
    Counters and timestamps are \<^typ>\<open>int\<close>; a tip in lamports is a \<^typ>\<open>nat\<close>.
  \<^item> A public key is its base58 text.
  \<^item> A thrown \<^verbatim>\<open>Error\<close> is a value of type \<open>exn\<close>; a function that may throw returns
    \<open>exn + 'a\<close>, with \<open>Inl\<close> the exception.
  \<^item> Everything the process reads from outside (\<^verbatim>\<open>Math.random()\<close>, \<^verbatim>\<open>Date.now()\<close>,
    \<^verbatim>\<open>Keypair.generate()\<close>, the replies of the RPC node, of the aggregator and of the relay)
    is an input of the model, collected per loop iteration in an environment record.
  \<^item> \<^verbatim>\<open>this.log\<close> only prints; it is left out.
\<close>

type_synonym pubkey = string
type_synonym byte = "8 word"

datatype exn = Error string

subsection \<open>JavaScript numbers\<close>

text \<open>
  A finite JavaScript number is an IEEE 754 double: an integer of magnitude at most
  \<open>2^53\<close> times a power of two not below \<open>2^-1074\<close>. An arithmetic operation gives the
  exact result rounded to the nearest double, a tie going to the double with the even
  integer. \<open>rne\<close> rounds to the nearest integer, ties to even; \<open>ulp x\<close> is the distance
  between the doubles around \<open>x\<close> (\<open>2^-1074\<close> in the subnormal range); \<open>fl\<close> is the rounding.
  The overflow to \<^verbatim>\<open>Infinity\<close> beyond the largest double, and \<^verbatim>\<open>NaN\<close>, are not modelled.
\<close>

definition rne :: "real \<Rightarrow> int" where
  "rne y =
     (let f = \<lfloor>y\<rfloor>; d = y - real_of_int f
      in if d < 1 / 2 then f else if 1 / 2 < d then f + 1 else if even f then f else f + 1)"

definition ulp :: "real \<Rightarrow> real" where
  "ulp x = 2 powr real_of_int (max \<lfloor>log 2 \<bar>x\<bar>\<rfloor> (- 1022) - 52)"

text \<open>The binary exponent of the doubles around \<open>x\<close>.\<close>

definition level :: "real \<Rightarrow> int" where
  "level x = max \<lfloor>log 2 \<bar>x\<bar>\<rfloor> (- 1022)"

definition fl :: "real \<Rightarrow> real" where
  "fl x = sgn x * (ulp x * real_of_int (rne (\<bar>x\<bar> / ulp x)))"

text \<open>The four operations on numbers.\<close>

definition num_add :: "real \<Rightarrow> real \<Rightarrow> real" where
  "num_add a b = fl (a + b)"

definition num_sub :: "real \<Rightarrow> real \<Rightarrow> real" where
  "num_sub a b = fl (a - b)"

definition num_mul :: "real \<Rightarrow> real \<Rightarrow> real" where
  "num_mul a b = fl (a * b)"

definition num_div :: "real \<Rightarrow> real \<Rightarrow> real" where
  "num_div a b = fl (a / b)"

text \<open>A real number that is a double.\<close>

definition is_double :: "real \<Rightarrow> bool" where
  "is_double x = (fl x = x)"

text \<open>
  The outcomes of a list of computations run in order: all the values, or the first
  exception. This is also \<^verbatim>\<open>Promise.all\<close>: a rejection when one of the promises rejects.
\<close>

fun promise_all :: "(exn + 'a) list \<Rightarrow> exn + 'a list" where
  "promise_all [] = Inr []"
| "promise_all (Inl e # ps) = Inl e"
| "promise_all (Inr x # ps) = (case promise_all ps of Inl e \<Rightarrow> Inl e | Inr xs \<Rightarrow> Inr (x # xs))"

subsection \<open>JSON values\<close>

text \<open>
  What \<^verbatim>\<open>res.json()\<close> can return. A number carries the text JavaScript prints it as
  (\<^verbatim>\<open>Number.prototype.toString\<close> is not part of the sources); an object is the list of
  its members in the order of the text, a later member of the same name replacing an
  earlier one.
\<close>

datatype json =
    JNull
  | JBool bool
  | JNum real string
  | JStr string
  | JArr "json list"
  | JObj "(string \<times> json) list"

text \<open>JavaScript truthiness of a value, and of a property that may be \<^verbatim>\<open>undefined\<close>.\<close>

fun js_truthy_value :: "json \<Rightarrow> bool" where
  "js_truthy_value JNull = False"
| "js_truthy_value (JBool b) = b"
| "js_truthy_value (JNum x s) = (x \<noteq> 0)"
| "js_truthy_value (JStr s) = (s \<noteq> [])"
| "js_truthy_value (JArr xs) = True"
| "js_truthy_value (JObj members) = True"

definition js_truthy :: "json option \<Rightarrow> bool" where
  "js_truthy v = (case v of None \<Rightarrow> False | Some x \<Rightarrow> js_truthy_value x)"

text \<open>
  Reading a property of a value that is not \<^verbatim>\<open>null\<close>: the member of an object, and
  \<^verbatim>\<open>undefined\<close> (\<open>None\<close>) when there is none or the value is no object.
\<close>

fun get_field :: "json \<Rightarrow> string \<Rightarrow> json option" where
  "get_field (JObj members) name = map_of (rev members) name"
| "get_field v name = None"

text \<open>\<^verbatim>\<open>xs.join(",")\<close>.\<close>

fun join_comma :: "string list \<Rightarrow> string" where
  "join_comma [] = []"
| "join_comma [x] = x"
| "join_comma (x # y # ys) = x @ '','' @ join_comma (y # ys)"

text \<open>
  The string a value becomes in \<^verbatim>\<open>"..." + value\<close>: a plain object prints as
  \<^verbatim>\<open>[object Object]\<close>, an array as its elements joined by commas, \<^verbatim>\<open>null\<close> elements
  printing as nothing. An object parsed from JSON with a member named \<^verbatim>\<open>toString\<close> has
  no callable conversion left, and the concatenation throws a TypeError.
\<close>

fun js_to_string :: "json \<Rightarrow> exn + string" where
  "js_to_string JNull = Inr ''null''"
| "js_to_string (JBool b) = Inr (if b then ''true'' else ''false'')"
| "js_to_string (JNum x s) = Inr s"
| "js_to_string (JStr s) = Inr s"
| "js_to_string (JArr xs) =
     (case promise_all (map (\<lambda>x. if x = JNull then Inr [] else js_to_string x) xs) of
        Inl e \<Rightarrow> Inl e
      | Inr ss \<Rightarrow> Inr (join_comma ss))"
| "js_to_string (JObj members) =
     (if ''toString'' \<in> set (map fst members) then
        Inl (Error ''TypeError: Cannot convert object to primitive value'')
      else Inr ''[object Object]'')"

record account_meta =
  pubkey :: pubkey
  isSigner :: bool
  isWritable :: bool

text \<open>
  A \<^verbatim>\<open>TransactionInstruction\<close>. The two compute-budget instructions are built by the
  web3 library from one number each and are kept symbolic.
\<close>

datatype instruction =
    SetComputeUnitPrice nat
  | SetComputeUnitLimit nat
  | Instruction (programId: pubkey) (keys: "account_meta list") (data: "byte list")

text \<open>
  A \<^verbatim>\<open>VersionedTransaction\<close>: either compiled here from instructions, or deserialised
  from the base64 payload the aggregator returned (kept opaque).
\<close>

datatype tx_message =
    Compiled (payerKey: pubkey) (instructions: "instruction list")
  | Deserialized string

record vtx =
  message :: tx_message
  recentBlockhash :: string
  signedBy :: "pubkey list"

subsection \<open>constants.ts\<close>

definition JITO_ACCOUNTS :: "pubkey list" where
  "JITO_ACCOUNTS =
    [''96gYZGLnJYVFmbjzopPSU6QiEV5fGqZNyN9nmNhvrZU5'',
     ''HFqU5x63VTqvQss8hp11i4wVV8bD44PvwucfZ2bU7gRe'',
     ''Cw8CFyM9FkoMi7K7Crf6HNQqf4uEMzpKw6QNghXLvLkY'',
     ''ADaUMid9yfUytqMBgopwjb2DTLSokTSzL1zt6iGPaS49'',
     ''DfXygSm4jCyNCybVYYK6DwvWqjKee8pbDmJGcLWNDXjh'',
     ''ADuUkR4vqLUMWXxW9gh6D6L8pMSawimctcNZ5pGwDcEt'',
     ''DttWaMuVvTiduZRnguLF7jNxTgiMBZ1hyAumKUiL2KRL'',
     ''3AVi9Tg9Uo68tJfuvoKvqKNWKkC5wPdSSdeBnizKZ6jT'']"

definition JITO_URLS :: "string list" where
  "JITO_URLS =
    [''https://amsterdam.mainnet.block-engine.jito.wtf/api/v1/bundles'',
     ''https://frankfurt.mainnet.block-engine.jito.wtf/api/v1/bundles'',
     ''https://ny.mainnet.block-engine.jito.wtf/api/v1/bundles'',
     ''https://tokyo.mainnet.block-engine.jito.wtf/api/v1/bundles'',
     ''https://slc.mainnet.block-engine.jito.wtf/api/v1/bundles'']"

definition FEE_ACCOUNT_1 :: pubkey where
  "FEE_ACCOUNT_1 = ''BsJVUnreMP9x3hieTGNvfFkgtGWMT5dL2tkNeerY2x6X''"

definition FEE_ACCOUNT_2 :: pubkey where
  "FEE_ACCOUNT_2 = ''HkwQG47SYLprat3A2a7zm2PhA4EiqXe4BRGeZFuBJLGB''"

definition WSOL_MINT :: pubkey where
  "WSOL_MINT = ''So11111111111111111111111111111111111111112''"

definition AMM_PROGRAM_ID :: pubkey where
  "AMM_PROGRAM_ID = ''ammm1g4BXHiRCo3XtUxdTxm4jm5tzqSV6nMK1K52H6W''"

text \<open>\<^verbatim>\<open>SystemProgram.programId\<close> of the web3 library.\<close>

definition SystemProgram_programId :: pubkey where
  "SystemProgram_programId = ''11111111111111111111111111111111''"

subsection \<open>common.ts\<close>

text \<open>
  \<^verbatim>\<open>const index = Math.floor(Math.random() * JITO_ACCOUNTS.length); return JITO_ACCOUNTS[index]\<close>.
  The draw \<open>r\<close> is the value of \<^verbatim>\<open>Math.random()\<close>. An index outside the table reads
  \<^verbatim>\<open>undefined\<close> in JavaScript: \<open>None\<close> here.
\<close>

definition random_index :: "real \<Rightarrow> 'a list \<Rightarrow> 'a option" where
  "random_index r xs =
     (let index = \<lfloor>r * real (length xs)\<rfloor>
      in if 0 \<le> index \<and> nat index < length xs then Some (xs ! nat index) else None)"

definition getRandomJitoAccount :: "real \<Rightarrow> pubkey option" where
  "getRandomJitoAccount r = random_index r JITO_ACCOUNTS"

definition getRandomJitoUrl :: "real \<Rightarrow> string option" where
  "getRandomJitoUrl r = random_index r JITO_URLS"

text \<open>
  \<^verbatim>\<open>createVtxWithOnlyMainSigner(ixs, wallet, blockhash)\<close>: the guard on the blockhash
  (\<^verbatim>\<open>!blockhash\<close> holds of the empty string), then the message compiled with the wallet as
  payer and signed by the wallet alone.
\<close>

definition createVtxWithOnlyMainSigner ::
  "instruction list \<Rightarrow> pubkey \<Rightarrow> string \<Rightarrow> exn + vtx" where
  "createVtxWithOnlyMainSigner ixs wallet bhash =
     (if bhash = [] then
        Inl (Error ''Invalid blockhash provided to createVtxWithOnlyMainSigner'')
      else Inr \<lparr>message = Compiled wallet ixs, recentBlockhash = bhash,
                signedBy = [wallet]\<rparr>)"

subsection \<open>Buffers and the big-number library\<close>

text \<open>The little-endian digits of \<open>n\<close> in base 256, \<open>len\<close> of them.\<close>

fun le_bytes :: "nat \<Rightarrow> nat \<Rightarrow> byte list" where
  "le_bytes 0 n = []"
| "le_bytes (Suc len) n = of_nat (n mod 256) # le_bytes len (n div 256)"

text \<open>
  The big-number library (bn.js) is not part of the sources; the two calls the builders
  make are modelled on the library. \<^verbatim>\<open>new BN(number)\<close> takes a JavaScript number and
  asserts that it is below \<open>2^53\<close> (\<^verbatim>\<open>assert(number < 0x20000000000000)\<close>), so that a tip
  from \<open>2^53\<close> on makes the builder throw. \<^verbatim>\<open>toArrayLike(Buffer, "le", len)\<close> gives the
  value as \<open>len\<close> bytes, least significant first, zero-padded, and refuses a value that
  needs more than \<open>len\<close> bytes.
\<close>

definition new_BN :: "nat \<Rightarrow> exn + nat" where
  "new_BN number =
     (if number < 2 ^ 53 then Inr number else Inl (Error ''Assertion failed''))"

definition toArrayLike_le :: "nat \<Rightarrow> nat \<Rightarrow> exn + byte list" where
  "toArrayLike_le n len =
     (if n < 256 ^ len then Inr (le_bytes len n)
      else Inl (Error ''byte array longer than desired length''))"

text \<open>\<^verbatim>\<open>Buffer.alloc(n)\<close>: \<open>n\<close> zero bytes.\<close>

definition Buffer_alloc :: "nat \<Rightarrow> byte list" where
  "Buffer_alloc n = replicate n 0"

text \<open>
  \<^verbatim>\<open>source.copy(target, targetStart)\<close>: the bytes of the source overwrite the target from
  \<open>targetStart\<close> on, as many as fit; the target keeps its length.
\<close>

definition Buffer_copy :: "byte list \<Rightarrow> byte list \<Rightarrow> nat \<Rightarrow> byte list" where
  "Buffer_copy source target targetStart =
     (if targetStart \<ge> length target then target
      else take targetStart target
           @ take (length target - targetStart) source
           @ drop (targetStart + length source) target)"

text \<open>
  Reading a byte sequence as a little-endian unsigned integer: what the receiving program
  does with bytes 1 to 8 of the payload. Used to state the round trip only.
\<close>

fun le_decode :: "byte list \<Rightarrow> nat" where
  "le_decode [] = 0"
| "le_decode (b # bs) = unat b + 256 * le_decode bs"

section \<open>The orchestrator\<close>

record JupiterCache =
  buy :: "string option"
  sell :: "string option"
  lastUpdateTime :: int
  tables :: "string list option"

text \<open>The fields of an \<^verbatim>\<open>AMM\<close> object (the connection handle is the environment).\<close>

record amm =
  payer :: pubkey
  jupiterCache :: JupiterCache
  disableLogs :: bool
  balance :: real
  blockhash :: string
  lastBlockhashRefresh :: int

subsection \<open>Funding transactions\<close>

definition getComputeBudgetInstructions :: "instruction list" where
  "getComputeBudgetInstructions =
     (let unitPrice = nat \<lfloor>(10000 * 1000000 :: real) / 600000\<rfloor>
      in [SetComputeUnitPrice unitPrice, SetComputeUnitLimit 600000])"

text \<open>
  The instruction payload of both builders:
  \<^verbatim>\<open>Buffer.alloc(9); data[0] = tag; new BN(tip).toArrayLike(Buffer, "le", 8).copy(data, 1)\<close>.
\<close>

definition instructionData :: "byte \<Rightarrow> nat \<Rightarrow> exn + byte list" where
  "instructionData tag jitoTipLamports =
     (let buf = (Buffer_alloc 9)[0 := tag]
      in case new_BN jitoTipLamports of
           Inl e \<Rightarrow> Inl e
         | Inr bn \<Rightarrow>
             (case toArrayLike_le bn 8 of
                Inl e \<Rightarrow> Inl e
              | Inr tipBytes \<Rightarrow> Inr (Buffer_copy tipBytes buf 1)))"

text \<open>
  \<^verbatim>\<open>createFundTx(pubkeys, jitoTipLamports, blockhash)\<close>; \<open>r\<close> is the draw of
  \<^verbatim>\<open>getRandomJitoAccount\<close>. Reading \<^verbatim>\<open>pubkeys[i].publicKey\<close> beyond the array throws.
\<close>

definition createFundTx :: "amm \<Rightarrow> real \<Rightarrow> pubkey list \<Rightarrow> nat \<Rightarrow> string \<Rightarrow> exn + vtx" where
  "createFundTx this r pubkeys jitoTipLamports bhash =
     (case getRandomJitoAccount r of
        None \<Rightarrow> Inl (Error ''TypeError: undefined account'')
      | Some selectedJitoAccount \<Rightarrow>
          if length pubkeys < 4 then
            Inl (Error ''TypeError: Cannot read properties of undefined'')
          else
            let accounts =
              [\<lparr>pubkey = payer this, isSigner = True, isWritable = True\<rparr>,
               \<lparr>pubkey = pubkeys ! 0, isSigner = False, isWritable = True\<rparr>,
               \<lparr>pubkey = pubkeys ! 1, isSigner = False, isWritable = True\<rparr>,
               \<lparr>pubkey = pubkeys ! 2, isSigner = False, isWritable = True\<rparr>,
               \<lparr>pubkey = pubkeys ! 3, isSigner = False, isWritable = True\<rparr>,
               \<lparr>pubkey = selectedJitoAccount, isSigner = False, isWritable = True\<rparr>,
               \<lparr>pubkey = FEE_ACCOUNT_1, isSigner = False, isWritable = True\<rparr>,
               \<lparr>pubkey = FEE_ACCOUNT_2, isSigner = False, isWritable = True\<rparr>,
               \<lparr>pubkey = SystemProgram_programId, isSigner = False, isWritable = False\<rparr>]
            in case instructionData 0 jitoTipLamports of
                 Inl e \<Rightarrow> Inl e
               | Inr bytes \<Rightarrow>
                   createVtxWithOnlyMainSigner
                     (getComputeBudgetInstructions @ [Instruction AMM_PROGRAM_ID accounts bytes])
                     (payer this) bhash)"

text \<open>\<^verbatim>\<open>createFundSingleTx(pubkey, jitoTipLamports, blockhash)\<close>.\<close>

definition createFundSingleTx :: "amm \<Rightarrow> real \<Rightarrow> pubkey \<Rightarrow> nat \<Rightarrow> string \<Rightarrow> exn + vtx" where
  "createFundSingleTx this r pk jitoTipLamports bhash =
     (case getRandomJitoAccount r of
        None \<Rightarrow> Inl (Error ''TypeError: undefined account'')
      | Some selectedJitoAccount \<Rightarrow>
          let accounts =
            [\<lparr>pubkey = payer this, isSigner = True, isWritable = True\<rparr>,
             \<lparr>pubkey = pk, isSigner = False, isWritable = True\<rparr>,
             \<lparr>pubkey = selectedJitoAccount, isSigner = False, isWritable = True\<rparr>,
             \<lparr>pubkey = FEE_ACCOUNT_1, isSigner = False, isWritable = True\<rparr>,
             \<lparr>pubkey = FEE_ACCOUNT_2, isSigner = False, isWritable = True\<rparr>,
             \<lparr>pubkey = SystemProgram_programId, isSigner = False, isWritable = False\<rparr>]
          in case instructionData 3 jitoTipLamports of
               Inl e \<Rightarrow> Inl e
             | Inr bytes \<Rightarrow>
                 createVtxWithOnlyMainSigner
                   (getComputeBudgetInstructions @ [Instruction AMM_PROGRAM_ID accounts bytes])
                   (payer this) bhash)"

text \<open>The funding instruction of a funding transaction: the last of its instructions.\<close>

definition fundInstruction :: "vtx \<Rightarrow> instruction" where
  "fundInstruction tx = last (instructions (message tx))"

subsection \<open>The world outside\<close>

datatype Direction = Buy | Sell

datatype SwapMode = ExactIn | ExactOut

text \<open>
  The three option interfaces \<^verbatim>\<open>MakerOptions\<close>, \<^verbatim>\<open>VolumeOptions\<close> and \<^verbatim>\<open>SwapOptions\<close>
  have the same two optional fields.
\<close>

record Options =
  jitoTipLamports :: "nat option"
  includeDexes :: "string list option"

text \<open>The aggregator's reply to the quote request: \<^verbatim>\<open>data.data\<close>, absent or a route list.\<close>

record quote_response =
  routes :: "string list option"

text \<open>The aggregator's reply to the swap request: \<^verbatim>\<open>swapData.swapTransaction\<close>.\<close>

record swap_response =
  swapTransaction :: "string option"

text \<open>The two replies one call of the swap-route client receives (a failed fetch throws).\<close>

record swap_env =
  quoteReply :: "exn + quote_response"
  swapReply :: "exn + swap_response"

text \<open>
  What one loop iteration (or one call of \<^verbatim>\<open>swap\<close>) reads from outside, in the order of
  the source: the node's reply to \<^verbatim>\<open>getLatestBlockhash\<close>, the clock at the staleness test
  and when the refresh is recorded, the key pairs generated, the random draws, the
  aggregator's replies for the k-th signer, the relay's reply (any JSON value, as
  \<^verbatim>\<open>res.json()\<close> returns it; the relay sends \<^verbatim>\<open>{result: bundleId}\<close> or \<^verbatim>\<open>{error}\<close>),
  and the node's reply to \<^verbatim>\<open>getBalance\<close>.
\<close>

record env =
  latestBlockhash :: "exn + string"
  clock :: int
  clockAfter :: int
  generated :: "nat \<Rightarrow> pubkey"
  randomTrigger :: real
  randomSize :: real
  randomCountdown :: real
  jitoDraw :: real
  swapReplies :: "nat \<Rightarrow> swap_env"
  urlDraw :: real
  bundleReply :: "exn + json"
  balanceReply :: "exn + int"
  randomDelay :: real

text \<open>
  What an iteration does to the outside that the claims speak of: a request for the latest
  blockhash, a call of \<^verbatim>\<open>sendBundle\<close> with a bundle, a wait in milliseconds.
\<close>

datatype effect = GetLatestBlockhash | SendBundle "vtx list" | Wait real

text \<open>JavaScript truthiness of an optional string: present and not empty.\<close>

definition truthy :: "string option \<Rightarrow> bool" where
  "truthy s = (case s of None \<Rightarrow> False | Some t \<Rightarrow> t \<noteq> [])"

text \<open>\<^verbatim>\<open>sendBundle(bundled, url)\<close>: one POST to the URL drawn; the reply is the relay's.\<close>

definition sendBundle :: "vtx list \<Rightarrow> string option \<Rightarrow> exn + json \<Rightarrow> exn + json" where
  "sendBundle bundled url reply =
     (case url of None \<Rightarrow> Inl (Error ''TypeError: invalid URL'') | Some u \<Rightarrow> reply)"

text \<open>
  \<^verbatim>\<open>bundleResponse && bundleResponse.result\<close>, as a condition: the reply is truthy and so
  is its \<^verbatim>\<open>result\<close>.
\<close>

definition has_result :: "json \<Rightarrow> bool" where
  "has_result bundleResponse =
     (js_truthy_value bundleResponse \<and> js_truthy (get_field bundleResponse ''result''))"

text \<open>The bundles among the effects of an iteration.\<close>

fun bundles_sent :: "effect list \<Rightarrow> vtx list list" where
  "bundles_sent [] = []"
| "bundles_sent (SendBundle b # effs) = b # bundles_sent effs"
| "bundles_sent (x # effs) = bundles_sent effs"

text \<open>The call of \<^verbatim>\<open>sendBundle\<close>, when the bundle could be built.\<close>

definition submitted :: "exn + vtx list \<Rightarrow> effect list" where
  "submitted b = (case b of Inl e \<Rightarrow> [] | Inr bundled \<Rightarrow> [SendBundle bundled])"

subsection \<open>Construction\<close>

text \<open>The constructor's field initialisation; it starts \<^verbatim>\<open>initializeBlockhash\<close> without awaiting it.\<close>

definition new_AMM :: "pubkey \<Rightarrow> bool option \<Rightarrow> amm" where
  "new_AMM payerKeypair disableLogsOption =
     \<lparr>payer = payerKeypair,
      jupiterCache = \<lparr>buy = None, sell = None, lastUpdateTime = 0, tables = None\<rparr>,
      disableLogs = (case disableLogsOption of None \<Rightarrow> False | Some b \<Rightarrow> b),
      balance = 0, blockhash = [], lastBlockhashRefresh = 0\<rparr>"

definition initializeBlockhash :: "amm \<Rightarrow> exn + string \<Rightarrow> exn + amm" where
  "initializeBlockhash this reply =
     (case reply of
        Inl e \<Rightarrow> Inl e
      | Inr bh \<Rightarrow> Inr (this\<lparr>blockhash := bh, lastBlockhashRefresh := 0\<rparr>))"

subsection \<open>Swap-route client\<close>

text \<open>
  \<^verbatim>\<open>data.data\<close> absent or empty: \<^verbatim>\<open>!data.data || data.data.length === 0\<close>.
\<close>

definition no_routes :: "quote_response \<Rightarrow> bool" where
  "no_routes d = (case routes d of None \<Rightarrow> True | Some rs \<Rightarrow> length rs = 0)"

text \<open>The swap mode each of the two methods asks the aggregator for.\<close>

definition swapMakers_mode :: "Direction \<Rightarrow> SwapMode" where
  "swapMakers_mode direction = (if direction = Buy then ExactOut else ExactIn)"

definition swapVolume_mode :: "Direction \<Rightarrow> SwapMode" where
  "swapVolume_mode direction = (if direction = Buy then ExactIn else ExactOut)"

definition inputMint :: "Direction \<Rightarrow> pubkey \<Rightarrow> pubkey" where
  "inputMint direction mint = (if direction = Buy then WSOL_MINT else mint)"

definition outputMint :: "Direction \<Rightarrow> pubkey \<Rightarrow> pubkey" where
  "outputMint direction mint = (if direction = Buy then mint else WSOL_MINT)"

text \<open>
  \<^verbatim>\<open>swapMakers(direction, mint, signer, blockhash, dexes)\<close>. The amount is the constant 1;
  the replies do not depend on the request in the model. The transaction deserialised from
  the reply gets the blockhash and the signer's signature.
\<close>

definition swapMakers ::
  "Direction \<Rightarrow> pubkey \<Rightarrow> pubkey \<Rightarrow> string \<Rightarrow> string \<Rightarrow> swap_env \<Rightarrow> exn + vtx" where
  "swapMakers direction mint signer bhash dexes w =
     (case quoteReply w of
        Inl e \<Rightarrow> Inl e
      | Inr d \<Rightarrow>
          if no_routes d then Inl (Error ''No routes found for the swap.'')
          else
            (case swapReply w of
               Inl e \<Rightarrow> Inl e
             | Inr swapData \<Rightarrow>
                 if \<not> truthy (swapTransaction swapData) then
                   Inl (Error ''Failed to get swap transaction from Jupiter.'')
                 else
                   Inr \<lparr>message = Deserialized (the (swapTransaction swapData)),
                        recentBlockhash = bhash, signedBy = [signer]\<rparr>))"

text \<open>\<^verbatim>\<open>swapVolume(direction, mint, amount, blockhash, signer, dexes)\<close>.\<close>

definition swapVolume ::
  "Direction \<Rightarrow> pubkey \<Rightarrow> real \<Rightarrow> string \<Rightarrow> pubkey \<Rightarrow> string \<Rightarrow> swap_env \<Rightarrow> exn + vtx" where
  "swapVolume direction mint amount bhash signer dexes w =
     (case quoteReply w of
        Inl e \<Rightarrow> Inl e
      | Inr d \<Rightarrow>
          if no_routes d then Inl (Error ''No routes found for the swap.'')
          else
            (case swapReply w of
               Inl e \<Rightarrow> Inl e
             | Inr swapData \<Rightarrow>
                 if \<not> truthy (swapTransaction swapData) then
                   Inl (Error ''Failed to get swap transaction from Jupiter.'')
                 else
                   Inr \<lparr>message = Deserialized (the (swapTransaction swapData)),
                        recentBlockhash = bhash, signedBy = [signer]\<rparr>))"

subsection \<open>Balances\<close>

text \<open>\<^verbatim>\<open>getSolBalance()\<close>: the node's reply in lamports over 1e9, or 0 when the call throws.\<close>

definition getSolBalance :: "exn + int \<Rightarrow> real" where
  "getSolBalance reply =
     (case reply of Inl e \<Rightarrow> 0 | Inr lamports \<Rightarrow> real_of_int lamports / 1000000000)"

text \<open>The \<^verbatim>\<open>value\<close> of the node's reply to \<^verbatim>\<open>getTokenAccountBalance\<close>.\<close>

record token_amount =
  amount :: nat
  decimals :: nat

text \<open>
  \<^verbatim>\<open>getTokenBalance(mint)\<close>: \<open>ata\<close> is the outcome of the address derivation
  \<^verbatim>\<open>getOwnerAta\<close>, \<open>rpc\<close> the node's reply for an account.
\<close>

definition getTokenBalance :: "exn + pubkey \<Rightarrow> (pubkey \<Rightarrow> exn + token_amount) \<Rightarrow> real" where
  "getTokenBalance ata rpc =
     (case ata of
        Inl e \<Rightarrow> 0
      | Inr a \<Rightarrow>
          (case rpc a of
             Inl e \<Rightarrow> 0
           | Inr balanceInfo \<Rightarrow> real (amount balanceInfo) / 10 ^ decimals balanceInfo))"

subsection \<open>Options\<close>

text \<open>\<^verbatim>\<open>options.jitoTipLamports || dflt\<close>: an absent tip and the tip 0 give the default.\<close>

definition tip_or :: "Options \<Rightarrow> nat \<Rightarrow> nat" where
  "tip_or options dflt =
     (case jitoTipLamports options of None \<Rightarrow> dflt | Some t \<Rightarrow> if t = 0 then dflt else t)"

text \<open>The comma-separated venue list, empty when no venue is given.\<close>

definition dexes_of :: "Options \<Rightarrow> string" where
  "dexes_of options = (case includeDexes options of None \<Rightarrow> [] | Some ds \<Rightarrow> join_comma ds)"

subsection \<open>Maker-order workflow\<close>

record MakerStats =
  makersCompleted :: int
  makersRemaining :: int
  bundleCount :: int
  latestBundleId :: "json option"
  solBalance :: "real option"
  finished :: bool

text \<open>
  The staleness test of \<^verbatim>\<open>makers\<close>:
  \<^verbatim>\<open>!this.blockhash || stats.bundleCount - this.lastBlockhashRefresh >= 10\<close>.
\<close>

definition makers_stale :: "amm \<Rightarrow> MakerStats \<Rightarrow> bool" where
  "makers_stale this stats =
     (blockhash this = [] \<or> bundleCount stats - lastBlockhashRefresh this \<ge> 10)"

text \<open>
  The bundle of an iteration of \<^verbatim>\<open>makers\<close>: four key pairs generated, the funding
  transaction for them, and one swap transaction for each. \<open>Inl\<close> is an exception on the
  way to the \<^verbatim>\<open>catch\<close>.
\<close>

definition makers_bundle :: "amm \<Rightarrow> pubkey \<Rightarrow> string \<Rightarrow> nat \<Rightarrow> env \<Rightarrow> exn + vtx list" where
  "makers_bundle this mint dexes tip w =
     (let signers = map (generated w) [0..<4]
      in case createFundTx this (jitoDraw w) signers tip (blockhash this) of
           Inl e \<Rightarrow> Inl e
         | Inr fundTx \<Rightarrow>
             (case promise_all
                     (map (\<lambda>k. swapMakers Buy mint (signers ! k) (blockhash this) dexes
                                 (swapReplies w k)) [0..<length signers]) of
                Inl e \<Rightarrow> Inl e
              | Inr swapTxs \<Rightarrow> Inr (fundTx # swapTxs)))"

text \<open>
  The \<^verbatim>\<open>try\<close> block of \<^verbatim>\<open>makers\<close> after the refresh: the bundle of the four signers,
  its submission, and the statistics when the relay's reply has a truthy \<^verbatim>\<open>result\<close>.
\<close>

definition makers_try ::
  "amm \<Rightarrow> MakerStats \<Rightarrow> pubkey \<Rightarrow> int \<Rightarrow> string \<Rightarrow> nat \<Rightarrow> env \<Rightarrow> exn + MakerStats" where
  "makers_try this stats mint totalMakersRequired dexes tip w =
     (let signers = map (generated w) [0..<4]
      in case makers_bundle this mint dexes tip w of
           Inl e \<Rightarrow> Inl e
         | Inr bundled \<Rightarrow>
             (case sendBundle bundled (getRandomJitoUrl (urlDraw w)) (bundleReply w) of
                Inl e \<Rightarrow> Inl e
              | Inr bundleResponse \<Rightarrow>
                  if has_result bundleResponse then
                    Inr (stats\<lparr>bundleCount := bundleCount stats + 1,
                               latestBundleId := get_field bundleResponse ''result'',
                               makersCompleted :=
                                 makersCompleted stats + int (length signers),
                               makersRemaining :=
                                 totalMakersRequired
                                 - (makersCompleted stats + int (length signers))\<rparr>)
                  else Inr stats))"

text \<open>
  One iteration of the \<^verbatim>\<open>while\<close> loop of \<^verbatim>\<open>makers\<close>: the refresh when stale, the
  \<^verbatim>\<open>try\<close> block, and the \<^verbatim>\<open>catch\<close> that waits 5000 ms. An exception leaves the
  statistics as they were; a refresh that succeeded stays. The effects are listed in the
  order they happen.
\<close>

definition makers_iter ::
  "pubkey \<Rightarrow> int \<Rightarrow> string \<Rightarrow> nat \<Rightarrow> env \<Rightarrow> amm \<times> MakerStats
     \<Rightarrow> (amm \<times> MakerStats) \<times> effect list" where
  "makers_iter mint totalMakersRequired dexes tip w s =
     (case s of (this, stats) \<Rightarrow>
        if makers_stale this stats then
          (case latestBlockhash w of
             Inl e \<Rightarrow> ((this, stats), [GetLatestBlockhash, Wait 5000])
           | Inr bh \<Rightarrow>
               (let this' = this\<lparr>blockhash := bh, lastBlockhashRefresh := bundleCount stats\<rparr>;
                    sent = submitted (makers_bundle this' mint dexes tip w)
                in case makers_try this' stats mint totalMakersRequired dexes tip w of
                     Inl e \<Rightarrow> ((this', stats), GetLatestBlockhash # sent @ [Wait 5000])
                   | Inr stats' \<Rightarrow> ((this', stats'), GetLatestBlockhash # sent)))
        else
          (let sent = submitted (makers_bundle this mint dexes tip w)
           in case makers_try this stats mint totalMakersRequired dexes tip w of
                Inl e \<Rightarrow> ((this, stats), sent @ [Wait 5000])
              | Inr stats' \<Rightarrow> ((this, stats'), sent)))"

text \<open>
  The \<^verbatim>\<open>while (stats.makersCompleted < totalMakersRequired)\<close> loop. \<open>ws i\<close> is what the
  i-th iteration reads from outside. The loop need not end: the result is \<open>None\<close> when it
  runs forever, and otherwise the final state with the number of iterations run.
\<close>

partial_function (option) makers_loop ::
  "pubkey \<Rightarrow> int \<Rightarrow> string \<Rightarrow> nat \<Rightarrow> (nat \<Rightarrow> env) \<Rightarrow> nat \<Rightarrow> amm \<times> MakerStats
     \<Rightarrow> ((amm \<times> MakerStats) \<times> nat) option" where
  "makers_loop mint totalMakersRequired dexes tip ws i s =
     (if makersCompleted (snd s) < totalMakersRequired then
        makers_loop mint totalMakersRequired dexes tip ws (Suc i)
          (fst (makers_iter mint totalMakersRequired dexes tip (ws i) s))
      else Some (s, i))"

text \<open>
  \<^verbatim>\<open>makers(mint, totalMakersRequired, options)\<close>: the statistics returned, the object's
  fields afterwards and the number of loop iterations.
\<close>

definition makers ::
  "amm \<Rightarrow> pubkey \<Rightarrow> int \<Rightarrow> Options \<Rightarrow> (nat \<Rightarrow> env) \<Rightarrow> ((amm \<times> MakerStats) \<times> nat) option" where
  "makers this mint totalMakersRequired options ws =
     (let dexes = dexes_of options;
          tip = tip_or options 100000;
          stats = \<lparr>makersCompleted = 0, makersRemaining = totalMakersRequired,
                   bundleCount = 0, latestBundleId = None, solBalance = None,
                   finished = False\<rparr>
      in case makers_loop mint totalMakersRequired dexes tip ws 0 (this, stats) of
           None \<Rightarrow> None
         | Some ((this', stats'), n) \<Rightarrow> Some ((this', stats'\<lparr>finished := True\<rparr>), n))"

subsection \<open>Volume-generation workflow\<close>

text \<open>The local variables of \<^verbatim>\<open>volume\<close> that live across iterations.\<close>

record volume_vars =
  totalNetVolume :: real
  totalRealVolume :: real
  tradesUntilNextSell :: int
  tradeCount :: int

text \<open>\<^verbatim>\<open>Math.floor(Math.random() * 3) + 1\<close>.\<close>

definition next_countdown :: "real \<Rightarrow> int" where
  "next_countdown r = \<lfloor>num_mul r 3\<rfloor> + 1"

text \<open>The staleness test of \<^verbatim>\<open>volume\<close>: \<^verbatim>\<open>!this.blockhash || Date.now() - this.lastBlockhashRefresh >= 60_000\<close>.\<close>

definition volume_stale :: "amm \<Rightarrow> env \<Rightarrow> bool" where
  "volume_stale this w = (blockhash this = [] \<or> clock w - lastBlockhashRefresh this \<ge> 60000)"

text \<open>
  \<^verbatim>\<open>(tradesUntilNextSell <= 0 || Math.random() < 0.3) && totalNetVolume > 0\<close>; the
  literal \<^verbatim>\<open>0.3\<close> is the double nearest to 3/10.
\<close>

definition shouldSell :: "volume_vars \<Rightarrow> env \<Rightarrow> bool" where
  "shouldSell vars w =
     ((tradesUntilNextSell vars \<le> 0 \<or> randomTrigger w < fl (3 / 10))
      \<and> totalNetVolume vars > 0)"

text \<open>
  \<^verbatim>\<open>const maxSellPercentage = 1 / mCapFactor;
  const sellPercentage = 0.5 + Math.random() * 0.5 * maxSellPercentage;\<close>
  (for \<open>mCapFactor = 0\<close> the division is infinite in JavaScript and 0 here). The
  operations are rounded one by one, from left to right.
\<close>

definition maxSellPercentage :: "real \<Rightarrow> real" where
  "maxSellPercentage mCapFactor = num_div 1 mCapFactor"

definition sellPercentage :: "real \<Rightarrow> real \<Rightarrow> real" where
  "sellPercentage mCapFactor r =
     num_add 0.5 (num_mul (num_mul r 0.5) (maxSellPercentage mCapFactor))"

text \<open>The amount of a sell in SOL, before the scaling by 1e9 and the rounding down.\<close>

definition sellSol :: "real \<Rightarrow> real \<Rightarrow> real \<Rightarrow> real" where
  "sellSol mCapFactor netVolume r = num_mul netVolume (sellPercentage mCapFactor r)"

text \<open>\<^verbatim>\<open>amount = Math.floor(totalNetVolume * sellPercentage * 1e9)\<close>.\<close>

definition sellAmount :: "real \<Rightarrow> real \<Rightarrow> real \<Rightarrow> int" where
  "sellAmount mCapFactor netVolume r =
     \<lfloor>num_mul (sellSol mCapFactor netVolume r) 1000000000\<rfloor>"

text \<open>
  \<^verbatim>\<open>amount = Math.floor((Math.random() * (maxSolPerSwap - minSolPerSwap) + minSolPerSwap) * 1e9)\<close>.
\<close>

definition buyAmount :: "real \<Rightarrow> real \<Rightarrow> real \<Rightarrow> int" where
  "buyAmount minSolPerSwap maxSolPerSwap r =
     \<lfloor>num_mul (num_add (num_mul r (num_sub maxSolPerSwap minSolPerSwap)) minSolPerSwap)
        1000000000\<rfloor>"

text \<open>The direction and the amount of the iteration's trade, in smallest units.\<close>

definition trade_direction :: "volume_vars \<Rightarrow> env \<Rightarrow> Direction" where
  "trade_direction vars w = (if shouldSell vars w then Sell else Buy)"

definition trade_amount :: "real \<Rightarrow> real \<Rightarrow> real \<Rightarrow> volume_vars \<Rightarrow> env \<Rightarrow> int" where
  "trade_amount minSolPerSwap maxSolPerSwap mCapFactor vars w =
     (if shouldSell vars w then sellAmount mCapFactor (totalNetVolume vars) (randomSize w)
      else buyAmount minSolPerSwap maxSolPerSwap (randomSize w))"

text \<open>
  The bundle of \<^verbatim>\<open>volume\<close> and of \<^verbatim>\<open>swap\<close>: one key pair generated, the funding
  transaction for it and the swap transaction; \<open>amt\<close> is the amount handed to
  \<^verbatim>\<open>swapVolume\<close>.
\<close>

definition volume_bundle ::
  "amm \<Rightarrow> pubkey \<Rightarrow> Direction \<Rightarrow> real \<Rightarrow> string \<Rightarrow> nat \<Rightarrow> env \<Rightarrow> exn + vtx list" where
  "volume_bundle this mint direction amt dexes tip w =
     (let signer = generated w 0
      in case createFundSingleTx this (jitoDraw w) signer tip (blockhash this) of
           Inl e \<Rightarrow> Inl e
         | Inr fundTx \<Rightarrow>
             (case swapVolume direction mint amt (blockhash this) signer dexes
                     (swapReplies w 0) of
                Inl e \<Rightarrow> Inl e
              | Inr swapTx \<Rightarrow> Inr [fundTx, swapTx]))"

text \<open>
  The \<^verbatim>\<open>try\<close> block of \<^verbatim>\<open>volume\<close> from the funding transaction on: the bundle, its
  submission, and the counters when the relay's reply has a truthy \<^verbatim>\<open>result\<close>.
  \<open>vars\<close> already holds the new countdown.
\<close>

definition volume_try ::
  "amm \<Rightarrow> volume_vars \<Rightarrow> pubkey \<Rightarrow> Direction \<Rightarrow> int \<Rightarrow> string \<Rightarrow> nat \<Rightarrow> env
     \<Rightarrow> exn + volume_vars" where
  "volume_try this vars mint direction amt dexes tip w =
     (case volume_bundle this mint direction (real_of_int amt) dexes tip w of
        Inl e \<Rightarrow> Inl e
      | Inr bundled \<Rightarrow>
          (case sendBundle bundled (getRandomJitoUrl (urlDraw w)) (bundleReply w) of
             Inl e \<Rightarrow> Inl e
           | Inr bundleResponse \<Rightarrow>
               if has_result bundleResponse then
                 (let solAmount = num_div (real_of_int amt) 1000000000
                  in Inr (vars\<lparr>tradeCount := tradeCount vars + 1,
                               totalNetVolume :=
                                 (if direction = Buy
                                  then num_add (totalNetVolume vars) solAmount
                                  else num_sub (totalNetVolume vars) solAmount),
                               totalRealVolume :=
                                 num_add (totalRealVolume vars) solAmount\<rparr>))
               else Inr vars))"

text \<open>
  The rest of an iteration once the blockhash is settled: the choice of direction and
  amount, the countdown (assigned before anything can throw), the \<^verbatim>\<open>try\<close> block, then
  the randomised delay, or the 5000 ms of the \<^verbatim>\<open>catch\<close> (for \<open>speedFactor = 0\<close> the
  delay is infinite in JavaScript and 0 here).
\<close>

definition volume_trade ::
  "pubkey \<Rightarrow> real \<Rightarrow> real \<Rightarrow> real \<Rightarrow> real \<Rightarrow> string \<Rightarrow> nat \<Rightarrow> env \<Rightarrow> amm \<Rightarrow> volume_vars
     \<Rightarrow> volume_vars \<times> effect list" where
  "volume_trade mint minSolPerSwap maxSolPerSwap mCapFactor speedFactor dexes tip w this vars =
     (let direction = trade_direction vars w;
          amt = trade_amount minSolPerSwap maxSolPerSwap mCapFactor vars w;
          vars1 = vars\<lparr>tradesUntilNextSell :=
                         (if shouldSell vars w then next_countdown (randomCountdown w)
                          else tradesUntilNextSell vars - 1)\<rparr>;
          sent = submitted (volume_bundle this mint direction (real_of_int amt) dexes tip w)
      in case volume_try this vars1 mint direction amt dexes tip w of
           Inl e \<Rightarrow> (vars1, sent @ [Wait 5000])
         | Inr vars2 \<Rightarrow>
             (vars2,
              sent @ [Wait (num_div (num_add 5000 (num_mul (randomDelay w) 10000))
                             speedFactor)]))"

text \<open>One iteration of the \<^verbatim>\<open>while (true)\<close> loop of \<^verbatim>\<open>volume\<close>.\<close>

definition volume_iter ::
  "pubkey \<Rightarrow> real \<Rightarrow> real \<Rightarrow> real \<Rightarrow> real \<Rightarrow> string \<Rightarrow> nat \<Rightarrow> env \<Rightarrow> amm \<times> volume_vars
     \<Rightarrow> (amm \<times> volume_vars) \<times> effect list" where
  "volume_iter mint minSolPerSwap maxSolPerSwap mCapFactor speedFactor dexes tip w s =
     (case s of (this, vars) \<Rightarrow>
        if volume_stale this w then
          (case latestBlockhash w of
             Inl e \<Rightarrow> ((this, vars), [GetLatestBlockhash, Wait 5000])
           | Inr bh \<Rightarrow>
               (let this' = this\<lparr>blockhash := bh, lastBlockhashRefresh := clockAfter w\<rparr>;
                    (vars', effs) =
                      volume_trade mint minSolPerSwap maxSolPerSwap mCapFactor speedFactor
                        dexes tip w this' vars
                in ((this', vars'), GetLatestBlockhash # effs)))
        else
          (let (vars', effs) =
                 volume_trade mint minSolPerSwap maxSolPerSwap mCapFactor speedFactor
                   dexes tip w this vars
           in ((this, vars'), effs)))"

text \<open>
  \<^verbatim>\<open>volume(mint, minSolPerSwap, maxSolPerSwap, mCapFactor, speedFactor, options)\<close> never
  returns. Its behaviour is the sequence of states it goes through: \<open>volume_run\<close> gives the
  state after the iterations whose environments are listed, a finite prefix of the run.
\<close>

fun volume_run ::
  "pubkey \<Rightarrow> real \<Rightarrow> real \<Rightarrow> real \<Rightarrow> real \<Rightarrow> string \<Rightarrow> nat \<Rightarrow> env list \<Rightarrow> amm \<times> volume_vars
     \<Rightarrow> amm \<times> volume_vars" where
  "volume_run mint minSolPerSwap maxSolPerSwap mCapFactor speedFactor dexes tip [] s = s"
| "volume_run mint minSolPerSwap maxSolPerSwap mCapFactor speedFactor dexes tip (w # ws) s =
     volume_run mint minSolPerSwap maxSolPerSwap mCapFactor speedFactor dexes tip ws
       (fst (volume_iter mint minSolPerSwap maxSolPerSwap mCapFactor speedFactor dexes tip w s))"

text \<open>
  The state of \<^verbatim>\<open>volume\<close> after the iterations listed; \<open>r0\<close> is the draw of the first
  countdown.
\<close>

definition volume ::
  "amm \<Rightarrow> pubkey \<Rightarrow> real \<Rightarrow> real \<Rightarrow> real \<Rightarrow> real \<Rightarrow> Options \<Rightarrow> real \<Rightarrow> env list
     \<Rightarrow> amm \<times> volume_vars" where
  "volume this mint minSolPerSwap maxSolPerSwap mCapFactor speedFactor options r0 ws =
     volume_run mint minSolPerSwap maxSolPerSwap mCapFactor speedFactor
       (dexes_of options) (tip_or options 1000000) ws
       (this, \<lparr>totalNetVolume = 0, totalRealVolume = 0,
                tradesUntilNextSell = next_countdown r0, tradeCount = 0\<rparr>)"

subsection \<open>One-shot swap\<close>

text \<open>
  \<^verbatim>\<open>"Swap failed: " + (bundleResponse.error || "Unknown error")\<close>, for a reply without
  a truthy \<^verbatim>\<open>result\<close>. Reading \<^verbatim>\<open>.error\<close> of a \<^verbatim>\<open>null\<close> reply is a TypeError; any
  other value is read for its \<^verbatim>\<open>error\<close> member, which is turned into a string when
  truthy.
\<close>

definition swap_failure :: "json \<Rightarrow> exn" where
  "swap_failure bundleResponse =
     (if bundleResponse = JNull then Error ''TypeError: Cannot read properties of null''
      else
        (case get_field bundleResponse ''error'' of
           None \<Rightarrow> Error (''Swap failed: '' @ ''Unknown error'')
         | Some err \<Rightarrow>
             if js_truthy_value err then
               (case js_to_string err of
                  Inl e \<Rightarrow> e
                | Inr text \<Rightarrow> Error (''Swap failed: '' @ text))
             else Error (''Swap failed: '' @ ''Unknown error'')))"

text \<open>
  The \<^verbatim>\<open>try\<close> block of \<^verbatim>\<open>swap\<close>; the \<^verbatim>\<open>catch\<close> rethrows what it caught. The amount
  handed to \<^verbatim>\<open>swapVolume\<close> is \<^verbatim>\<open>amount * 1e9\<close>.
\<close>

definition swap_try ::
  "amm \<Rightarrow> pubkey \<Rightarrow> Direction \<Rightarrow> real \<Rightarrow> string \<Rightarrow> nat \<Rightarrow> env \<Rightarrow> exn + unit" where
  "swap_try this mint direction amt dexes tip w =
     (case volume_bundle this mint direction (num_mul amt 1000000000) dexes tip w of
        Inl e \<Rightarrow> Inl e
      | Inr bundled \<Rightarrow>
          (case sendBundle bundled (getRandomJitoUrl (urlDraw w)) (bundleReply w) of
             Inl e \<Rightarrow> Inl e
           | Inr bundleResponse \<Rightarrow>
               if has_result bundleResponse then Inr ()
               else Inl (swap_failure bundleResponse)))"

text \<open>
  \<^verbatim>\<open>swap(mint, direction, amount, options)\<close>: the object's fields afterwards, and the
  outcome. A missing blockhash is fetched first, outside the \<^verbatim>\<open>try\<close>.
\<close>

definition swap ::
  "amm \<Rightarrow> pubkey \<Rightarrow> Direction \<Rightarrow> real \<Rightarrow> Options \<Rightarrow> env \<Rightarrow> amm \<times> (exn + unit)" where
  "swap this mint direction amt options w =
     (let tip = tip_or options 1000000;
          dexes = dexes_of options
      in if blockhash this = [] then
           (case initializeBlockhash this (latestBlockhash w) of
              Inl e \<Rightarrow> (this, Inl e)
            | Inr this' \<Rightarrow> (this', swap_try this' mint direction amt dexes tip w))
         else (this, swap_try this mint direction amt dexes tip w))"

subsection \<open>Well-behaved surroundings\<close>

text \<open>
  Conditions on what an iteration reads from outside, used to state the claims: a draw is
  in the range of \<^verbatim>\<open>Math.random()\<close>; the aggregator returns a route and a transaction
  for it; the relay acknowledges the bundle; the node returns a blockhash.
\<close>

definition random_ok :: "real \<Rightarrow> bool" where
  "random_ok r = (0 \<le> r \<and> r < 1)"

definition route_found :: "swap_env \<Rightarrow> bool" where
  "route_found v =
     (case quoteReply v of
        Inl e \<Rightarrow> False
      | Inr d \<Rightarrow>
          \<not> no_routes d \<and>
          (case swapReply v of Inl e \<Rightarrow> False | Inr swapData \<Rightarrow> truthy (swapTransaction swapData)))"

definition relay_acks :: "env \<Rightarrow> bool" where
  "relay_acks w =
     (case bundleReply w of Inl e \<Rightarrow> False | Inr bundleResponse \<Rightarrow> has_result bundleResponse)"

definition node_answers :: "env \<Rightarrow> bool" where
  "node_answers w = (case latestBlockhash w of Inl e \<Rightarrow> False | Inr bh \<Rightarrow> bh \<noteq> [])"

text \<open>
  The surroundings of the end-to-end scenario of \<^verbatim>\<open>makers\<close>: every aggregator call
  returns a route, every submission is acknowledged.
\<close>

definition all_succeed :: "env \<Rightarrow> bool" where
  "all_succeed w =
     (node_answers w \<and> random_ok (jitoDraw w) \<and> random_ok (urlDraw w)
      \<and> (\<forall>k \<in> set [0..<4]. route_found (swapReplies w k)) \<and> relay_acks w)"


text \<open>A mocked environment: one fixed route, the relay's acknowledgement \<^verbatim>\<open>{result: "bundle"}\<close>.\<close>

definition mock_env :: env where
  "mock_env =
     \<lparr>latestBlockhash = Inr ''hash'', clock = 0, clockAfter = 0,
      generated = (\<lambda>k. ''signer''),
      randomTrigger = 0, randomSize = 0, randomCountdown = 0, jitoDraw = 0,
      swapReplies = (\<lambda>k. \<lparr>quoteReply = Inr \<lparr>routes = Some [''route'']\<rparr>,
                           swapReply = Inr \<lparr>swapTransaction = Some ''tx''\<rparr>\<rparr>),
      urlDraw = 0,
      bundleReply = Inr (JObj [(''result'', JStr ''bundle'')]),
      balanceReply = Inr 0, randomDelay = 0\<rparr>"



text \<open>
  What it is for the effects of a maker iteration to fund four fresh signers: one bundle is
  submitted; its first transaction is the funding transaction, whose instruction names
  the four key pairs generated in this iteration as its recipients (entries 1 to 4 of
  the account list, writable); the other four transactions are the swaps, each signed by
  one of the four.
\<close>

definition funds_four :: "env \<Rightarrow> effect list \<Rightarrow> bool" where
  "funds_four w effs =
     (case bundles_sent effs of
        [fundTx # swapTxs] \<Rightarrow>
          (let signers = map (generated w) [0..<4];
               recipients = take 4 (drop 1 (keys (fundInstruction fundTx)))
           in map pubkey recipients = signers
              \<and> list_all isWritable recipients
              \<and> map signedBy swapTxs = map (\<lambda>k. [k]) signers)
      | other \<Rightarrow> False)"

section \<open>Rounding to the nearest double\<close>

text \<open>
  Facts about \<open>fl\<close>: it is monotone, it leaves a double as it is, and in the normal range
  it moves a number by at most one part in \<open>2^53\<close>.
\<close>

lemma rne_of_int [simp]: "rne (real_of_int n) = n"
  by (simp add: rne_def)

lemma rne_cases:
  "rne y = \<lfloor>y\<rfloor> \<and> y - real_of_int \<lfloor>y\<rfloor> \<le> 1 / 2
   \<or> rne y = \<lfloor>y\<rfloor> + 1 \<and> 1 / 2 \<le> y - real_of_int \<lfloor>y\<rfloor>"
  unfolding rne_def Let_def by (cases "y - real_of_int \<lfloor>y\<rfloor> < 1 / 2") auto

lemma rne_bounds: "real_of_int (rne y) \<le> y + 1 / 2" "y - 1 / 2 \<le> real_of_int (rne y)"
proof -
  from rne_cases [of y] show "real_of_int (rne y) \<le> y + 1 / 2"
    by (elim disjE conjE; linarith)
  from rne_cases [of y] show "y - 1 / 2 \<le> real_of_int (rne y)"
    by (elim disjE conjE; linarith)
qed

lemma rne_ge: "real_of_int a \<le> y \<Longrightarrow> a \<le> rne y"
proof -
  assume "real_of_int a \<le> y"
  then have "a \<le> \<lfloor>y\<rfloor>" by (simp add: le_floor_iff)
  then show ?thesis by (auto simp add: rne_def Let_def)
qed

lemma rne_le: "y \<le> real_of_int b \<Longrightarrow> rne y \<le> b"
proof -
  assume b: "y \<le> real_of_int b"
  show ?thesis
  proof (cases "y = real_of_int b")
    case True
    then show ?thesis by simp
  next
    case False
    with b have "y < real_of_int b" by simp
    then have "\<lfloor>y\<rfloor> < b" by (simp add: floor_less_iff)
    then show ?thesis by (auto simp add: rne_def Let_def)
  qed
qed

lemma rne_mono: "y \<le> z \<Longrightarrow> rne y \<le> rne z"
proof -
  assume yz: "y \<le> z"
  then have fl: "\<lfloor>y\<rfloor> \<le> \<lfloor>z\<rfloor>" by (rule floor_mono)
  show ?thesis
  proof (cases "\<lfloor>y\<rfloor> = \<lfloor>z\<rfloor>")
    case True
    with yz have "y - real_of_int \<lfloor>y\<rfloor> \<le> z - real_of_int \<lfloor>z\<rfloor>" by simp
    with True show ?thesis by (auto simp add: rne_def Let_def)
  next
    case False
    with fl have "\<lfloor>y\<rfloor> + 1 \<le> \<lfloor>z\<rfloor>" by simp
    moreover have "rne y \<le> \<lfloor>y\<rfloor> + 1" by (auto simp add: rne_def Let_def)
    moreover have "\<lfloor>z\<rfloor> \<le> rne z" by (auto simp add: rne_def Let_def)
    ultimately show ?thesis by linarith
  qed
qed

lemma ulp_pos: "0 < ulp x"
  by (simp add: ulp_def)

lemma fl_0 [simp]: "fl 0 = 0"
  by (simp add: fl_def)

lemma fl_minus: "fl (- x) = - fl x"
  by (simp add: fl_def ulp_def sgn_minus)

lemma fl_pos_eq: "0 < x \<Longrightarrow> fl x = ulp x * real_of_int (rne (x / ulp x))"
  by (simp add: fl_def)

text \<open>the exponent of the unit in the last place\<close>

lemma ulp_normal:
  assumes "2 powr real_of_int e \<le> \<bar>x\<bar>" "\<bar>x\<bar> < 2 powr real_of_int (e + 1)" "- 1022 \<le> e"
  shows "ulp x = 2 powr real_of_int (e - 52)"
proof -
  have "0 < \<bar>x\<bar>"
    using assms(1) powr_gt_zero [of 2 "real_of_int e"] by linarith
  then have "\<lfloor>log 2 \<bar>x\<bar>\<rfloor> = e"
    using assms(1,2) by (subst floor_log_eq_powr_iff) simp_all
  then show ?thesis using assms(3) by (simp add: ulp_def max_def)
qed

lemma ulp_subnormal:
  assumes "x \<noteq> 0" "\<bar>x\<bar> < 2 powr (- 1022)"
  shows "ulp x = 2 powr (- 1074)"
proof -
  have pos: "0 < \<bar>x\<bar>" using assms(1) by simp
  have "log 2 \<bar>x\<bar> < - 1022"
    using assms(2) pos by (simp add: log_less_iff)
  then have "\<lfloor>log 2 \<bar>x\<bar>\<rfloor> < - 1022" by linarith
  then show ?thesis by (simp add: ulp_def max_def)
qed

lemma ulp_level: "ulp x = 2 powr real_of_int (level x - 52)"
  by (simp add: ulp_def level_def)

lemma level_ge: "- 1022 \<le> level x"
  by (simp add: level_def)

lemma level_mono: "0 < x \<Longrightarrow> x \<le> y \<Longrightarrow> level x \<le> level y"
proof -
  assume "0 < x" "x \<le> y"
  then have "log 2 \<bar>x\<bar> \<le> log 2 \<bar>y\<bar>" by simp
  then have "\<lfloor>log 2 \<bar>x\<bar>\<rfloor> \<le> \<lfloor>log 2 \<bar>y\<bar>\<rfloor>" by (rule floor_mono)
  then show ?thesis by (simp add: level_def)
qed

lemma below_next_level:
  assumes "0 < x"
  shows "x < 2 powr real_of_int (level x + 1)"
proof -
  have "log 2 x < real_of_int (\<lfloor>log 2 x\<rfloor> + 1)" by linarith
  also have "\<dots> \<le> real_of_int (level x + 1)" using assms by (simp add: level_def)
  finally have "log 2 x < real_of_int (level x + 1)" .
  then show ?thesis using assms by (simp add: log_less_iff)
qed

lemma above_level:
  assumes "0 < x" "- 1022 < level x"
  shows "2 powr real_of_int (level x) \<le> x"
proof -
  from assms(2) have "level x = \<lfloor>log 2 x\<rfloor>" using assms(1) by (simp add: level_def max_def split: if_splits)
  then have "real_of_int (level x) \<le> log 2 x" by simp
  then show ?thesis using assms(1) by (simp add: le_log_iff)
qed

lemma pow2_shift: "2 powr a * 2 ^ n = 2 powr (a + real n)"
  by (simp add: powr_add powr_realpow)

lemma ulp_times_53: "ulp x * 2 ^ 53 = 2 powr real_of_int (level x + 1)"
proof -
  have "ulp x * 2 ^ 53 = 2 powr (real_of_int (level x - 52) + real (53::nat))"
    by (simp only: ulp_level pow2_shift)
  also have "real_of_int (level x - 52) + real (53::nat) = real_of_int (level x + 1)" by simp
  finally show ?thesis .
qed

lemma ulp_times_52: "ulp x * 2 ^ 52 = 2 powr real_of_int (level x)"
proof -
  have "ulp x * 2 ^ 52 = 2 powr (real_of_int (level x - 52) + real (52::nat))"
    by (simp only: ulp_level pow2_shift)
  also have "real_of_int (level x - 52) + real (52::nat) = real_of_int (level x)" by simp
  finally show ?thesis .
qed

lemma scaled_below:
  assumes "0 < x"
  shows "x / ulp x < 2 ^ 53"
proof -
  have "x < 2 powr real_of_int (level x + 1)" by (rule below_next_level [OF assms])
  then have "x < ulp x * 2 ^ 53" by (simp only: ulp_times_53)
  then show ?thesis using ulp_pos [of x] by (simp add: pos_divide_less_eq mult.commute)
qed

lemma scaled_above:
  assumes "0 < x" "- 1022 < level x"
  shows "2 ^ 52 \<le> x / ulp x"
proof -
  have "2 powr real_of_int (level x) \<le> x" by (rule above_level [OF assms])
  then have "ulp x * 2 ^ 52 \<le> x" by (simp only: ulp_times_52)
  then show ?thesis using ulp_pos [of x] by (simp add: pos_le_divide_eq mult.commute)
qed

lemma fl_nonneg: "0 \<le> x \<Longrightarrow> 0 \<le> fl x"
proof (cases "x = 0")
  case True
  then show ?thesis by simp
next
  case False
  assume "0 \<le> x"
  with False have pos: "0 < x" by simp
  have "0 \<le> x / ulp x" using pos ulp_pos [of x] by simp
  then have "0 \<le> rne (x / ulp x)" by (intro rne_ge) simp
  then show ?thesis using ulp_pos [of x] by (simp add: fl_pos_eq [OF pos])
qed

lemma fl_upper:
  assumes "0 < x"
  shows "fl x \<le> 2 powr real_of_int (level x + 1)"
proof -
  have "x / ulp x \<le> real_of_int (2 ^ 53)" using scaled_below [OF assms] by simp
  then have "rne (x / ulp x) \<le> 2 ^ 53" by (rule rne_le)
  then have "real_of_int (rne (x / ulp x)) \<le> 2 ^ 53"
    by (metis of_int_le_iff of_int_numeral of_int_power)
  then have "ulp x * real_of_int (rne (x / ulp x)) \<le> ulp x * 2 ^ 53"
    using ulp_pos [of x] by simp
  also have "\<dots> = 2 powr real_of_int (level x + 1)" by (rule ulp_times_53)
  finally show ?thesis by (simp only: fl_pos_eq [OF assms])
qed

lemma fl_lower:
  assumes "0 < x" "- 1022 < level x"
  shows "2 powr real_of_int (level x) \<le> fl x"
proof -
  have "real_of_int (2 ^ 52) \<le> x / ulp x" using scaled_above [OF assms] by simp
  then have "2 ^ 52 \<le> rne (x / ulp x)" by (rule rne_ge)
  then have "2 ^ 52 \<le> real_of_int (rne (x / ulp x))"
    by (metis of_int_le_iff of_int_numeral of_int_power)
  then have "ulp x * 2 ^ 52 \<le> ulp x * real_of_int (rne (x / ulp x))"
    using ulp_pos [of x] by simp
  then show ?thesis by (simp only: fl_pos_eq [OF assms(1)] ulp_times_52)
qed

lemma fl_mono_pos:
  assumes "0 < x" "x \<le> y"
  shows "fl x \<le> fl y"
proof -
  from assms have y: "0 < y" by simp
  have le: "level x \<le> level y" by (rule level_mono [OF assms])
  show ?thesis
  proof (cases "level x = level y")
    case True
    then have u: "ulp x = ulp y" by (simp add: ulp_level)
    have "x / ulp y \<le> y / ulp y" using assms(2) ulp_pos [of y] by (simp add: divide_right_mono)
    then have "rne (x / ulp y) \<le> rne (y / ulp y)" by (rule rne_mono)
    then show ?thesis
      using ulp_pos [of y] by (simp add: fl_pos_eq [OF assms(1)] fl_pos_eq [OF y] u)
  next
    case False
    with le have lt: "level x + 1 \<le> level y" by simp
    have "fl x \<le> 2 powr real_of_int (level x + 1)" by (rule fl_upper [OF assms(1)])
    also have "\<dots> \<le> 2 powr real_of_int (level y)" using lt by simp
    also have "\<dots> \<le> fl y"
    proof (rule fl_lower [OF y])
      show "- 1022 < level y" using lt level_ge [of x] by linarith
    qed
    finally show ?thesis .
  qed
qed

lemma fl_mono: "x \<le> y \<Longrightarrow> fl x \<le> fl y"
proof -
  assume xy: "x \<le> y"
  consider (pos) "0 < x" | (mid) "x \<le> 0" "0 \<le> y" | (neg) "y < 0" using xy by linarith
  then show ?thesis
  proof cases
    case pos
    then show ?thesis using xy by (rule fl_mono_pos)
  next
    case mid
    have "fl x = - fl (- x)" by (simp add: fl_minus)
    moreover have "0 \<le> fl (- x)" using mid(1) by (intro fl_nonneg) simp
    moreover have "0 \<le> fl y" using mid(2) by (rule fl_nonneg)
    ultimately show ?thesis by linarith
  next
    case neg
    have "fl (- y) \<le> fl (- x)" using neg xy by (intro fl_mono_pos) simp_all
    then show ?thesis by (simp add: fl_minus)
  qed
qed

lemma fl_eval_pos:
  assumes "2 powr real_of_int e \<le> x" "x < 2 powr real_of_int (e + 1)" "- 1022 \<le> e"
  shows "fl x = 2 powr real_of_int (e - 52) * real_of_int (rne (x / 2 powr real_of_int (e - 52)))"
proof -
  have pos: "0 < x"
    using assms(1) powr_gt_zero [of 2 "real_of_int e"] by linarith
  then have "ulp x = 2 powr real_of_int (e - 52)"
    using ulp_normal [of e x] assms by simp
  then show ?thesis by (simp add: fl_pos_eq [OF pos])
qed

lemma fl_exact_pos:
  assumes "0 < M" "M < 2 ^ 53" "- 1074 \<le> k"
  shows "fl (real_of_int M * 2 powr real_of_int k) = real_of_int M * 2 powr real_of_int k"
proof -
  let ?x = "real_of_int M * 2 powr real_of_int k"
  have pos: "0 < ?x" using assms(1) by simp
  have "real_of_int M < 2 ^ 53"
    using assms(2) by (metis of_int_less_iff of_int_numeral of_int_power)
  then have "?x < 2 ^ 53 * 2 powr real_of_int k" by simp
  also have "\<dots> = 2 powr (real_of_int k + real (53::nat))"
    by (simp only: pow2_shift mult.commute)
  finally have "log 2 ?x < real_of_int k + real (53::nat)"
    using pos by (simp add: log_less_iff)
  then have "\<lfloor>log 2 ?x\<rfloor> < k + 53" by (simp add: floor_less_iff)
  then have lev: "level ?x - 52 \<le> k"
    using assms(3) pos by (simp add: level_def)
  define L where "L = level ?x"
  define u where "u = ulp ?x"
  define d where "d = nat (k - (L - 52))"
  have u: "u = 2 powr real_of_int (L - 52)" by (simp add: u_def L_def ulp_level)
  have upos: "0 < u" by (simp add: u)
  have kk: "real_of_int k = real_of_int (L - 52) + real d"
    using lev by (simp add: d_def L_def)
  have "2 powr real_of_int k = u * 2 ^ d"
    by (simp only: kk u pow2_shift)
  then have "?x = u * real_of_int (M * 2 ^ d)" by simp
  then have x: "?x = ulp ?x * real_of_int (M * 2 ^ d)" by (simp only: u_def)
  then have "?x / ulp ?x = real_of_int (M * 2 ^ d)"
    using ulp_pos [of ?x] by (metis nonzero_mult_div_cancel_left less_irrefl)
  then have "rne (?x / ulp ?x) = M * 2 ^ d" by (simp only: rne_of_int)
  then have "fl ?x = ulp ?x * real_of_int (M * 2 ^ d)"
    by (simp only: fl_pos_eq [OF pos])
  also have "\<dots> = ?x" by (rule x [symmetric])
  finally show ?thesis .
qed

lemma fl_exact:
  assumes "\<bar>M\<bar> < 2 ^ 53" "- 1074 \<le> k"
  shows "fl (real_of_int M * 2 powr real_of_int k) = real_of_int M * 2 powr real_of_int k"
proof -
  consider (zero) "M = 0" | (pos) "0 < M" | (neg) "M < 0" by linarith
  then show ?thesis
  proof cases
    case zero
    then show ?thesis by simp
  next
    case pos
    with assms show ?thesis by (intro fl_exact_pos) simp_all
  next
    case neg
    with assms have "fl (real_of_int (- M) * 2 powr real_of_int k)
        = real_of_int (- M) * 2 powr real_of_int k"
      by (intro fl_exact_pos) simp_all
    then have "fl (- (real_of_int M * 2 powr real_of_int k))
        = - (real_of_int M * 2 powr real_of_int k)"
      by simp
    then show ?thesis by (simp add: fl_minus)
  qed
qed

lemma fl_int: "\<bar>n\<bar> < 2 ^ 53 \<Longrightarrow> fl (real_of_int n) = real_of_int n"
  using fl_exact [of n 0] by simp

lemma fl_idem_pos:
  assumes "0 < x"
  shows "fl (fl x) = fl x"
proof -
  let ?R = "rne (x / ulp x)"
  have fx: "fl x = real_of_int ?R * 2 powr real_of_int (level x - 52)"
    by (simp add: fl_pos_eq [OF assms] ulp_level)
  have k: "- 1074 \<le> level x - 52" using level_ge [of x] by simp
  have "x / ulp x \<le> real_of_int (2 ^ 53)" using scaled_below [OF assms] by simp
  then have up: "?R \<le> 2 ^ 53" by (rule rne_le)
  have "real_of_int 0 \<le> x / ulp x" using assms ulp_pos [of x] by simp
  then have lo: "0 \<le> ?R" by (rule rne_ge)
  consider (top) "?R = 2 ^ 53" | (mid) "\<bar>?R\<bar> < 2 ^ 53" using up lo by linarith
  then show ?thesis
  proof cases
    case mid
    then show ?thesis unfolding fx using k by (rule fl_exact)
  next
    case top
    have "real_of_int ?R = 2 ^ 52 * 2" by (simp add: top)
    then have "fl x = real_of_int (2 ^ 52) * (2 powr real_of_int (level x - 52) * 2 ^ 1)"
      by (simp add: fx)
    also have "2 powr real_of_int (level x - 52) * 2 ^ 1
        = 2 powr (real_of_int (level x - 52) + real (1::nat))"
      by (simp only: pow2_shift)
    also have "real_of_int (level x - 52) + real (1::nat) = real_of_int (level x - 51)"
      by simp
    finally have e: "fl x = real_of_int (2 ^ 52) * 2 powr real_of_int (level x - 51)" .
    have "fl (real_of_int (2 ^ 52) * 2 powr real_of_int (level x - 51))
        = real_of_int (2 ^ 52) * 2 powr real_of_int (level x - 51)"
      using k by (intro fl_exact) simp_all
    then show ?thesis by (simp only: e)
  qed
qed

lemma fl_idem [simp]: "fl (fl x) = fl x"
proof -
  consider (zero) "x = 0" | (pos) "0 < x" | (neg) "x < 0" by linarith
  then show ?thesis
  proof cases
    case zero
    then show ?thesis by simp
  next
    case pos
    then show ?thesis by (rule fl_idem_pos)
  next
    case neg
    then have "fl (fl (- x)) = fl (- x)" by (intro fl_idem_pos) simp
    then show ?thesis by (simp add: fl_minus)
  qed
qed

lemma fl_error:
  assumes "2 powr (- 1022) \<le> x"
  shows "\<bar>fl x - x\<bar> \<le> x / 2 ^ 53"
proof -
  have pos: "0 < x"
    using assms powr_gt_zero [of 2 "- 1022"] by linarith
  have "2 powr real_of_int (level x) \<le> x"
  proof (cases "- 1022 < level x")
    case True
    with pos show ?thesis by (rule above_level)
  next
    case False
    with level_ge [of x] have "level x = - 1022" by simp
    with assms show ?thesis by simp
  qed
  then have "ulp x * 2 ^ 52 \<le> x" by (simp only: ulp_times_52)
  then have u: "ulp x / 2 \<le> x / 2 ^ 53" by simp
  let ?y = "x / ulp x"
  have "\<bar>real_of_int (rne ?y) - ?y\<bar> \<le> 1 / 2"
    using rne_bounds [of ?y] by linarith
  then have "ulp x * \<bar>real_of_int (rne ?y) - ?y\<bar> \<le> ulp x * (1 / 2)"
    using ulp_pos [of x] by (intro mult_left_mono) simp_all
  moreover have "ulp x * \<bar>real_of_int (rne ?y) - ?y\<bar> = \<bar>fl x - x\<bar>"
  proof -
    have "fl x - x = ulp x * (real_of_int (rne ?y) - ?y)"
      using ulp_pos [of x] by (simp add: fl_pos_eq [OF pos] algebra_simps)
    then show ?thesis using ulp_pos [of x] by (simp add: abs_mult)
  qed
  ultimately show ?thesis using u by simp
qed

text \<open>Doubles: the small integers and the small dyadic fractions among them.\<close>

lemma is_double_fl: "is_double (fl x)"
  by (simp add: is_double_def)

lemma fl_dyadic:
  assumes "\<bar>M\<bar> < 2 ^ 53" "n \<le> 1074"
  shows "fl (real_of_int M / 2 ^ n) = real_of_int M / 2 ^ n"
proof -
  have "2 powr real_of_int (- int n) = 1 / 2 ^ n"
    by (simp add: powr_minus_divide powr_realpow)
  then have "real_of_int M * 2 powr real_of_int (- int n) = real_of_int M / 2 ^ n"
    by simp
  moreover have "- 1074 \<le> - int n" using assms(2) by simp
  ultimately show ?thesis
    using fl_exact [OF assms(1), of "- int n"] by simp
qed

lemma fl_numeral: "numeral n < (2::int) ^ 53 \<Longrightarrow> fl (numeral n) = numeral n"
  using fl_int [of "numeral n"] by simp

lemma fl_1 [simp]: "fl 1 = 1"
  using fl_int [of 1] by simp

lemma fl_half: "fl (1 / 2) = 1 / 2"
  using fl_dyadic [of 1 1] by simp

lemma fl_le_double: "x \<le> d \<Longrightarrow> is_double d \<Longrightarrow> fl x \<le> d"
  using fl_mono [of x d] by (simp add: is_double_def)

lemma fl_ge_double: "d \<le> x \<Longrightarrow> is_double d \<Longrightarrow> d \<le> fl x"
  using fl_mono [of d x] by (simp add: is_double_def)

lemma is_double_0 [simp]: "is_double 0"
  by (simp add: is_double_def)

lemma is_double_1 [simp]: "is_double 1"
  by (simp add: is_double_def)

lemma is_double_half: "is_double (1 / 2)"
  by (simp add: is_double_def fl_half)

text \<open>The smallest normal double is far below the amounts of the volume workflow.\<close>

lemma normal_small: "2 powr (- 1022) \<le> (1::real) / 2 ^ 100"
proof -
  have "(2::real) powr (- 1022) \<le> 2 powr (- 100)"
    by (rule powr_mono) simp_all
  also have "(2::real) powr (- 100) = 1 / 2 ^ 100"
    by (simp add: powr_minus_divide)
  finally show ?thesis .
qed

section \<open>Funding transactions: payload and accounts\<close>

text \<open>Decoding the little-endian digits gives the value back, up to the width.\<close>

lemma le_decode_le_bytes: "le_decode (le_bytes len n) = n mod 256 ^ len"
proof (induction len arbitrary: n)
  case 0
  show ?case by simp
next
  case (Suc len)
  have "unat (of_nat (n mod 256) :: byte) = n mod 256"
    by (simp add: unat_of_nat)
  then have "le_decode (le_bytes (Suc len) n) = n mod 256 + 256 * ((n div 256) mod 256 ^ len)"
    using Suc.IH by simp
  also have "\<dots> = n mod 256 ^ Suc len"
    by (simp add: mod_mult2_eq)
  finally show ?case .
qed

lemma length_le_bytes: "length (le_bytes len n) = len"
  by (induction len arbitrary: n) auto

lemma Buffer_copy_header:
  assumes "length source = n"
  shows "Buffer_copy source ((Buffer_alloc (Suc n))[0 := tag]) 1 = tag # source"
  using assms by (auto simp add: Buffer_copy_def Buffer_alloc_def)

lemma instructionData_ok:
  assumes "tip < 2 ^ 53"
  shows "instructionData tag tip = Inr (tag # le_bytes 8 tip)"
proof -
  have "tip < 2 ^ 64"
    using assms by (rule less_trans) simp
  then have enc: "toArrayLike_le tip 8 = Inr (le_bytes 8 tip)"
    by (simp add: toArrayLike_le_def)
  have bn: "new_BN tip = Inr tip"
    using assms by (simp add: new_BN_def)
  have "Buffer_copy (le_bytes 8 tip) ((Buffer_alloc (Suc 8))[0 := tag]) 1 = tag # le_bytes 8 tip"
    by (rule Buffer_copy_header) (rule length_le_bytes)
  then have "Buffer_copy (le_bytes 8 tip) ((Buffer_alloc 9)[0 := tag]) 1 = tag # le_bytes 8 tip"
    by simp
  then show ?thesis
    using enc bn by (simp add: instructionData_def)
qed

lemma instructionData_overflow:
  assumes "\<not> tip < 2 ^ 53"
  shows "instructionData tag tip = Inl (Error ''Assertion failed'')"
  using assms by (simp add: instructionData_def new_BN_def)

lemma random_index_member: "random_index r xs = Some x \<Longrightarrow> x \<in> set xs"
  by (auto simp add: random_index_def Let_def split: if_splits)

lemma createFundTx_Inr:
  assumes "createFundTx this r pks tip bh = Inr tx"
  shows "\<exists>jito. getRandomJitoAccount r = Some jito \<and> 4 \<le> length pks \<and> tip < 2 ^ 53 \<and> bh \<noteq> []
     \<and> tx = \<lparr>message = Compiled (payer this)
                 (getComputeBudgetInstructions @
                  [Instruction AMM_PROGRAM_ID
                    [\<lparr>pubkey = payer this, isSigner = True, isWritable = True\<rparr>,
                     \<lparr>pubkey = pks ! 0, isSigner = False, isWritable = True\<rparr>,
                     \<lparr>pubkey = pks ! 1, isSigner = False, isWritable = True\<rparr>,
                     \<lparr>pubkey = pks ! 2, isSigner = False, isWritable = True\<rparr>,
                     \<lparr>pubkey = pks ! 3, isSigner = False, isWritable = True\<rparr>,
                     \<lparr>pubkey = jito, isSigner = False, isWritable = True\<rparr>,
                     \<lparr>pubkey = FEE_ACCOUNT_1, isSigner = False, isWritable = True\<rparr>,
                     \<lparr>pubkey = FEE_ACCOUNT_2, isSigner = False, isWritable = True\<rparr>,
                     \<lparr>pubkey = SystemProgram_programId, isSigner = False, isWritable = False\<rparr>]
                    (0 # le_bytes 8 tip)]),
              recentBlockhash = bh, signedBy = [payer this]\<rparr>"
proof (cases "tip < 2 ^ 53")
  case True
  from assms True show ?thesis
    by (auto simp add: createFundTx_def instructionData_ok [OF True] createVtxWithOnlyMainSigner_def
        split: option.splits if_splits)
next
  case False
  from assms show ?thesis
    by (auto simp add: createFundTx_def instructionData_overflow [OF False] split: option.splits if_splits)
qed

lemma createFundSingleTx_Inr:
  assumes "createFundSingleTx this r pk tip bh = Inr tx"
  shows "\<exists>jito. getRandomJitoAccount r = Some jito \<and> tip < 2 ^ 53 \<and> bh \<noteq> []
     \<and> tx = \<lparr>message = Compiled (payer this)
                 (getComputeBudgetInstructions @
                  [Instruction AMM_PROGRAM_ID
                    [\<lparr>pubkey = payer this, isSigner = True, isWritable = True\<rparr>,
                     \<lparr>pubkey = pk, isSigner = False, isWritable = True\<rparr>,
                     \<lparr>pubkey = jito, isSigner = False, isWritable = True\<rparr>,
                     \<lparr>pubkey = FEE_ACCOUNT_1, isSigner = False, isWritable = True\<rparr>,
                     \<lparr>pubkey = FEE_ACCOUNT_2, isSigner = False, isWritable = True\<rparr>,
                     \<lparr>pubkey = SystemProgram_programId, isSigner = False, isWritable = False\<rparr>]
                    (3 # le_bytes 8 tip)]),
              recentBlockhash = bh, signedBy = [payer this]\<rparr>"
proof (cases "tip < 2 ^ 53")
  case True
  from assms True show ?thesis
    by (auto simp add: createFundSingleTx_def instructionData_ok [OF True] createVtxWithOnlyMainSigner_def
        split: option.splits if_splits)
next
  case False
  from assms show ?thesis
    by (auto simp add: createFundSingleTx_def instructionData_overflow [OF False] split: option.splits if_splits)
qed

lemma createFundTx_data:
  assumes "createFundTx this r pks tip bh = Inr tx"
  shows "data (fundInstruction tx) = 0 # le_bytes 8 tip"
  using createFundTx_Inr [OF assms] by (auto simp add: fundInstruction_def)

lemma createFundSingleTx_data:
  assumes "createFundSingleTx this r pk tip bh = Inr tx"
  shows "data (fundInstruction tx) = 3 # le_bytes 8 tip"
  using createFundSingleTx_Inr [OF assms] by (auto simp add: fundInstruction_def)

lemma le_bytes_8:
  "le_bytes 8 n =
     [of_nat (n mod 256), of_nat (n div 256 mod 256),
      of_nat (n div 256 div 256 mod 256), of_nat (n div 256 div 256 div 256 mod 256),
      of_nat (n div 256 div 256 div 256 div 256 mod 256),
      of_nat (n div 256 div 256 div 256 div 256 div 256 mod 256),
      of_nat (n div 256 div 256 div 256 div 256 div 256 div 256 mod 256),
      of_nat (n div 256 div 256 div 256 div 256 div 256 div 256 div 256 mod 256)]"
proof -
  have "(8::nat) = Suc (Suc (Suc (Suc (Suc (Suc (Suc (Suc 0)))))))" by simp
  then show ?thesis by (simp only: le_bytes.simps)
qed

lemma new_AMM_payer: "payer (new_AMM p d) = p"
  by (simp add: new_AMM_def)

text \<open>Both builders on a small input: the tip 100000, the default of \<^verbatim>\<open>makers\<close>.\<close>

lemma createFundTx_example:
  "createFundTx (new_AMM ''payer'' None) 0 [''a'', ''b'', ''c'', ''d''] 100000 ''hash''
       = Inr \<lparr>message = Compiled ''payer'' (getComputeBudgetInstructions @
                [Instruction AMM_PROGRAM_ID
                    [\<lparr>pubkey = ''payer'', isSigner = True, isWritable = True\<rparr>,
                     \<lparr>pubkey = ''a'', isSigner = False, isWritable = True\<rparr>,
                     \<lparr>pubkey = ''b'', isSigner = False, isWritable = True\<rparr>,
                     \<lparr>pubkey = ''c'', isSigner = False, isWritable = True\<rparr>,
                     \<lparr>pubkey = ''d'', isSigner = False, isWritable = True\<rparr>,
                     \<lparr>pubkey = JITO_ACCOUNTS ! 0, isSigner = False, isWritable = True\<rparr>,
                     \<lparr>pubkey = FEE_ACCOUNT_1, isSigner = False, isWritable = True\<rparr>,
                     \<lparr>pubkey = FEE_ACCOUNT_2, isSigner = False, isWritable = True\<rparr>,
                     \<lparr>pubkey = SystemProgram_programId, isSigner = False, isWritable = False\<rparr>]
                    [0, 160, 134, 1, 0, 0, 0, 0, 0]]),
              recentBlockhash = ''hash'', signedBy = [''payer'']\<rparr>"
proof -
  have "getRandomJitoAccount 0 = Some (JITO_ACCOUNTS ! 0)"
    by (simp add: getRandomJitoAccount_def random_index_def JITO_ACCOUNTS_def)
  moreover have "instructionData 0 100000 = Inr [0, 160, 134, 1, 0, 0, 0, 0, 0]"
    by (simp add: instructionData_ok le_bytes_8)
  ultimately show ?thesis
    by (simp add: createFundTx_def createVtxWithOnlyMainSigner_def new_AMM_def)
qed

lemma createFundSingleTx_example:
  "createFundSingleTx (new_AMM ''payer'' None) 0 ''a'' 100000 ''hash''
       = Inr \<lparr>message = Compiled ''payer'' (getComputeBudgetInstructions @
                [Instruction AMM_PROGRAM_ID
                    [\<lparr>pubkey = ''payer'', isSigner = True, isWritable = True\<rparr>,
                     \<lparr>pubkey = ''a'', isSigner = False, isWritable = True\<rparr>,
                     \<lparr>pubkey = JITO_ACCOUNTS ! 0, isSigner = False, isWritable = True\<rparr>,
                     \<lparr>pubkey = FEE_ACCOUNT_1, isSigner = False, isWritable = True\<rparr>,
                     \<lparr>pubkey = FEE_ACCOUNT_2, isSigner = False, isWritable = True\<rparr>,
                     \<lparr>pubkey = SystemProgram_programId, isSigner = False, isWritable = False\<rparr>]
                    [3, 160, 134, 1, 0, 0, 0, 0, 0]]),
              recentBlockhash = ''hash'', signedBy = [''payer'']\<rparr>"
proof -
  have "getRandomJitoAccount 0 = Some (JITO_ACCOUNTS ! 0)"
    by (simp add: getRandomJitoAccount_def random_index_def JITO_ACCOUNTS_def)
  moreover have "instructionData 3 100000 = Inr [3, 160, 134, 1, 0, 0, 0, 0, 0]"
    by (simp add: instructionData_ok le_bytes_8)
  ultimately show ?thesis
    by (simp add: createFundSingleTx_def createVtxWithOnlyMainSigner_def new_AMM_def)
qed

text \<open>
  C3. For both funding builders and every tip in \<open>[0, 2^53)\<close> the instruction payload is
  nine bytes: the command tag, then the tip as eight bytes little-endian; the payload is
  always produced, and reading the eight tip bytes little-endian gives the tip back. (The
  builders hand the tip to the big-number library as a JavaScript number, which the library
  accepts below \<open>2^53\<close> only.)
\<close>

theorem funding_payload_roundtrip:
  assumes "tip < 2 ^ 53"
  shows "instructionData tag tip = Inr (tag # le_bytes 8 tip)
     \<and> length (tag # le_bytes 8 tip) = 9
     \<and> le_decode (le_bytes 8 tip) = tip
     \<and> (createFundTx this r pks tip bh = Inr tx \<longrightarrow>
          data (fundInstruction tx) = 0 # le_bytes 8 tip)
     \<and> (createFundSingleTx this' r' pk tip bh' = Inr tx' \<longrightarrow>
          data (fundInstruction tx') = 3 # le_bytes 8 tip)"
proof -
  have "tip < 2 ^ 64"
    using assms by (rule less_trans) simp
  then have "tip < 256 ^ 8" by simp
  then have "le_decode (le_bytes 8 tip) = tip"
    by (simp only: le_decode_le_bytes mod_less)
  moreover have "length (tag # le_bytes 8 tip) = 9"
    by (simp add: length_le_bytes)
  moreover note instructionData_ok [OF assms, of tag]
  ultimately show ?thesis
    using createFundTx_data [of this r pks tip bh tx]
      createFundSingleTx_data [of this' r' pk tip bh' tx']
    by blast
qed

theorem funding_payload_roundtrip_witness:
  "(100000::nat) < 2 ^ 53
   \<and> (\<exists>tx tx'.
        createFundTx (new_AMM ''payer'' None) 0 [''a'', ''b'', ''c'', ''d''] 100000 ''hash'' = Inr tx
      \<and> createFundSingleTx (new_AMM ''payer'' None) 0 ''a'' 100000 ''hash'' = Inr tx'
      \<and> data (fundInstruction tx) = [0, 160, 134, 1, 0, 0, 0, 0, 0]
      \<and> data (fundInstruction tx') = [3, 160, 134, 1, 0, 0, 0, 0, 0])
   \<and> le_decode [160, 134, 1, 0, 0, 0, 0, 0] = 100000"
proof -
  note four = createFundTx_example and one = createFundSingleTx_example
  have bytes: "le_bytes 8 100000 = [160, 134, 1, 0, 0, 0, 0, 0]"
    by (simp add: le_bytes_8)
  have range: "(100000::nat) < 2 ^ 53" by simp
  from funding_payload_roundtrip [OF range, where this = "new_AMM ''payer'' None" and r = 0
      and pks = "[''a'', ''b'', ''c'', ''d'']" and bh = "''hash''"
      and this' = "new_AMM ''payer'' None" and r' = 0 and pk = "''a''" and bh' = "''hash''",
      unfolded four one bytes]
  show ?thesis
    unfolding four one by simp
qed

text \<open>
  C3, as claimed, fails above \<open>2^53\<close>: the tip \<open>9007199254740992 = 2^53\<close> lies in
  \<open>[0, 2^63)\<close>, and both builders throw the library's \<^verbatim>\<open>Assertion failed\<close> instead of
  producing a payload.
\<close>

theorem funding_payload_assertion_counterexample:
  "(9007199254740992::nat) < 2 ^ 63
   \<and> instructionData 0 9007199254740992 = Inl (Error ''Assertion failed'')
   \<and> instructionData 3 9007199254740992 = Inl (Error ''Assertion failed'')
   \<and> createFundTx (new_AMM ''payer'' None) 0 [''a'', ''b'', ''c'', ''d''] 9007199254740992 ''hash''
       = Inl (Error ''Assertion failed'')
   \<and> createFundSingleTx (new_AMM ''payer'' None) 0 ''a'' 9007199254740992 ''hash''
       = Inl (Error ''Assertion failed'')"
proof -
  have jito: "getRandomJitoAccount 0 = Some (JITO_ACCOUNTS ! 0)"
    by (simp add: getRandomJitoAccount_def random_index_def JITO_ACCOUNTS_def)
  have big: "\<not> (9007199254740992::nat) < 2 ^ 53" by simp
  have d: "instructionData tag 9007199254740992 = Inl (Error ''Assertion failed'')" for tag
    by (rule instructionData_overflow [OF big])
  show ?thesis
    by (simp add: createFundTx_def createFundSingleTx_def jito d)
qed

text \<open>
  C4. Whatever the inputs, the command tag of the 4-recipient builder differs from the tag
  of the 1-recipient builder; and the account list of the 4-recipient funding instruction
  is the payer, then exactly four writable entries for the four recipients, one writable
  entry for a relay-tip account of the configured table, the two fixed fee accounts, and
  the system program.
\<close>

theorem fund_accounts_and_tags:
  "(createFundTx this r pks tip bh = Inr tx \<longrightarrow>
      4 \<le> length pks \<and>
      (\<exists>jito. getRandomJitoAccount r = Some jito \<and> jito \<in> set JITO_ACCOUNTS \<and>
         keys (fundInstruction tx) =
           [\<lparr>pubkey = payer this, isSigner = True, isWritable = True\<rparr>,
            \<lparr>pubkey = pks ! 0, isSigner = False, isWritable = True\<rparr>,
            \<lparr>pubkey = pks ! 1, isSigner = False, isWritable = True\<rparr>,
            \<lparr>pubkey = pks ! 2, isSigner = False, isWritable = True\<rparr>,
            \<lparr>pubkey = pks ! 3, isSigner = False, isWritable = True\<rparr>,
            \<lparr>pubkey = jito, isSigner = False, isWritable = True\<rparr>,
            \<lparr>pubkey = FEE_ACCOUNT_1, isSigner = False, isWritable = True\<rparr>,
            \<lparr>pubkey = FEE_ACCOUNT_2, isSigner = False, isWritable = True\<rparr>,
            \<lparr>pubkey = SystemProgram_programId, isSigner = False, isWritable = False\<rparr>]))
   \<and> (createFundTx this r pks tip bh = Inr tx
        \<and> createFundSingleTx this' r' pk tip' bh' = Inr tx' \<longrightarrow>
      hd (data (fundInstruction tx)) \<noteq> hd (data (fundInstruction tx')))"
proof (intro conjI impI)
  assume b: "createFundTx this r pks tip bh = Inr tx"
  from createFundTx_Inr [OF b] show "4 \<le> length pks" by blast
  from createFundTx_Inr [OF b] obtain jito where
    j: "getRandomJitoAccount r = Some jito" and
    t: "tx = \<lparr>message = Compiled (payer this)
                 (getComputeBudgetInstructions @
                  [Instruction AMM_PROGRAM_ID
                    [\<lparr>pubkey = payer this, isSigner = True, isWritable = True\<rparr>,
                     \<lparr>pubkey = pks ! 0, isSigner = False, isWritable = True\<rparr>,
                     \<lparr>pubkey = pks ! 1, isSigner = False, isWritable = True\<rparr>,
                     \<lparr>pubkey = pks ! 2, isSigner = False, isWritable = True\<rparr>,
                     \<lparr>pubkey = pks ! 3, isSigner = False, isWritable = True\<rparr>,
                     \<lparr>pubkey = jito, isSigner = False, isWritable = True\<rparr>,
                     \<lparr>pubkey = FEE_ACCOUNT_1, isSigner = False, isWritable = True\<rparr>,
                     \<lparr>pubkey = FEE_ACCOUNT_2, isSigner = False, isWritable = True\<rparr>,
                     \<lparr>pubkey = SystemProgram_programId, isSigner = False, isWritable = False\<rparr>]
                    (0 # le_bytes 8 tip)]),
              recentBlockhash = bh, signedBy = [payer this]\<rparr>"
    by blast
  from j have "jito \<in> set JITO_ACCOUNTS"
    unfolding getRandomJitoAccount_def by (rule random_index_member)
  with j t show "\<exists>jito. getRandomJitoAccount r = Some jito \<and> jito \<in> set JITO_ACCOUNTS \<and>
         keys (fundInstruction tx) =
           [\<lparr>pubkey = payer this, isSigner = True, isWritable = True\<rparr>,
            \<lparr>pubkey = pks ! 0, isSigner = False, isWritable = True\<rparr>,
            \<lparr>pubkey = pks ! 1, isSigner = False, isWritable = True\<rparr>,
            \<lparr>pubkey = pks ! 2, isSigner = False, isWritable = True\<rparr>,
            \<lparr>pubkey = pks ! 3, isSigner = False, isWritable = True\<rparr>,
            \<lparr>pubkey = jito, isSigner = False, isWritable = True\<rparr>,
            \<lparr>pubkey = FEE_ACCOUNT_1, isSigner = False, isWritable = True\<rparr>,
            \<lparr>pubkey = FEE_ACCOUNT_2, isSigner = False, isWritable = True\<rparr>,
            \<lparr>pubkey = SystemProgram_programId, isSigner = False, isWritable = False\<rparr>]"
    by (simp add: fundInstruction_def)
next
  assume both: "createFundTx this r pks tip bh = Inr tx
        \<and> createFundSingleTx this' r' pk tip' bh' = Inr tx'"
  have "data (fundInstruction tx) = 0 # le_bytes 8 tip"
    using both by (intro createFundTx_data) blast
  moreover have "data (fundInstruction tx') = 3 # le_bytes 8 tip'"
    using both by (intro createFundSingleTx_data) blast
  ultimately show "hd (data (fundInstruction tx)) \<noteq> hd (data (fundInstruction tx'))"
    by simp
qed

theorem fund_accounts_and_tags_witness:
  "\<exists>tx tx'.
     createFundTx (new_AMM ''payer'' None) 0 [''a'', ''b'', ''c'', ''d''] 100000 ''hash'' = Inr tx
   \<and> createFundSingleTx (new_AMM ''payer'' None) 0 ''a'' 100000 ''hash'' = Inr tx'
   \<and> keys (fundInstruction tx) =
           [\<lparr>pubkey = ''payer'', isSigner = True, isWritable = True\<rparr>,
            \<lparr>pubkey = ''a'', isSigner = False, isWritable = True\<rparr>,
            \<lparr>pubkey = ''b'', isSigner = False, isWritable = True\<rparr>,
            \<lparr>pubkey = ''c'', isSigner = False, isWritable = True\<rparr>,
            \<lparr>pubkey = ''d'', isSigner = False, isWritable = True\<rparr>,
            \<lparr>pubkey = ''96gYZGLnJYVFmbjzopPSU6QiEV5fGqZNyN9nmNhvrZU5'',
               isSigner = False, isWritable = True\<rparr>,
            \<lparr>pubkey = FEE_ACCOUNT_1, isSigner = False, isWritable = True\<rparr>,
            \<lparr>pubkey = FEE_ACCOUNT_2, isSigner = False, isWritable = True\<rparr>,
            \<lparr>pubkey = SystemProgram_programId, isSigner = False, isWritable = False\<rparr>]
   \<and> hd (data (fundInstruction tx)) \<noteq> hd (data (fundInstruction tx'))"
proof -
  note four = createFundTx_example and one = createFundSingleTx_example
  have jito: "getRandomJitoAccount 0 = Some ''96gYZGLnJYVFmbjzopPSU6QiEV5fGqZNyN9nmNhvrZU5''"
    by (simp add: getRandomJitoAccount_def random_index_def JITO_ACCOUNTS_def)
  from fund_accounts_and_tags [where this = "new_AMM ''payer'' None" and r = 0
      and pks = "[''a'', ''b'', ''c'', ''d'']" and tip = 100000 and bh = "''hash''"
      and this' = "new_AMM ''payer'' None" and r' = 0 and pk = "''a''" and tip' = 100000
      and bh' = "''hash''", unfolded four one] jito
  show ?thesis
    unfolding four one by (simp add: new_AMM_payer)
qed

section \<open>Balance queries\<close>

text \<open>
  C10. \<^verbatim>\<open>getSolBalance\<close> and \<^verbatim>\<open>getTokenBalance\<close> return a number whatever happens (in
  the model their result type has no exception): when the node's call or the token-account
  lookup fails the result is 0, the same as for an account that holds nothing.
\<close>

theorem balances_never_throw:
  "getSolBalance (Inl e) = 0
   \<and> getSolBalance (Inl e) = getSolBalance (Inr 0)
   \<and> getTokenBalance (Inl e) rpc = 0
   \<and> getTokenBalance (Inr a) (rpc(a := Inl e)) = 0
   \<and> getTokenBalance (Inr a) (rpc(a := Inl e))
       = getTokenBalance (Inr a) (rpc(a := Inr \<lparr>amount = 0, decimals = d\<rparr>))"
  by (simp add: getSolBalance_def getTokenBalance_def)

section \<open>Building and routing succeed in well-behaved surroundings\<close>

lemma random_index_ok:
  assumes "random_ok r" "xs \<noteq> []"
  shows "\<exists>x. random_index r xs = Some x"
proof -
  from assms have len: "0 < real (length xs)" by simp
  from assms have r: "0 \<le> r" "r < 1" by (simp_all add: random_ok_def)
  have nonneg: "0 \<le> r * real (length xs)" using r len by simp
  have "r * real (length xs) < real (length xs)"
    using r len by simp
  then have "\<lfloor>r * real (length xs)\<rfloor> < int (length xs)"
    by (simp add: floor_less_iff)
  moreover have "0 \<le> \<lfloor>r * real (length xs)\<rfloor>" using nonneg by simp
  ultimately have "0 \<le> \<lfloor>r * real (length xs)\<rfloor>
      \<and> nat \<lfloor>r * real (length xs)\<rfloor> < length xs"
    by linarith
  then show ?thesis
    by (simp add: random_index_def Let_def)
qed

lemma getRandomJitoAccount_ok: "random_ok r \<Longrightarrow> \<exists>j. getRandomJitoAccount r = Some j"
  unfolding getRandomJitoAccount_def by (rule random_index_ok) (simp_all add: JITO_ACCOUNTS_def)

lemma getRandomJitoUrl_ok: "random_ok r \<Longrightarrow> \<exists>u. getRandomJitoUrl r = Some u"
  unfolding getRandomJitoUrl_def by (rule random_index_ok) (simp_all add: JITO_URLS_def)

lemma createFundSingleTx_ok:
  assumes "random_ok r" "tip < 2 ^ 53" "bh \<noteq> []"
  shows "\<exists>tx. createFundSingleTx this r pk tip bh = Inr tx"
proof -
  from getRandomJitoAccount_ok [OF assms(1)] obtain j where "getRandomJitoAccount r = Some j" ..
  then show ?thesis
    using assms(3)
    by (simp add: createFundSingleTx_def instructionData_ok [OF assms(2)] createVtxWithOnlyMainSigner_def)
qed

lemma createFundTx_ok:
  assumes "random_ok r" "tip < 2 ^ 53" "bh \<noteq> []" "4 \<le> length pks"
  shows "\<exists>tx. createFundTx this r pks tip bh = Inr tx"
proof -
  from getRandomJitoAccount_ok [OF assms(1)] obtain j where "getRandomJitoAccount r = Some j" ..
  then show ?thesis
    using assms(3,4)
    by (simp add: createFundTx_def instructionData_ok [OF assms(2)] createVtxWithOnlyMainSigner_def)
qed

lemma swapVolume_ok:
  assumes "route_found v"
  shows "\<exists>tx. swapVolume direction mint amt bh signer dexes v = Inr tx"
  using assms by (auto simp add: route_found_def swapVolume_def split: sum.splits)

lemma swapMakers_ok:
  assumes "route_found v"
  shows "\<exists>tx. swapMakers direction mint signer bh dexes v = Inr tx"
  using assms by (auto simp add: route_found_def swapMakers_def split: sum.splits)



text \<open>The bundle of \<^verbatim>\<open>volume\<close> and of \<^verbatim>\<open>swap\<close> is built: two transactions.\<close>

lemma volume_bundle_ok:
  assumes "random_ok (jitoDraw w)" "tip < 2 ^ 53" "blockhash this \<noteq> []"
    and "route_found (swapReplies w 0)"
  shows "\<exists>fundTx swapTx.
     createFundSingleTx this (jitoDraw w) (generated w 0) tip (blockhash this) = Inr fundTx
     \<and> volume_bundle this mint direction amt dexes tip w = Inr [fundTx, swapTx]"
proof -
  from createFundSingleTx_ok [OF assms(1,2,3)] obtain fundTx where
    f: "createFundSingleTx this (jitoDraw w) (generated w 0) tip (blockhash this) = Inr fundTx"
    by blast
  from swapVolume_ok [OF assms(4)] obtain swapTx where
    s: "swapVolume direction mint amt (blockhash this) (generated w 0) dexes
          (swapReplies w 0) = Inr swapTx"
    by blast
  show ?thesis
    by (simp add: volume_bundle_def f s)
qed


section \<open>The one-shot swap and the relay's reply\<close>






text \<open>The mocked environment with the relay answering what is given.\<close>

lemma route_found_mock: "route_found (swapReplies mock_env k)"
  by (simp add: route_found_def mock_env_def no_routes_def truthy_def)






section \<open>No route found\<close>














section \<open>The maker loop when everything succeeds\<close>

lemma promise_all_resolves:
  "(\<And>p. p \<in> set ps \<Longrightarrow> \<not> isl p) \<Longrightarrow> \<exists>xs. promise_all ps = Inr xs"
proof (induction ps rule: promise_all.induct)
  case 1
  show ?case by simp
next
  case (2 e ps)
  from "2.prems" [of "Inl e"] show ?case by simp
next
  case (3 x ps)
  have "\<exists>xs. promise_all ps = Inr xs"
    by (rule "3.IH") (simp add: "3.prems")
  then show ?case by auto
qed

lemma promise_all_Inr: "promise_all ps = Inr xs \<Longrightarrow> ps = map Inr xs"
proof (induction ps arbitrary: xs rule: promise_all.induct)
  case 1
  then show ?case by simp
next
  case (2 e ps)
  then show ?case by simp
next
  case (3 x ps)
  then show ?case by (cases "promise_all ps") auto
qed

lemma swapMakers_signed:
  "swapMakers direction mint signer bh dexes v = Inr tx \<Longrightarrow> signedBy tx = [signer]"
  by (auto simp add: swapMakers_def split: sum.splits if_splits)

lemma upt_0_4: "[0..<4] = [0, 1, 2, 3]"
  by (simp add: upt_rec)

text \<open>
  The bundle of a maker iteration in successful surroundings: the funding transaction for
  the four key pairs generated, then four swaps, the k-th signed by the k-th key pair.
\<close>

lemma makers_bundle_ok:
  assumes ok: "all_succeed w" and tip: "tip < 2 ^ 53" and bh: "blockhash this \<noteq> []"
  shows "\<exists>fundTx swapTxs. makers_bundle this mint dexes tip w = Inr (fundTx # swapTxs)
     \<and> createFundTx this (jitoDraw w) (map (generated w) [0..<4]) tip (blockhash this)
         = Inr fundTx
     \<and> map signedBy swapTxs = map (\<lambda>k. [k]) (map (generated w) [0..<4])"
proof -
  let ?signers = "map (generated w) [0..<4]"
  from ok have jito: "random_ok (jitoDraw w)"
    and routes: "\<And>k. k < 4 \<Longrightarrow> route_found (swapReplies w k)"
    by (simp_all add: all_succeed_def)
  have "4 \<le> length ?signers" by simp
  from createFundTx_ok [OF jito tip bh this, of this] obtain fundTx where
    f: "createFundTx this (jitoDraw w) ?signers tip (blockhash this) = Inr fundTx" ..
  let ?ps = "map (\<lambda>k. swapMakers Buy mint (?signers ! k) (blockhash this) dexes
                       (swapReplies w k)) [0..<length ?signers]"
  have "\<not> isl p" if "p \<in> set ?ps" for p
  proof -
    from that obtain k where k: "k < 4"
      and p: "p = swapMakers Buy mint (?signers ! k) (blockhash this) dexes (swapReplies w k)"
      by auto
    from swapMakers_ok [OF routes [OF k], of Buy mint "?signers ! k" "blockhash this" dexes]
    obtain tx where
      "swapMakers Buy mint (?signers ! k) (blockhash this) dexes (swapReplies w k) = Inr tx" ..
    with p show ?thesis by simp
  qed
  then obtain swapTxs where pa: "promise_all ?ps = Inr swapTxs"
    using promise_all_resolves [of ?ps] by blast
  from promise_all_Inr [OF pa] have ps: "?ps = map Inr swapTxs" .
  have len: "length swapTxs = 4"
    using arg_cong [OF ps, of length] by simp
  have "map signedBy swapTxs = map (\<lambda>k. [k]) ?signers"
  proof (rule nth_equalityI)
    show "length (map signedBy swapTxs) = length (map (\<lambda>k. [k]) ?signers)"
      using len by simp
  next
    fix k assume "k < length (map signedBy swapTxs)"
    then have k: "k < 4" using len by simp
    have "swapMakers Buy mint (?signers ! k) (blockhash this) dexes (swapReplies w k)
        = Inr (swapTxs ! k)"
      using arg_cong [OF ps, of "\<lambda>xs. xs ! k"] k len by simp
    then have "signedBy (swapTxs ! k) = [?signers ! k]"
      by (rule swapMakers_signed)
    then show "map signedBy swapTxs ! k = map (\<lambda>k. [k]) ?signers ! k"
      using k len by simp
  qed
  moreover have "makers_bundle this mint dexes tip w = Inr (fundTx # swapTxs)"
    unfolding makers_bundle_def Let_def f pa by simp
  ultimately show ?thesis using f by blast
qed

lemma funds_four_bundle:
  assumes "createFundTx this r (map (generated w) [0..<4]) tip bh = Inr fundTx"
    and "map signedBy swapTxs = map (\<lambda>k. [k]) (map (generated w) [0..<4])"
    and "bundles_sent effs = [fundTx # swapTxs]"
  shows "funds_four w effs"
proof -
  from createFundTx_Inr [OF assms(1)] obtain jito where
    "fundInstruction fundTx =
       Instruction AMM_PROGRAM_ID
         [\<lparr>pubkey = payer this, isSigner = True, isWritable = True\<rparr>,
          \<lparr>pubkey = map (generated w) [0..<4] ! 0, isSigner = False, isWritable = True\<rparr>,
          \<lparr>pubkey = map (generated w) [0..<4] ! 1, isSigner = False, isWritable = True\<rparr>,
          \<lparr>pubkey = map (generated w) [0..<4] ! 2, isSigner = False, isWritable = True\<rparr>,
          \<lparr>pubkey = map (generated w) [0..<4] ! 3, isSigner = False, isWritable = True\<rparr>,
          \<lparr>pubkey = jito, isSigner = False, isWritable = True\<rparr>,
          \<lparr>pubkey = FEE_ACCOUNT_1, isSigner = False, isWritable = True\<rparr>,
          \<lparr>pubkey = FEE_ACCOUNT_2, isSigner = False, isWritable = True\<rparr>,
          \<lparr>pubkey = SystemProgram_programId, isSigner = False, isWritable = False\<rparr>]
         (0 # le_bytes 8 tip)"
    by (auto simp add: fundInstruction_def)
  then have "map pubkey (take 4 (drop 1 (keys (fundInstruction fundTx))))
        = map (generated w) [0..<4]
      \<and> list_all isWritable (take 4 (drop 1 (keys (fundInstruction fundTx))))"
    by (simp add: upt_0_4)
  then show ?thesis
    using assms(2,3) by (simp add: funds_four_def Let_def)
qed

lemma makers_try_ok:
  assumes ok: "all_succeed w" and tip: "tip < 2 ^ 53" and bh: "blockhash this \<noteq> []"
  shows "\<exists>bid. makers_try this stats mint req dexes tip w =
     Inr (stats\<lparr>bundleCount := bundleCount stats + 1,
                latestBundleId := Some bid,
                makersCompleted := makersCompleted stats + 4,
                makersRemaining := req - (makersCompleted stats + 4)\<rparr>)"
proof -
  from ok have url: "random_ok (urlDraw w)" and ack: "relay_acks w"
    by (simp_all add: all_succeed_def)
  from makers_bundle_ok [OF ok tip bh, of mint dexes] obtain b where
    b: "makers_bundle this mint dexes tip w = Inr b"
    by blast
  from getRandomJitoUrl_ok [OF url] obtain u where u: "getRandomJitoUrl (urlDraw w) = Some u" ..
  from ack obtain reply where r: "bundleReply w = Inr reply" and t: "has_result reply"
    by (auto simp add: relay_acks_def split: sum.splits)
  from t obtain bid where bid: "get_field reply ''result'' = Some bid"
    by (auto simp add: has_result_def js_truthy_def split: option.splits)
  have "makers_try this stats mint req dexes tip w =
     Inr (stats\<lparr>bundleCount := bundleCount stats + 1,
                latestBundleId := Some bid,
                makersCompleted := makersCompleted stats + 4,
                makersRemaining := req - (makersCompleted stats + 4)\<rparr>)"
    unfolding makers_try_def Let_def b
    using t by (simp add: u r bid sendBundle_def)
  then show ?thesis ..
qed

lemma makers_iter_ok:
  assumes ok: "all_succeed w" and tip: "tip < 2 ^ 53"
  shows "\<exists>this' bid. fst (makers_iter mint req dexes tip w (this, stats)) =
       (this', stats\<lparr>bundleCount := bundleCount stats + 1,
                       latestBundleId := Some bid,
                       makersCompleted := makersCompleted stats + 4,
                       makersRemaining := req - (makersCompleted stats + 4)\<rparr>)
     \<and> funds_four w (snd (makers_iter mint req dexes tip w (this, stats)))"
proof (cases "makers_stale this stats")
  case False
  then have bh: "blockhash this \<noteq> []" by (simp add: makers_stale_def)
  from makers_bundle_ok [OF ok tip bh, of mint dexes] obtain fundTx swapTxs where
    b: "makers_bundle this mint dexes tip w = Inr (fundTx # swapTxs)"
    and f: "createFundTx this (jitoDraw w) (map (generated w) [0..<4]) tip (blockhash this)
         = Inr fundTx"
    and s: "map signedBy swapTxs = map (\<lambda>k. [k]) (map (generated w) [0..<4])"
    by blast
  from makers_try_ok [OF ok tip bh, of stats mint req dexes] obtain bid where
    t: "makers_try this stats mint req dexes tip w =
     Inr (stats\<lparr>bundleCount := bundleCount stats + 1,
                latestBundleId := Some bid,
                makersCompleted := makersCompleted stats + 4,
                makersRemaining := req - (makersCompleted stats + 4)\<rparr>)" ..
  have it: "makers_iter mint req dexes tip w (this, stats) =
       ((this, stats\<lparr>bundleCount := bundleCount stats + 1,
                       latestBundleId := Some bid,
                       makersCompleted := makersCompleted stats + 4,
                       makersRemaining := req - (makersCompleted stats + 4)\<rparr>),
        [SendBundle (fundTx # swapTxs)])"
    using False by (simp add: makers_iter_def Let_def t b submitted_def)
  have "funds_four w [SendBundle (fundTx # swapTxs)]"
    using f s by (rule funds_four_bundle) simp
  then show ?thesis
    unfolding it by (intro exI [of _ this] exI [of _ bid] conjI) simp_all
next
  case True
  from ok obtain bh where bh: "latestBlockhash w = Inr bh" "bh \<noteq> []"
    by (auto simp add: all_succeed_def node_answers_def split: sum.splits)
  let ?amm = "this\<lparr>blockhash := bh, lastBlockhashRefresh := bundleCount stats\<rparr>"
  have ne: "blockhash ?amm \<noteq> []" using bh by simp
  from makers_bundle_ok [OF ok tip ne, of mint dexes] obtain fundTx swapTxs where
    b: "makers_bundle ?amm mint dexes tip w = Inr (fundTx # swapTxs)"
    and f: "createFundTx ?amm (jitoDraw w) (map (generated w) [0..<4]) tip (blockhash ?amm)
         = Inr fundTx"
    and s: "map signedBy swapTxs = map (\<lambda>k. [k]) (map (generated w) [0..<4])"
    by blast
  from makers_try_ok [OF ok tip ne, of stats mint req dexes] obtain bid where
    t: "makers_try ?amm stats mint req dexes tip w =
     Inr (stats\<lparr>bundleCount := bundleCount stats + 1,
                latestBundleId := Some bid,
                makersCompleted := makersCompleted stats + 4,
                makersRemaining := req - (makersCompleted stats + 4)\<rparr>)" ..
  have it: "makers_iter mint req dexes tip w (this, stats) =
       ((?amm, stats\<lparr>bundleCount := bundleCount stats + 1,
                       latestBundleId := Some bid,
                       makersCompleted := makersCompleted stats + 4,
                       makersRemaining := req - (makersCompleted stats + 4)\<rparr>),
        [GetLatestBlockhash, SendBundle (fundTx # swapTxs)])"
    using True bh by (simp add: makers_iter_def Let_def t b submitted_def)
  have "funds_four w [GetLatestBlockhash, SendBundle (fundTx # swapTxs)]"
    using f s by (rule funds_four_bundle) simp
  then show ?thesis
    unfolding it by (intro exI [of _ ?amm] exI [of _ bid] conjI) simp_all
qed

lemma makers_loop_all_succeed:
  assumes tip: "tip < 2 ^ 53"
  shows "nat ((req - makersCompleted stats + 3) div 4) = n \<Longrightarrow>
     (\<And>j. j < n \<Longrightarrow> all_succeed (ws (i + j))) \<Longrightarrow>
     \<exists>this' stats'. makers_loop mint req dexes tip ws i (this, stats) = Some ((this', stats'), i + n)
       \<and> makersCompleted stats' = makersCompleted stats + 4 * int n
       \<and> bundleCount stats' = bundleCount stats + int n
       \<and> (0 < n \<longrightarrow> makersRemaining stats' = req - makersCompleted stats'
                   \<and> latestBundleId stats' \<noteq> None)
       \<and> (n = 0 \<longrightarrow> stats' = stats)
       \<and> solBalance stats' = solBalance stats \<and> finished stats' = finished stats"
proof (induction n arbitrary: i this stats)
  case 0
  then have "\<not> makersCompleted stats < req" by simp
  then have "makers_loop mint req dexes tip ws i (this, stats) = Some ((this, stats), i)"
    by (subst makers_loop.simps) simp
  then show ?case by simp
next
  case (Suc n)
  from Suc.prems(1) have lt: "makersCompleted stats < req" by simp
  have "all_succeed (ws i)" using Suc.prems(2) [of 0] by simp
  from makers_iter_ok [OF this tip, of mint req dexes this stats] obtain this1 bid where
    it: "fst (makers_iter mint req dexes tip (ws i) (this, stats)) =
     (this1, stats\<lparr>bundleCount := bundleCount stats + 1,
                     latestBundleId := Some bid,
                     makersCompleted := makersCompleted stats + 4,
                     makersRemaining := req - (makersCompleted stats + 4)\<rparr>)"
    by blast
  let ?stats1 = "stats\<lparr>bundleCount := bundleCount stats + 1,
                     latestBundleId := Some bid,
                     makersCompleted := makersCompleted stats + 4,
                     makersRemaining := req - (makersCompleted stats + 4)\<rparr>"
  have step: "makers_loop mint req dexes tip ws i (this, stats)
      = makers_loop mint req dexes tip ws (Suc i) (this1, ?stats1)"
    using lt it by (subst makers_loop.simps) simp
  have left: "nat ((req - makersCompleted ?stats1 + 3) div 4) = n"
    using Suc.prems(1) by simp
  have rest: "all_succeed (ws (Suc i + j))" if "j < n" for j
    using Suc.prems(2) [of "Suc j"] that by simp
  from Suc.IH [OF left rest, of this1] obtain this' stats' where
    r: "makers_loop mint req dexes tip ws (Suc i) (this1, ?stats1) = Some ((this', stats'), Suc i + n)"
      "makersCompleted stats' = makersCompleted ?stats1 + 4 * int n"
      "bundleCount stats' = bundleCount ?stats1 + int n"
      "0 < n \<longrightarrow> makersRemaining stats' = req - makersCompleted stats'
                   \<and> latestBundleId stats' \<noteq> None"
      "n = 0 \<longrightarrow> stats' = ?stats1"
      "solBalance stats' = solBalance ?stats1" "finished stats' = finished ?stats1"
    by blast
  show ?case
  proof (intro exI conjI impI)
    show "makers_loop mint req dexes tip ws i (this, stats) = Some ((this', stats'), i + Suc n)"
      using step r(1) by simp
    show "makersCompleted stats' = makersCompleted stats + 4 * int (Suc n)"
      using r(2) by simp
    show "bundleCount stats' = bundleCount stats + int (Suc n)"
      using r(3) by simp
    show "makersRemaining stats' = req - makersCompleted stats'"
      using r(4,5) by (cases "n = 0") simp_all
    show "latestBundleId stats' \<noteq> None"
      using r(4,5) by (cases "n = 0") simp_all
    show "solBalance stats' = solBalance stats" using r(6) by simp
    show "finished stats' = finished stats" using r(7) by simp
    show "stats' = stats" if "Suc n = 0" using that by simp
  qed
qed

lemma all_succeed_mock: "all_succeed mock_env"
  using route_found_mock
  by (simp add: all_succeed_def node_answers_def random_ok_def relay_acks_def has_result_def
      js_truthy_def mock_env_def)

lemma tip_or_default: "tip_or \<lparr>jitoTipLamports = None, includeDexes = None\<rparr> dflt = dflt"
  by (simp add: tip_or_def)

lemma dexes_of_default: "dexes_of \<lparr>jitoTipLamports = None, includeDexes = None\<rparr> = []"
  by (simp add: dexes_of_def)




text \<open>Rounding a positive count up to the next multiple of 4.\<close>

lemma overshoot_arith:
  fixes req :: int
  assumes "0 < req" "\<not> 4 dvd req"
  shows "4 * int (nat ((req + 3) div 4)) = 4 * \<lceil>real_of_int req / 4\<rceil>"
    and "req < 4 * int (nat ((req + 3) div 4))"
    and "0 < nat ((req + 3) div 4)"
proof -
  have c: "\<lceil>real_of_int req / 4\<rceil> = - (- req div 4)"
    using ceiling_divide_eq_div [of req 4] by simp
  have e: "- (- req div 4) = (req + 3) div 4" by presburger
  have pos: "0 < (req + 3) div 4" using assms(1) by presburger
  then have nn: "int (nat ((req + 3) div 4)) = (req + 3) div 4" by simp
  show "4 * int (nat ((req + 3) div 4)) = 4 * \<lceil>real_of_int req / 4\<rceil>"
    using c e nn by simp
  have "req < 4 * ((req + 3) div 4)"
    using assms by presburger
  then show "req < 4 * int (nat ((req + 3) div 4))"
    using nn by simp
  show "0 < nat ((req + 3) div 4)"
    using pos by simp
qed

text \<open>
  C9. For a positive \<^verbatim>\<open>totalMakersRequired\<close> that is not a multiple of 4, with every
  submission successful, \<^verbatim>\<open>makers\<close> returns \<^verbatim>\<open>makersCompleted = 4 * ceil(totalMakersRequired / 4)\<close>,
  which is more than was asked for, and a negative \<^verbatim>\<open>makersRemaining\<close>.
\<close>

theorem makers_overshoots:
  assumes "0 < req" and "\<not> 4 dvd req"
    and "tip_or options 100000 < 2 ^ 53"
    and "\<forall>i. all_succeed (ws i)"
  shows "\<exists>this' stats' n.
     makers this mint req options ws = Some ((this', stats'), n)
     \<and> makersCompleted stats' = 4 * \<lceil>real_of_int req / 4\<rceil>
     \<and> req < makersCompleted stats'
     \<and> makersRemaining stats' = req - makersCompleted stats'
     \<and> makersRemaining stats' < 0
     \<and> finished stats'"
proof -
  let ?stats = "\<lparr>makersCompleted = 0, makersRemaining = req, bundleCount = 0,
                 latestBundleId = None, solBalance = None, finished = False\<rparr>"
  let ?n = "nat ((req + 3) div 4)"
  have n: "nat ((req - makersCompleted ?stats + 3) div 4) = ?n" by simp
  have ok: "all_succeed (ws (0 + j))" if "j < ?n" for j
    using assms(4) by simp
  from makers_loop_all_succeed [where ws = ws and i = 0 and req = req and stats = ?stats
      and n = ?n and tip = "tip_or options 100000" and mint = mint
      and dexes = "dexes_of options" and this = this, OF assms(3) n ok]
    overshoot_arith(3) [OF assms(1,2)]
  obtain this' stats' where
    r: "makers_loop mint req (dexes_of options) (tip_or options 100000) ws 0 (this, ?stats)
         = Some ((this', stats'), 0 + ?n)"
      "makersCompleted stats' = makersCompleted ?stats + 4 * int ?n"
      "makersRemaining stats' = req - makersCompleted stats'"
    by auto
  have c: "makersCompleted stats' = 4 * \<lceil>real_of_int req / 4\<rceil>"
    using r(2) overshoot_arith(1) [OF assms(1,2)] by simp
  have g: "req < makersCompleted stats'"
    using r(2) overshoot_arith(2) [OF assms(1,2)] by simp
  have "makers this mint req options ws = Some ((this', stats'\<lparr>finished := True\<rparr>), ?n)"
    using r(1) by (simp add: makers_def Let_def)
  moreover have "makersCompleted (stats'\<lparr>finished := True\<rparr>) = 4 * \<lceil>real_of_int req / 4\<rceil>"
    using c by simp
  moreover have "req < makersCompleted (stats'\<lparr>finished := True\<rparr>)" using g by simp
  moreover have "makersRemaining (stats'\<lparr>finished := True\<rparr>)
      = req - makersCompleted (stats'\<lparr>finished := True\<rparr>)"
    using r(3) by simp
  moreover have "makersRemaining (stats'\<lparr>finished := True\<rparr>) < 0" using r(3) g by simp
  moreover have "finished (stats'\<lparr>finished := True\<rparr>)" by simp
  ultimately show ?thesis by blast
qed

text \<open>\<^verbatim>\<open>makers(mint, 6, {})\<close> returns 8 completed and -2 remaining.\<close>

theorem makers_overshoots_witness:
  "(0::int) < 6 \<and> \<not> 4 dvd (6::int)
   \<and> tip_or \<lparr>jitoTipLamports = None, includeDexes = None\<rparr> 100000 < 2 ^ 53
   \<and> (\<forall>i::nat. all_succeed mock_env)
   \<and> (\<exists>this' stats' n.
        makers (new_AMM ''payer'' None) ''mint'' 6
          \<lparr>jitoTipLamports = None, includeDexes = None\<rparr> (\<lambda>i. mock_env)
          = Some ((this', stats'), n)
        \<and> makersCompleted stats' = 8 \<and> makersRemaining stats' = - 2 \<and> finished stats')"
proof -
  have h: "(0::int) < 6" "\<not> 4 dvd (6::int)"
    "tip_or \<lparr>jitoTipLamports = None, includeDexes = None\<rparr> 100000 < 2 ^ 53"
    "\<forall>i::nat. all_succeed ((\<lambda>i. mock_env) i)"
    by (simp_all add: tip_or_default all_succeed_mock)
  have c: "4 * \<lceil>real_of_int 6 / 4\<rceil> = 8"
    by simp
  from makers_overshoots [OF h, of "new_AMM ''payer'' None" "''mint''"] obtain this' stats' n where
    "makers (new_AMM ''payer'' None) ''mint'' 6
          \<lparr>jitoTipLamports = None, includeDexes = None\<rparr> (\<lambda>i. mock_env)
          = Some ((this', stats'), n)"
    "makersCompleted stats' = 4 * \<lceil>real_of_int 6 / 4\<rceil>"
    "makersRemaining stats' = 6 - makersCompleted stats'" "finished stats'"
    by blast
  then have "makers (new_AMM ''payer'' None) ''mint'' 6
          \<lparr>jitoTipLamports = None, includeDexes = None\<rparr> (\<lambda>i. mock_env)
          = Some ((this', stats'), n)
        \<and> makersCompleted stats' = 8 \<and> makersRemaining stats' = - 2 \<and> finished stats'"
    using c by simp
  then show ?thesis using h by blast
qed

section \<open>Staleness of the cached blockhash\<close>

lemma submitted_no_refresh: "GetLatestBlockhash \<notin> set (submitted b)"
  by (simp add: submitted_def split: sum.splits)

lemma volume_trade_effects:
  "GetLatestBlockhash \<notin> set (snd (volume_trade mint lo hi m speed dexes tip w this vars))"
  by (simp add: volume_trade_def Let_def submitted_no_refresh split: sum.splits)

lemma makers_iter_refresh:
  "(GetLatestBlockhash \<in> set (snd (makers_iter mint req dexes tip w (this, stats))))
     = makers_stale this stats"
  by (simp add: makers_iter_def Let_def submitted_no_refresh split: sum.splits)

lemma volume_iter_refresh:
  "(GetLatestBlockhash \<in> set (snd (volume_iter mint lo hi m speed dexes tip w (this, vars))))
     = volume_stale this w"
  using volume_trade_effects [of mint lo hi m speed dexes tip w this vars]
  by (simp add: volume_iter_def Let_def split_beta split: sum.splits)

lemma makers_bundle_clock:
  "makers_bundle this mint dexes tip (w\<lparr>clock := t, clockAfter := t'\<rparr>)
     = makers_bundle this mint dexes tip w"
  by (simp add: makers_bundle_def Let_def cong: sum.case_cong)

lemma makers_bundle_reply:
  "makers_bundle this mint dexes tip (w\<lparr>bundleReply := b\<rparr>)
     = makers_bundle this mint dexes tip w"
  by (simp add: makers_bundle_def Let_def cong: sum.case_cong)

lemma makers_try_clock:
  "makers_try this stats mint req dexes tip (w\<lparr>clock := t, clockAfter := t'\<rparr>)
     = makers_try this stats mint req dexes tip w"
  by (simp add: makers_try_def makers_bundle_clock Let_def cong: sum.case_cong)

lemma makers_iter_clock:
  "makers_iter mint req dexes tip (w\<lparr>clock := t, clockAfter := t'\<rparr>) s
     = makers_iter mint req dexes tip w s"
  by (cases s)
    (simp add: makers_iter_def makers_try_clock makers_bundle_clock Let_def cong: sum.case_cong)

lemma makers_iter_cache:
  "fst (fst (makers_iter mint req dexes tip w (this, stats))) =
     (if makers_stale this stats then
        (case latestBlockhash w of
           Inl e \<Rightarrow> this
         | Inr bh \<Rightarrow> this\<lparr>blockhash := bh, lastBlockhashRefresh := bundleCount stats\<rparr>)
      else this)"
  by (simp add: makers_iter_def Let_def split: sum.splits)

lemma volume_iter_cache:
  "fst (fst (volume_iter mint lo hi m speed dexes tip w (this, vars))) =
     (if volume_stale this w then
        (case latestBlockhash w of
           Inl e \<Rightarrow> this
         | Inr bh \<Rightarrow> this\<lparr>blockhash := bh, lastBlockhashRefresh := clockAfter w\<rparr>)
      else this)"
  by (simp add: volume_iter_def Let_def split: sum.splits prod.splits)

text \<open>The bundle count of the maker loop counts the bundles the relay has acknowledged.\<close>

lemma makers_try_count:
  assumes "makers_try this stats mint req dexes tip w = Inr stats'"
  shows "stats' = stats \<or> relay_acks w \<and> bundleCount stats' = bundleCount stats + 1"
proof (cases "makers_bundle this mint dexes tip w")
  case (Inl e)
  with assms show ?thesis by (simp add: makers_try_def Let_def)
next
  case b: (Inr bundled)
  show ?thesis
  proof (cases "getRandomJitoUrl (urlDraw w)")
    case None
    with assms b show ?thesis by (simp add: makers_try_def Let_def sendBundle_def)
  next
    case u: (Some url)
    show ?thesis
    proof (cases "bundleReply w")
      case (Inl e)
      with assms b u show ?thesis by (simp add: makers_try_def Let_def sendBundle_def)
    next
      case r: (Inr reply)
      show ?thesis
      proof (cases "has_result reply")
        case True
        then have "relay_acks w" using r by (simp add: relay_acks_def)
        moreover have "bundleCount stats' = bundleCount stats + 1"
          using assms b u r True by (auto simp add: makers_try_def Let_def sendBundle_def)
        ultimately show ?thesis by simp
      next
        case False
        with assms b u r show ?thesis by (simp add: makers_try_def Let_def sendBundle_def)
      qed
    qed
  qed
qed

lemma makers_iter_count:
  "bundleCount (snd (fst (makers_iter mint req dexes tip w (this, stats)))) = bundleCount stats
   \<or> relay_acks w
     \<and> bundleCount (snd (fst (makers_iter mint req dexes tip w (this, stats))))
       = bundleCount stats + 1"
proof -
  have t: "bundleCount (snd (fst (case makers_try this' stats mint req dexes tip w of
              Inl e \<Rightarrow> ((this', stats), effs)
            | Inr stats' \<Rightarrow> ((this', stats'), effs')))) = bundleCount stats
          \<or> relay_acks w
            \<and> bundleCount (snd (fst (case makers_try this' stats mint req dexes tip w of
              Inl e \<Rightarrow> ((this', stats), effs)
            | Inr stats' \<Rightarrow> ((this', stats'), effs')))) = bundleCount stats + 1"
    for this' :: amm and effs effs' :: "effect list"
  proof (cases "makers_try this' stats mint req dexes tip w")
    case (Inl e)
    then show ?thesis by simp
  next
    case (Inr stats')
    from makers_try_count [OF Inr] show ?thesis unfolding Inr by auto
  qed
  show ?thesis
  proof (cases "makers_stale this stats")
    case False
    then show ?thesis
      using t [of this] by (simp add: makers_iter_def Let_def)
  next
    case True
    show ?thesis
    proof (cases "latestBlockhash w")
      case (Inl e)
      with True show ?thesis by (simp add: makers_iter_def)
    next
      case (Inr bh)
      with True show ?thesis
        using t [of "this\<lparr>blockhash := bh, lastBlockhashRefresh := bundleCount stats\<rparr>"]
        by (simp add: makers_iter_def Let_def)
    qed
  qed
qed

text \<open>
  C6. The two loops test two different conditions on the one field
  \<^verbatim>\<open>lastBlockhashRefresh\<close>. An iteration of the maker loop asks the node for a blockhash
  exactly when none is cached or \<^verbatim>\<open>stats.bundleCount\<close> is at least 10 above the value
  of the field; the clock has no influence on the iteration, and a refresh stores the
  bundle count in the field. The bundle count is the number of bundles the relay has
  acknowledged in this call: an iteration leaves it as it is, or adds 1 when the relay
  acknowledges; it adds 1 when everything succeeds. An
  iteration of the volume loop asks exactly when none is cached or the clock is at least
  60000 ms past the value of the field, whatever the counters of the loop are, and a
  refresh stores the clock. Without a refresh the cache is left as it is.
\<close>

theorem staleness_policies:
  "(GetLatestBlockhash \<in> set (snd (makers_iter mint req dexes tip w (this, stats)))
      \<longleftrightarrow> blockhash this = [] \<or> 10 \<le> bundleCount stats - lastBlockhashRefresh this)
   \<and> makers_iter mint req dexes tip (w\<lparr>clock := t, clockAfter := t'\<rparr>) (this, stats)
       = makers_iter mint req dexes tip w (this, stats)
   \<and> ((blockhash this = [] \<or> 10 \<le> bundleCount stats - lastBlockhashRefresh this)
        \<and> latestBlockhash w = Inr bh \<longrightarrow>
        fst (fst (makers_iter mint req dexes tip w (this, stats)))
          = this\<lparr>blockhash := bh, lastBlockhashRefresh := bundleCount stats\<rparr>)
   \<and> (\<not> (blockhash this = [] \<or> 10 \<le> bundleCount stats - lastBlockhashRefresh this) \<longrightarrow>
        fst (fst (makers_iter mint req dexes tip w (this, stats))) = this)
   \<and> (bundleCount (snd (fst (makers_iter mint req dexes tip w (this, stats))))
         = bundleCount stats
        \<or> relay_acks w
          \<and> bundleCount (snd (fst (makers_iter mint req dexes tip w (this, stats))))
            = bundleCount stats + 1)
   \<and> (all_succeed w \<and> tip < 2 ^ 53 \<longrightarrow>
        bundleCount (snd (fst (makers_iter mint req dexes tip w (this, stats))))
          = bundleCount stats + 1)
   \<and> (GetLatestBlockhash \<in> set (snd (volume_iter mint lo hi m speed dexes tip w (this, vars)))
      \<longleftrightarrow> blockhash this = [] \<or> 60000 \<le> clock w - lastBlockhashRefresh this)
   \<and> ((blockhash this = [] \<or> 60000 \<le> clock w - lastBlockhashRefresh this)
        \<and> latestBlockhash w = Inr bh \<longrightarrow>
        fst (fst (volume_iter mint lo hi m speed dexes tip w (this, vars)))
          = this\<lparr>blockhash := bh, lastBlockhashRefresh := clockAfter w\<rparr>)
   \<and> (\<not> (blockhash this = [] \<or> 60000 \<le> clock w - lastBlockhashRefresh this) \<longrightarrow>
        fst (fst (volume_iter mint lo hi m speed dexes tip w (this, vars))) = this)"
proof (intro conjI impI)
  show "(GetLatestBlockhash \<in> set (snd (makers_iter mint req dexes tip w (this, stats))))
      = (blockhash this = [] \<or> 10 \<le> bundleCount stats - lastBlockhashRefresh this)"
    by (simp only: makers_iter_refresh makers_stale_def)
  show "makers_iter mint req dexes tip (w\<lparr>clock := t, clockAfter := t'\<rparr>) (this, stats)
       = makers_iter mint req dexes tip w (this, stats)"
    by (rule makers_iter_clock)
  show "(GetLatestBlockhash \<in> set (snd (volume_iter mint lo hi m speed dexes tip w (this, vars))))
      = (blockhash this = [] \<or> 60000 \<le> clock w - lastBlockhashRefresh this)"
    by (simp only: volume_iter_refresh volume_stale_def)
next
  assume "(blockhash this = [] \<or> 10 \<le> bundleCount stats - lastBlockhashRefresh this)
        \<and> latestBlockhash w = Inr bh"
  then show "fst (fst (makers_iter mint req dexes tip w (this, stats)))
          = this\<lparr>blockhash := bh, lastBlockhashRefresh := bundleCount stats\<rparr>"
    by (simp add: makers_iter_cache makers_stale_def)
next
  assume "\<not> (blockhash this = [] \<or> 10 \<le> bundleCount stats - lastBlockhashRefresh this)"
  then show "fst (fst (makers_iter mint req dexes tip w (this, stats))) = this"
    by (simp add: makers_iter_cache makers_stale_def)
next
  show "bundleCount (snd (fst (makers_iter mint req dexes tip w (this, stats))))
         = bundleCount stats
        \<or> relay_acks w
          \<and> bundleCount (snd (fst (makers_iter mint req dexes tip w (this, stats))))
            = bundleCount stats + 1"
    by (rule makers_iter_count)
next
  assume "all_succeed w \<and> tip < 2 ^ 53"
  then have "all_succeed w" and "tip < 2 ^ 53" by simp_all
  from makers_iter_ok [OF this, of mint req dexes this stats]
  show "bundleCount (snd (fst (makers_iter mint req dexes tip w (this, stats))))
          = bundleCount stats + 1"
    by auto
next
  assume "(blockhash this = [] \<or> 60000 \<le> clock w - lastBlockhashRefresh this)
        \<and> latestBlockhash w = Inr bh"
  then show "fst (fst (volume_iter mint lo hi m speed dexes tip w (this, vars)))
          = this\<lparr>blockhash := bh, lastBlockhashRefresh := clockAfter w\<rparr>"
    by (simp add: volume_iter_cache volume_stale_def)
next
  assume "\<not> (blockhash this = [] \<or> 60000 \<le> clock w - lastBlockhashRefresh this)"
  then show "fst (fst (volume_iter mint lo hi m speed dexes tip w (this, vars))) = this"
    by (simp add: volume_iter_cache volume_stale_def)
qed

text \<open>
  A cached blockhash recorded at 0: at bundle count 10 the maker loop refreshes, at 9 it
  does not; at clock 60000 the volume loop refreshes, at 59999 it does not.
\<close>

theorem staleness_policies_witness:
  "(let this = new_AMM ''payer'' None\<lparr>blockhash := ''old''\<rparr>;
        stale = \<lparr>makersCompleted = 40, makersRemaining = 40, bundleCount = 10,
                 latestBundleId = None, solBalance = None, finished = False\<rparr>;
        fresh = \<lparr>makersCompleted = 36, makersRemaining = 44, bundleCount = 9,
                 latestBundleId = None, solBalance = None, finished = False\<rparr>;
        vars = \<lparr>totalNetVolume = 0, totalRealVolume = 0, tradesUntilNextSell = 1,
                tradeCount = 0\<rparr>;
        late = mock_env\<lparr>clock := 60000, clockAfter := 60005\<rparr>;
        early = mock_env\<lparr>clock := 59999, clockAfter := 60005\<rparr>
    in blockhash this \<noteq> [] \<and> lastBlockhashRefresh this = 0
     \<and> latestBlockhash mock_env = Inr ''hash''
     \<and> GetLatestBlockhash \<in> set (snd (makers_iter ''mint'' 80 [] 100000 late (this, stale)))
     \<and> fst (fst (makers_iter ''mint'' 80 [] 100000 late (this, stale)))
         = this\<lparr>blockhash := ''hash'', lastBlockhashRefresh := 10\<rparr>
     \<and> all_succeed late \<and> relay_acks late \<and> (100000::nat) < 2 ^ 53
     \<and> bundleCount (snd (fst (makers_iter ''mint'' 80 [] 100000 late (this, stale)))) = 11
     \<and> GetLatestBlockhash \<notin> set (snd (makers_iter ''mint'' 80 [] 100000 late (this, fresh)))
     \<and> fst (fst (makers_iter ''mint'' 80 [] 100000 late (this, fresh))) = this
     \<and> GetLatestBlockhash \<in> set (snd (volume_iter ''mint'' 1 1 1 1 [] 100000 late (this, vars)))
     \<and> fst (fst (volume_iter ''mint'' 1 1 1 1 [] 100000 late (this, vars)))
         = this\<lparr>blockhash := ''hash'', lastBlockhashRefresh := 60005\<rparr>
     \<and> GetLatestBlockhash \<notin> set (snd (volume_iter ''mint'' 1 1 1 1 [] 100000 early (this, vars)))
     \<and> fst (fst (volume_iter ''mint'' 1 1 1 1 [] 100000 early (this, vars))) = this)"
proof -
  let ?amm = "new_AMM ''payer'' None\<lparr>blockhash := ''old''\<rparr>"
  let ?stale = "\<lparr>makersCompleted = 40, makersRemaining = 40, bundleCount = 10,
                 latestBundleId = None, solBalance = None, finished = False\<rparr>"
  let ?fresh = "\<lparr>makersCompleted = 36, makersRemaining = 44, bundleCount = 9,
                 latestBundleId = None, solBalance = None, finished = False\<rparr>"
  let ?vars = "\<lparr>totalNetVolume = 0, totalRealVolume = 0, tradesUntilNextSell = 1,
                tradeCount = 0\<rparr>"
  let ?late = "mock_env\<lparr>clock := 60000, clockAfter := 60005\<rparr>"
  let ?early = "mock_env\<lparr>clock := 59999, clockAfter := 60005\<rparr>"
  have pre: "blockhash ?amm \<noteq> []" "lastBlockhashRefresh ?amm = 0"
    "latestBlockhash mock_env = Inr ''hash''" "latestBlockhash ?late = Inr ''hash''"
    "latestBlockhash ?early = Inr ''hash''"
    "clock ?late = 60000" "clock ?early = 59999" "clockAfter ?late = 60005"
    "bundleCount ?stale = 10" "bundleCount ?fresh = 9" "(100000::nat) < 2 ^ 53"
    by (simp_all add: new_AMM_def mock_env_def)
  have ok: "all_succeed ?late" "relay_acks ?late"
    using all_succeed_mock
    by (simp_all add: all_succeed_def node_answers_def random_ok_def relay_acks_def)
  from staleness_policies [where this = ?amm and stats = ?stale and w = ?late and vars = ?vars
      and bh = "''hash''" and mint = "''mint''" and req = 80 and dexes = "[]" and tip = 100000
      and lo = 1 and hi = 1 and m = 1 and speed = 1 and t = 0 and t' = 0]
    staleness_policies [where this = ?amm and stats = ?fresh and w = ?early and vars = ?vars
      and bh = "''hash''" and mint = "''mint''" and req = 80 and dexes = "[]" and tip = 100000
      and lo = 1 and hi = 1 and m = 1 and speed = 1 and t = 60000 and t' = 60005]
  show ?thesis
    unfolding Let_def using pre ok by simp
qed

text \<open>
  C6, as claimed, fails: the value of the field is not always the bundle count, or the
  time, of the last refresh, and the bundles counted are not the bundles submitted. The
  object is the one the constructor leaves once its blockhash has arrived, the field at 0.
  \<^item> With a relay that answers \<^verbatim>\<open>{error: "rate limited"}\<close>, an iteration of the maker
    loop submits its bundle, asks for no blockhash and leaves the object and the statistics
    as they were: so does the next, and the ten after it. Any number of bundles is
    submitted and the blockhash is never refreshed.
  \<^item> The first iteration of the volume loop, at the clock 1700000000000, asks for a
    blockhash, although one is cached, however short the time since it was fetched.
  \<^item> The field then holds 1700000000000, and an iteration of the maker loop on the same
    object at the bundle count 10 asks for no blockhash: its condition is on a time.
\<close>

theorem staleness_counterexample:
  "(let this = new_AMM ''payer'' None\<lparr>blockhash := ''hash''\<rparr>;
        stats = \<lparr>makersCompleted = 0, makersRemaining = 80, bundleCount = 0,
                 latestBundleId = None, solBalance = None, finished = False\<rparr>;
        ten = \<lparr>makersCompleted = 40, makersRemaining = 40, bundleCount = 10,
               latestBundleId = None, solBalance = None, finished = False\<rparr>;
        vars = \<lparr>totalNetVolume = 0, totalRealVolume = 0, tradesUntilNextSell = 1,
                tradeCount = 0\<rparr>;
        unacknowledged = mock_env\<lparr>bundleReply := Inr (JObj [(''error'', JStr ''rate limited'')])\<rparr>;
        today = mock_env\<lparr>clock := 1700000000000, clockAfter := 1700000000000\<rparr>;
        stored = fst (fst (volume_iter ''mint'' 1 1 1 1 [] 1000000 today (this, vars)))
    in initializeBlockhash (new_AMM ''payer'' None) (Inr ''hash'') = Inr this
     \<and> fst (makers_iter ''mint'' 80 [] 100000 unacknowledged (this, stats)) = (this, stats)
     \<and> length (bundles_sent (snd (makers_iter ''mint'' 80 [] 100000 unacknowledged (this, stats))))
         = 1
     \<and> GetLatestBlockhash
         \<notin> set (snd (makers_iter ''mint'' 80 [] 100000 unacknowledged (this, stats)))
     \<and> ((\<lambda>s. fst (makers_iter ''mint'' 80 [] 100000 unacknowledged s)) ^^ 12) (this, stats)
         = (this, stats)
     \<and> blockhash this \<noteq> []
     \<and> GetLatestBlockhash
         \<in> set (snd (volume_iter ''mint'' 1 1 1 1 [] 1000000 today (this, vars)))
     \<and> lastBlockhashRefresh stored = 1700000000000
     \<and> GetLatestBlockhash \<notin> set (snd (makers_iter ''mint'' 80 [] 100000 mock_env (stored, ten))))"
proof -
  let ?amm = "new_AMM ''payer'' None\<lparr>blockhash := ''hash''\<rparr>"
  let ?stats = "\<lparr>makersCompleted = 0, makersRemaining = 80, bundleCount = 0,
                 latestBundleId = None, solBalance = None, finished = False\<rparr>"
  let ?ten = "\<lparr>makersCompleted = 40, makersRemaining = 40, bundleCount = 10,
               latestBundleId = None, solBalance = None, finished = False\<rparr>"
  let ?vars = "\<lparr>totalNetVolume = 0, totalRealVolume = 0, tradesUntilNextSell = 1,
                tradeCount = 0\<rparr>"
  let ?nack = "mock_env\<lparr>bundleReply := Inr (JObj [(''error'', JStr ''rate limited'')])\<rparr>"
  let ?today = "mock_env\<lparr>clock := 1700000000000, clockAfter := 1700000000000\<rparr>"
  have init: "initializeBlockhash (new_AMM ''payer'' None) (Inr ''hash'') = Inr ?amm"
    by (simp add: initializeBlockhash_def new_AMM_def)
  have fresh: "\<not> makers_stale ?amm ?stats"
    by (simp add: makers_stale_def new_AMM_def)
  have url: "random_ok (urlDraw mock_env)"
    by (simp add: mock_env_def random_ok_def)
  have bh: "blockhash ?amm \<noteq> []" by simp
  have tip: "(100000::nat) < 2 ^ 53" by simp
  have same: "makers_bundle ?amm ''mint'' [] 100000 ?nack
      = makers_bundle ?amm ''mint'' [] 100000 mock_env"
    by (rule makers_bundle_reply)
  from makers_bundle_ok [OF all_succeed_mock tip bh, of "''mint''" "[]"] obtain fundTx swapTxs where
    b: "makers_bundle ?amm ''mint'' [] 100000 ?nack = Inr (fundTx # swapTxs)"
    unfolding same by blast
  from getRandomJitoUrl_ok [OF url] obtain u where
    u: "getRandomJitoUrl (urlDraw mock_env) = Some u" ..
  have t: "makers_try ?amm ?stats ''mint'' 80 [] 100000 ?nack = Inr ?stats"
    unfolding makers_try_def Let_def b
    by (simp add: u sendBundle_def has_result_def js_truthy_def)
  have it: "makers_iter ''mint'' 80 [] 100000 ?nack (?amm, ?stats)
      = ((?amm, ?stats), [SendBundle (fundTx # swapTxs)])"
    using fresh by (simp add: makers_iter_def Let_def t b submitted_def)
  have stays: "(f ^^ n) x = x" if "f x = x" for f :: "amm \<times> MakerStats \<Rightarrow> amm \<times> MakerStats"
    and n x
    using that by (induction n) simp_all
  have twelve: "((\<lambda>s. fst (makers_iter ''mint'' 80 [] 100000 ?nack s)) ^^ 12) (?amm, ?stats)
      = (?amm, ?stats)"
    by (rule stays) (simp add: it)
  have stale: "volume_stale ?amm ?today"
    by (simp add: volume_stale_def new_AMM_def)
  have vr: "GetLatestBlockhash
      \<in> set (snd (volume_iter ''mint'' 1 1 1 1 [] 1000000 ?today (?amm, ?vars)))"
    using stale by (simp only: volume_iter_refresh)
  have lb: "latestBlockhash ?today = Inr ''hash''" by (simp add: mock_env_def)
  have stored: "fst (fst (volume_iter ''mint'' 1 1 1 1 [] 1000000 ?today (?amm, ?vars)))
      = ?amm\<lparr>blockhash := ''hash'', lastBlockhashRefresh := 1700000000000\<rparr>"
    using stale lb by (simp add: volume_iter_cache)
  have "\<not> makers_stale (?amm\<lparr>blockhash := ''hash'', lastBlockhashRefresh := 1700000000000\<rparr>) ?ten"
    by (simp add: makers_stale_def)
  then have mr: "GetLatestBlockhash \<notin> set (snd (makers_iter ''mint'' 80 [] 100000 mock_env
      (fst (fst (volume_iter ''mint'' 1 1 1 1 [] 1000000 ?today (?amm, ?vars))), ?ten)))"
    unfolding stored by (simp add: makers_iter_refresh)
  show ?thesis
    unfolding Let_def using init it twelve bh vr stored mr by simp
qed

section \<open>The net volume of the volume loop\<close>

text \<open>With \<open>mCapFactor\<close> at least 1 the sell fraction is at most 1, also after rounding.\<close>

lemma maxSellPercentage_bounds:
  assumes "1 \<le> m"
  shows "0 \<le> maxSellPercentage m" and "maxSellPercentage m \<le> 1"
proof -
  have "0 \<le> 1 / m" and "1 / m \<le> 1" using assms by simp_all
  then show "0 \<le> maxSellPercentage m" and "maxSellPercentage m \<le> 1"
    unfolding maxSellPercentage_def num_div_def
    by (simp_all add: fl_nonneg fl_le_double)
qed

lemma sellPercentage_bounds:
  assumes "1 \<le> m" "random_ok r"
  shows "1 / 2 \<le> sellPercentage m r" and "sellPercentage m r \<le> 1"
proof -
  from assms(2) have r: "0 \<le> r" "r < 1" by (simp_all add: random_ok_def)
  note b = maxSellPercentage_bounds [OF assms(1)]
  define h where "h = fl (r * (1 / 2))"
  have h0: "0 \<le> h" unfolding h_def using r(1) by (intro fl_nonneg) simp
  have h1: "h \<le> 1 / 2"
    unfolding h_def using r(2) by (intro fl_le_double is_double_half) simp
  define g where "g = fl (h * maxSellPercentage m)"
  have g0: "0 \<le> g" unfolding g_def using h0 b(1) by (intro fl_nonneg) simp
  have "h * maxSellPercentage m \<le> h * 1"
    using h0 b(2) by (intro mult_left_mono)
  then have g1: "g \<le> 1 / 2"
    unfolding g_def using h1 by (intro fl_le_double is_double_half) simp
  have e: "sellPercentage m r = fl (1 / 2 + g)"
    by (simp add: sellPercentage_def num_add_def num_mul_def g_def h_def)
  show "1 / 2 \<le> sellPercentage m r"
    unfolding e using g0 by (intro fl_ge_double is_double_half) simp
  show "sellPercentage m r \<le> 1"
    unfolding e using g1 by (intro fl_le_double is_double_1) simp
qed

text \<open>
  A sell takes at most the net volume, in smallest units: the amount is at most the net
  volume scaled by 1e9 and rounded.
\<close>

lemma sellAmount_bounds:
  assumes "1 \<le> m" "random_ok r" "0 \<le> v" "is_double v"
  shows "0 \<le> sellAmount m v r" and "sellAmount m v r \<le> \<lfloor>fl (v * 1000000000)\<rfloor>"
proof -
  note b = sellPercentage_bounds [OF assms(1,2)]
  have s0: "0 \<le> sellSol m v r"
    unfolding sellSol_def num_mul_def using assms(3) b(1) by (intro fl_nonneg) simp
  have "v * sellPercentage m r \<le> v * 1"
    using assms(3) b(2) by (intro mult_left_mono)
  then have s1: "sellSol m v r \<le> v"
    unfolding sellSol_def num_mul_def using assms(4) by (intro fl_le_double) simp_all
  have "0 \<le> fl (sellSol m v r * 1000000000)"
    using s0 by (intro fl_nonneg) simp
  then show "0 \<le> sellAmount m v r"
    by (simp add: sellAmount_def num_mul_def)
  have "fl (sellSol m v r * 1000000000) \<le> fl (v * 1000000000)"
    using s1 by (intro fl_mono) simp
  then show "sellAmount m v r \<le> \<lfloor>fl (v * 1000000000)\<rfloor>"
    unfolding sellAmount_def num_mul_def by (rule floor_mono)
qed

lemma buyAmount_nonneg:
  assumes "0 \<le> lo" "lo \<le> hi" "random_ok r"
  shows "0 \<le> buyAmount lo hi r"
proof -
  from assms(3) have r: "0 \<le> r" by (simp add: random_ok_def)
  have a: "0 \<le> fl (hi - lo)" using assms(2) by (intro fl_nonneg) simp
  have b: "0 \<le> fl (r * fl (hi - lo))" using r a by (intro fl_nonneg) simp
  have c: "0 \<le> fl (fl (r * fl (hi - lo)) + lo)" using b assms(1) by (intro fl_nonneg) simp
  have "0 \<le> fl (fl (fl (r * fl (hi - lo)) + lo) * 1000000000)"
    using c by (intro fl_nonneg) simp
  then show ?thesis
    by (simp add: buyAmount_def num_mul_def num_add_def num_sub_def)
qed

text \<open>Three roundings move a number by less than four parts in \<open>2^53\<close>.\<close>

lemma rounding_margin:
  fixes N u :: real
  assumes "0 < N" "0 \<le> u" "u \<le> 1 / 2"
  shows "N * (2 * u + u * u) * (1 + u) \<le> N * (4 * u)"
proof -
  have uu: "u * u \<le> u * (1 / 2)"
    using assms(2,3) by (intro mult_left_mono)
  have "0 \<le> u * u" using assms(2) by simp
  then have "u * u * u \<le> u * u * (1 / 2)"
    using assms(3) by (intro mult_left_mono)
  then have uuu: "u * u * u \<le> u * (1 / 4)" using uu by simp
  have "(2 * u + u * u) * (1 + u) = 2 * u + 3 * (u * u) + u * u * u"
    by (simp add: algebra_simps)
  also have "\<dots> \<le> 4 * u" using uu uuu assms(2) by simp
  finally have "(2 * u + u * u) * (1 + u) \<le> 4 * u" .
  then have "N * ((2 * u + u * u) * (1 + u)) \<le> N * (4 * u)"
    using assms(1) by (intro mult_left_mono) simp_all
  then show ?thesis by (simp add: mult.assoc)
qed

text \<open>
  The counter after a sell. The amount sold is at most the net volume \<open>N\<close> in smallest
  units; converted back to SOL and subtracted, it leaves at least \<open>- N / 2^51\<close>: what the
  three roundings of the conversion can add.
\<close>

lemma sell_back:
  assumes d: "is_double N" and pos: "0 < N" and a0: "0 \<le> a"
    and a1: "a \<le> \<lfloor>fl (N * 1000000000)\<rfloor>"
  shows "- N / 2 ^ 51 \<le> fl (N - fl (real_of_int a / 1000000000))"
proof (cases "a = 0")
  case True
  have "fl N = N" using d by (simp add: is_double_def)
  moreover have "- N / 2 ^ 51 \<le> 0" using pos by simp
  ultimately show ?thesis using True pos by simp
next
  case False
  define u :: real where "u = 1 / 2 ^ 53"
  have u: "0 < u" "u \<le> 1 / 2" "4 * u = 1 / 2 ^ 51" by (simp_all add: u_def)
  define x where "x = N * 1000000000"
  define q where "q = real_of_int a / 1000000000"
  from False a0 have a: "1 \<le> a" by simp
  have "real_of_int a \<le> fl x" using a1 unfolding x_def by (simp add: le_floor_iff)
  moreover have "real_of_int 1 \<le> real_of_int a" using a by (simp only: of_int_le_iff)
  ultimately have fx1: "1 \<le> fl x" and afx: "real_of_int a \<le> fl x" by simp_all
  have xh: "1 / 2 \<le> x"
  proof (rule ccontr)
    assume "\<not> 1 / 2 \<le> x"
    then have "x \<le> 1 / 2" by simp
    then have "fl x \<le> 1 / 2" by (rule fl_le_double) (rule is_double_half)
    with fx1 show False by simp
  qed
  have small: "(1::real) / 2 ^ 100 \<le> 1 / 2" by simp
  have nx: "2 powr (- 1022) \<le> x" using normal_small small xh by linarith
  have "\<bar>fl x - x\<bar> \<le> x * u" using fl_error [OF nx] by (simp add: u_def)
  then have fx: "fl x \<le> x * (1 + u)" by (simp add: algebra_simps abs_le_iff)
  have "q \<le> fl x / 1000000000"
    unfolding q_def using afx by (simp add: divide_right_mono)
  also have "\<dots> \<le> x * (1 + u) / 1000000000"
    using fx by (simp add: divide_right_mono)
  also have "\<dots> = N * (1 + u)" by (simp add: x_def)
  finally have qN: "q \<le> N * (1 + u)" .
  have q1: "1 / 1000000000 \<le> q"
    unfolding q_def using \<open>real_of_int 1 \<le> real_of_int a\<close> by (simp add: divide_right_mono)
  have small': "(1::real) / 2 ^ 100 \<le> 1 / 1000000000" by simp
  have nq: "2 powr (- 1022) \<le> q" using normal_small small' q1 by linarith
  have "\<bar>fl q - q\<bar> \<le> q * u" using fl_error [OF nq] by (simp add: u_def)
  then have "fl q \<le> q * (1 + u)" by (simp add: algebra_simps abs_le_iff)
  also have "\<dots> \<le> N * (1 + u) * (1 + u)"
    using qN u(1) by (intro mult_right_mono) simp_all
  finally have fq: "fl q \<le> N * (1 + u) * (1 + u)" .
  define dd where "dd = N - fl q"
  have "N * (1 + u) * (1 + u) = N + N * (2 * u + u * u)"
    by (simp add: algebra_simps)
  with fq have lowd: "- (N * (2 * u + u * u)) \<le> dd"
    by (simp add: dd_def)
  have goal: "- N / 2 ^ 51 \<le> fl dd"
  proof (cases "0 \<le> dd")
    case True
    then have "0 \<le> fl dd" by (rule fl_nonneg)
    moreover have "- N / 2 ^ 51 \<le> 0" using pos by simp
    ultimately show ?thesis by linarith
  next
    case False
    define y where "y = N * (2 * u + u * u)"
    have "- dd \<le> y" using lowd by (simp add: y_def)
    then have m: "fl (- dd) \<le> fl y" by (rule fl_mono)
    have Nlow: "1 / 2000000000 \<le> N" using xh by (simp add: x_def)
    have "0 \<le> N * (u * u)" using pos by simp
    then have "N * (2 * u) \<le> y" by (simp add: y_def algebra_simps)
    moreover have "1 / 2000000000 * (2 * u) \<le> N * (2 * u)"
      using Nlow u(1) by (intro mult_right_mono) simp_all
    moreover have "(1::real) / 2 ^ 100 \<le> 1 / 2000000000 * (2 * u)" by (simp add: u_def)
    ultimately have "(1::real) / 2 ^ 100 \<le> y" by linarith
    then have ny: "2 powr (- 1022) \<le> y" using normal_small by linarith
    have "\<bar>fl y - y\<bar> \<le> y * u" using fl_error [OF ny] by (simp add: u_def)
    then have "fl y \<le> y * (1 + u)" by (simp add: algebra_simps abs_le_iff)
    also have "\<dots> \<le> N * (4 * u)"
      unfolding y_def using pos u(1,2) by (intro rounding_margin) simp_all
    also have "\<dots> = N / 2 ^ 51" using u(3) by simp
    finally have "fl y \<le> N / 2 ^ 51" .
    moreover have "fl dd = - fl (- dd)" using fl_minus [of "- dd"] by simp
    ultimately show ?thesis using m by simp
  qed
  then show ?thesis by (simp add: dd_def q_def)
qed

text \<open>A buy of a non-negative amount never lowers the counter.\<close>

lemma buy_up:
  assumes "is_double N" "0 \<le> b"
  shows "N \<le> fl (N + fl (real_of_int b / 1000000000))"
proof -
  have "0 \<le> fl (real_of_int b / 1000000000)"
    using assms(2) by (intro fl_nonneg) simp
  then show ?thesis
    using assms(1) by (intro fl_ge_double) simp_all
qed

text \<open>What an iteration can do to the counter.\<close>

lemma volume_try_net:
  assumes "volume_try this vars1 mint direction lamports dexes tip w = Inr vars2"
  shows "totalNetVolume vars2 = totalNetVolume vars1
     \<or> totalNetVolume vars2 =
         (if direction = Buy
          then num_add (totalNetVolume vars1) (num_div (real_of_int lamports) 1000000000)
          else num_sub (totalNetVolume vars1) (num_div (real_of_int lamports) 1000000000))"
  using assms
  by (auto simp add: volume_try_def Let_def split: sum.splits if_splits)

lemma volume_trade_cases:
  "totalNetVolume (fst (volume_trade mint lo hi m speed dexes tip w this vars))
       = totalNetVolume vars
   \<or> shouldSell vars w
     \<and> totalNetVolume (fst (volume_trade mint lo hi m speed dexes tip w this vars))
       = fl (totalNetVolume vars
             - fl (real_of_int (sellAmount m (totalNetVolume vars) (randomSize w)) / 1000000000))
   \<or> \<not> shouldSell vars w
     \<and> totalNetVolume (fst (volume_trade mint lo hi m speed dexes tip w this vars))
       = fl (totalNetVolume vars
             + fl (real_of_int (buyAmount lo hi (randomSize w)) / 1000000000))"
proof -
  let ?c = "if shouldSell vars w then next_countdown (randomCountdown w)
            else tradesUntilNextSell vars - 1"
  let ?vars1 = "vars\<lparr>tradesUntilNextSell := ?c\<rparr>"
  let ?t = "volume_try this ?vars1 mint (trade_direction vars w)
     (trade_amount lo hi m vars w) dexes tip w"
  show ?thesis
  proof (cases ?t)
    case (Inl e)
    then have "fst (volume_trade mint lo hi m speed dexes tip w this vars) = ?vars1"
      by (simp add: volume_trade_def Let_def)
    then show ?thesis by simp
  next
    case (Inr vars2)
    then have res: "fst (volume_trade mint lo hi m speed dexes tip w this vars) = vars2"
      by (simp add: volume_trade_def Let_def)
    from volume_try_net [OF Inr] show ?thesis
      unfolding res
      by (cases "shouldSell vars w")
        (auto simp add: trade_direction_def trade_amount_def num_add_def num_sub_def num_div_def)
  qed
qed

lemma volume_iter_vars:
  "snd (fst (volume_iter mint lo hi m speed dexes tip w (this, vars))) =
     (if volume_stale this w then
        (case latestBlockhash w of
           Inl e \<Rightarrow> vars
         | Inr bh \<Rightarrow>
             fst (volume_trade mint lo hi m speed dexes tip w
                    (this\<lparr>blockhash := bh, lastBlockhashRefresh := clockAfter w\<rparr>) vars))
      else fst (volume_trade mint lo hi m speed dexes tip w this vars))"
  by (simp add: volume_iter_def Let_def split: sum.splits prod.splits)

lemma volume_iter_cases:
  "totalNetVolume (snd (fst (volume_iter mint lo hi m speed dexes tip w (this, vars))))
       = totalNetVolume vars
   \<or> shouldSell vars w
     \<and> totalNetVolume (snd (fst (volume_iter mint lo hi m speed dexes tip w (this, vars))))
       = fl (totalNetVolume vars
             - fl (real_of_int (sellAmount m (totalNetVolume vars) (randomSize w)) / 1000000000))
   \<or> \<not> shouldSell vars w
     \<and> totalNetVolume (snd (fst (volume_iter mint lo hi m speed dexes tip w (this, vars))))
       = fl (totalNetVolume vars
             + fl (real_of_int (buyAmount lo hi (randomSize w)) / 1000000000))"
proof (cases "volume_stale this w")
  case False
  then show ?thesis
    using volume_trade_cases [of mint lo hi m speed dexes tip w this vars]
    by (simp add: volume_iter_vars)
next
  case True
  show ?thesis
  proof (cases "latestBlockhash w")
    case (Inl e)
    with True show ?thesis by (simp add: volume_iter_vars)
  next
    case (Inr bh)
    with True show ?thesis
      using volume_trade_cases [of mint lo hi m speed dexes tip w
          "this\<lparr>blockhash := bh, lastBlockhashRefresh := clockAfter w\<rparr>" vars]
      by (simp add: volume_iter_vars)
  qed
qed

text \<open>
  One iteration: the counter stays a double; a sell, chosen only at a positive counter
  \<open>N\<close>, leaves at least \<open>- N / 2^51\<close>; a buy never lowers it.
\<close>

lemma volume_iter_net:
  assumes m: "1 \<le> m" and lo: "0 \<le> lo" and hi: "lo \<le> hi"
    and r: "random_ok (randomSize w)" and d: "is_double (totalNetVolume vars)"
  shows "is_double (totalNetVolume
           (snd (fst (volume_iter mint lo hi m speed dexes tip w (this, vars)))))"
    and "shouldSell vars w \<Longrightarrow>
           - totalNetVolume vars / 2 ^ 51
             \<le> totalNetVolume (snd (fst (volume_iter mint lo hi m speed dexes tip w (this, vars))))"
    and "\<not> shouldSell vars w \<Longrightarrow>
           totalNetVolume vars
             \<le> totalNetVolume (snd (fst (volume_iter mint lo hi m speed dexes tip w (this, vars))))"
proof -
  define N where "N = totalNetVolume vars"
  define N' where
    "N' = totalNetVolume (snd (fst (volume_iter mint lo hi m speed dexes tip w (this, vars))))"
  define sold where "sold = fl (N - fl (real_of_int (sellAmount m N (randomSize w)) / 1000000000))"
  define bought where "bought = fl (N + fl (real_of_int (buyAmount lo hi (randomSize w)) / 1000000000))"
  have cases: "N' = N \<or> shouldSell vars w \<and> N' = sold \<or> \<not> shouldSell vars w \<and> N' = bought"
    unfolding N'_def N_def sold_def bought_def by (rule volume_iter_cases)
  have dN: "is_double N" using d by (simp add: N_def)
  have "is_double sold" "is_double bought"
    by (simp_all add: sold_def bought_def is_double_fl)
  with cases dN show "is_double (totalNetVolume
           (snd (fst (volume_iter mint lo hi m speed dexes tip w (this, vars)))))"
    unfolding N'_def [symmetric] by auto
  have up: "N \<le> bought"
    unfolding bought_def using dN buyAmount_nonneg [OF lo hi r] by (rule buy_up)
  have down: "- N / 2 ^ 51 \<le> sold" and low: "- N / 2 ^ 51 \<le> N" if "shouldSell vars w"
  proof -
    from that have pos: "0 < N" by (simp add: shouldSell_def N_def)
    then have nn: "0 \<le> N" by simp
    show "- N / 2 ^ 51 \<le> sold"
      unfolding sold_def
      using dN pos sellAmount_bounds [OF m r nn dN] by (intro sell_back)
    have "- N / 2 ^ 51 \<le> 0" using pos by simp
    then show "- N / 2 ^ 51 \<le> N" using pos by linarith
  qed
  show "- totalNetVolume vars / 2 ^ 51
      \<le> totalNetVolume (snd (fst (volume_iter mint lo hi m speed dexes tip w (this, vars))))"
    if "shouldSell vars w"
    unfolding N'_def [symmetric] N_def [symmetric]
    using cases down [OF that] low [OF that] that by auto
  show "totalNetVolume vars
      \<le> totalNetVolume (snd (fst (volume_iter mint lo hi m speed dexes tip w (this, vars))))"
    if "\<not> shouldSell vars w"
    unfolding N'_def [symmetric] N_def [symmetric]
    using cases up that by auto
qed

text \<open>
  A run: while the counter stays at or below \<open>B\<close>, it stays at or above \<open>- B / 2^51\<close>.
\<close>

lemma volume_run_net:
  assumes m: "1 \<le> m" and lo: "0 \<le> lo" and hi: "lo \<le> hi"
  shows "(\<And>w. w \<in> set ws \<Longrightarrow> random_ok (randomSize w)) \<Longrightarrow>
     is_double (totalNetVolume (snd s)) \<Longrightarrow> - B / 2 ^ 51 \<le> totalNetVolume (snd s) \<Longrightarrow>
     (\<And>k. k \<le> length ws \<Longrightarrow>
        totalNetVolume (snd (volume_run mint lo hi m speed dexes tip (take k ws) s)) \<le> B) \<Longrightarrow>
     is_double (totalNetVolume (snd (volume_run mint lo hi m speed dexes tip ws s)))
     \<and> - B / 2 ^ 51 \<le> totalNetVolume (snd (volume_run mint lo hi m speed dexes tip ws s))"
proof (induction ws arbitrary: s)
  case Nil
  then show ?case by simp
next
  case (Cons w ws)
  obtain this vars where s: "s = (this, vars)" by (cases s)
  let ?s1 = "fst (volume_iter mint lo hi m speed dexes tip w s)"
  have r: "random_ok (randomSize w)" using Cons.prems(1) by simp
  have d: "is_double (totalNetVolume vars)" using Cons.prems(2) s by simp
  have top: "totalNetVolume vars \<le> B" using Cons.prems(4) [of 0] s by simp
  note step = volume_iter_net [OF m lo hi r d, of mint speed dexes tip this]
  have d1: "is_double (totalNetVolume (snd ?s1))" using step(1) s by simp
  have l1: "- B / 2 ^ 51 \<le> totalNetVolume (snd ?s1)"
  proof (cases "shouldSell vars w")
    case True
    have "- B / 2 ^ 51 \<le> - totalNetVolume vars / 2 ^ 51"
      using top by (simp add: divide_right_mono)
    with step(2) [OF True] show ?thesis using s by simp
  next
    case False
    from step(3) [OF False] Cons.prems(3) show ?thesis using s by simp
  qed
  have rest: "totalNetVolume (snd (volume_run mint lo hi m speed dexes tip (take k ws) ?s1)) \<le> B"
    if "k \<le> length ws" for k
    using Cons.prems(4) [of "Suc k"] that by simp
  have "is_double (totalNetVolume (snd (volume_run mint lo hi m speed dexes tip ws ?s1)))
     \<and> - B / 2 ^ 51 \<le> totalNetVolume (snd (volume_run mint lo hi m speed dexes tip ws ?s1))"
    using d1 l1 rest by (intro Cons.IH) (simp_all add: Cons.prems(1))
  then show ?case by simp
qed

text \<open>The loop in the mocked environment, evaluated.\<close>

lemma volume_try_ok:
  assumes "random_ok (jitoDraw w)" "random_ok (urlDraw w)" "tip < 2 ^ 53" "blockhash this \<noteq> []"
    and "route_found (swapReplies w 0)" and "relay_acks w"
  shows "volume_try this vars mint direction lamports dexes tip w =
     Inr (vars\<lparr>tradeCount := tradeCount vars + 1,
                totalNetVolume :=
                  (if direction = Buy
                   then num_add (totalNetVolume vars) (num_div (real_of_int lamports) 1000000000)
                   else num_sub (totalNetVolume vars) (num_div (real_of_int lamports) 1000000000)),
                totalRealVolume :=
                  num_add (totalRealVolume vars) (num_div (real_of_int lamports) 1000000000)\<rparr>)"
proof -
  from volume_bundle_ok [OF assms(1,3,4,5)] obtain b where
    b: "volume_bundle this mint direction (real_of_int lamports) dexes tip w = Inr b"
    by blast
  from getRandomJitoUrl_ok [OF assms(2)] obtain u where u: "getRandomJitoUrl (urlDraw w) = Some u" ..
  from assms(6) obtain reply where r: "bundleReply w = Inr reply" and t: "has_result reply"
    by (auto simp add: relay_acks_def split: sum.splits)
  show ?thesis
    by (simp add: volume_try_def Let_def b u r t sendBundle_def)
qed

lemma next_countdown_0: "next_countdown 0 = 1"
  by (simp add: next_countdown_def num_mul_def)

lemma volume_iter_mock:
  assumes w: "w = mock_env\<lparr>randomTrigger := t, randomSize := r\<rparr>" and tip: "tip < 2 ^ 53"
  shows "fst (volume_iter mint lo hi m speed dexes tip w (this, vars)) =
     ((if blockhash this = [] \<or> 60000 \<le> - lastBlockhashRefresh this
       then this\<lparr>blockhash := ''hash'', lastBlockhashRefresh := 0\<rparr> else this),
      vars\<lparr>tradesUntilNextSell :=
              (if shouldSell vars w then 1 else tradesUntilNextSell vars - 1),
            tradeCount := tradeCount vars + 1,
            totalNetVolume :=
              (if shouldSell vars w
               then num_sub (totalNetVolume vars)
                      (num_div (real_of_int (sellAmount m (totalNetVolume vars) r)) 1000000000)
               else num_add (totalNetVolume vars)
                      (num_div (real_of_int (buyAmount lo hi r)) 1000000000)),
            totalRealVolume :=
              num_add (totalRealVolume vars)
                (num_div (real_of_int (if shouldSell vars w
                                       then sellAmount m (totalNetVolume vars) r
                                       else buyAmount lo hi r)) 1000000000)\<rparr>)"
proof -
  have env: "random_ok (jitoDraw w)" "random_ok (urlDraw w)" "route_found (swapReplies w 0)"
    "relay_acks w" "latestBlockhash w = Inr ''hash''" "clock w = 0" "clockAfter w = 0"
    "randomSize w = r" "randomCountdown w = 0"
    by (simp_all add: w random_ok_def relay_acks_def has_result_def js_truthy_def
        route_found_def no_routes_def truthy_def mock_env_def)
  have tr: "fst (volume_trade mint lo hi m speed dexes tip w this' vars) =
      vars\<lparr>tradesUntilNextSell :=
              (if shouldSell vars w then 1 else tradesUntilNextSell vars - 1),
            tradeCount := tradeCount vars + 1,
            totalNetVolume :=
              (if shouldSell vars w
               then num_sub (totalNetVolume vars)
                      (num_div (real_of_int (sellAmount m (totalNetVolume vars) r)) 1000000000)
               else num_add (totalNetVolume vars)
                      (num_div (real_of_int (buyAmount lo hi r)) 1000000000)),
            totalRealVolume :=
              num_add (totalRealVolume vars)
                (num_div (real_of_int (if shouldSell vars w
                                       then sellAmount m (totalNetVolume vars) r
                                       else buyAmount lo hi r)) 1000000000)\<rparr>"
    if "blockhash this' \<noteq> []" for this'
    by (simp add: volume_trade_def Let_def volume_try_ok [OF env(1,2) tip that env(3,4)]
        trade_direction_def trade_amount_def env next_countdown_0)
  show ?thesis
    by (simp add: volume_iter_def volume_stale_def env tr Let_def split_beta)
qed

text \<open>Roundings that leave the number as it is, and the threshold 0.3.\<close>

lemma fl_small_dyadics:
  "fl (1 / 4) = 1 / 4" "fl (3 / 4) = 3 / 4" "fl (5 / 4) = 5 / 4" "fl (9 / 4) = 9 / 4"
  "fl (3 / 8) = 3 / 8" "fl 2 = 2"
  using fl_dyadic [of 1 2] fl_dyadic [of 3 2] fl_dyadic [of 5 2] fl_dyadic [of 9 2]
    fl_dyadic [of 3 3] fl_int [of 2]
  by simp_all

lemma fl_lamports:
  "fl 1000000000 = 1000000000" "fl 750000000 = 750000000" "fl 1250000000 = 1250000000"
  "fl 2000000000 = 2000000000"
  by (rule fl_numeral, simp)+

lemma threshold_below_half: "\<not> 1 / 2 < fl (3 / 10)"
proof -
  have "fl (3 / 10) \<le> 1 / 2"
    by (rule fl_le_double) (simp_all add: is_double_half)
  then show ?thesis by simp
qed

text \<open>
  The amounts of the examples: a buy of 1 SOL; sells from a net volume of 1 SOL at the
  draws 1/2 and 3/4; a buy between -2 and -1 SOL.
\<close>

lemma amounts_mock:
  "buyAmount 1 1 0 = 1000000000"
  "sellAmount 1 1 (1 / 2) = 750000000"
  "sellAmount (1 / 2) 1 (3 / 4) = 1250000000"
  "buyAmount (- 2) (- 1) 0 = - 2000000000"
  by (simp_all add: buyAmount_def sellAmount_def sellSol_def sellPercentage_def
      maxSellPercentage_def num_add_def num_sub_def num_mul_def num_div_def
      fl_small_dyadics fl_lamports fl_half fl_minus)

lemma sums_mock:
  "num_div 1000000000 1000000000 = 1" "num_add 0 1 = 1"
  "num_div 750000000 1000000000 = 3 / 4" "num_sub 1 (3 / 4) = 1 / 4"
  "num_div 1250000000 1000000000 = 5 / 4" "num_sub 1 (5 / 4) = - (1 / 4)"
  "num_div (- 2000000000) 1000000000 = - 2" "num_add 0 (- 2) = - 2"
  "num_add (- 2) (- 2) = - 4" "num_add 1 (3 / 4) = 7 / 4" "num_add 1 (5 / 4) = 9 / 4"
  using fl_dyadic [of 7 2] fl_int [of 4]
  by (simp_all add: num_add_def num_sub_def num_div_def fl_small_dyadics fl_half fl_minus)

text \<open>
  The roundings of the run that ends below zero: three buys of 0.039 SOL, then a sell at
  the largest draw.
\<close>

lemma fl_39_1000: "fl (39 / 1000) = 5620492334958379 / 2 ^ 57"
  by (subst fl_eval_pos [where e = "- 5"]) (simp_all add: rne_def powr_minus_divide)

lemma fl_39_lamports: "fl (5620492334958379 / 2 ^ 57 * 1000000000) = 39000000"
  by (subst fl_eval_pos [where e = 25]) (simp_all add: rne_def powr_minus_divide)

lemma fl_three_buys: "fl (16861477004875137 / 2 ^ 57) = 131730289100587 / 2 ^ 50"
  by (subst fl_eval_pos [where e = "- 4"]) (simp_all add: rne_def powr_minus_divide)

lemma fl_fraction_one: "fl (1 / 2 + 9007199254740991 / 2 ^ 54) = 1"
  by (subst fl_eval_pos [where e = "- 1"]) (simp_all add: rne_def powr_minus_divide)

lemma fl_117_lamports: "fl (131730289100587 / 2 ^ 50 * 1000000000) = 117000000"
  by (subst fl_eval_pos [where e = 26]) (simp_all add: rne_def powr_minus_divide)

lemma fl_117_1000: "fl (117 / 1000) = 8430738502437569 / 2 ^ 56"
  by (subst fl_eval_pos [where e = "- 4"]) (simp_all add: rne_def powr_minus_divide)

lemma rounding_run:
  fixes c rr tt :: real
  assumes c: "c = fl (39 / 1000)" and rr: "rr = 1 - 1 / 2 ^ 53" and tt: "tt = 1 / 2"
  shows "totalNetVolume
        (snd (volume (new_AMM ''payer'' None) ''mint'' c c 1 1
                \<lparr>jitoTipLamports = None, includeDexes = None\<rparr> (3 / 4)
                [mock_env\<lparr>randomTrigger := tt, randomSize := 0\<rparr>,
                 mock_env\<lparr>randomTrigger := tt, randomSize := 0\<rparr>,
                 mock_env\<lparr>randomTrigger := tt, randomSize := 0\<rparr>,
                 mock_env\<lparr>randomTrigger := tt, randomSize := rr\<rparr>])) = - (1 / 2 ^ 56)"
proof -
  define c2 :: real where "c2 = 5620492334958379 / 2 ^ 56"
  define n3 :: real where "n3 = 131730289100587 / 2 ^ 50"
  define s2 :: real where "s2 = 8430738502437569 / 2 ^ 56"
  define h :: real where "h = 9007199254740991 / 2 ^ 54"
  have cv: "c = 5620492334958379 / 2 ^ 57" unfolding c by (rule fl_39_1000)
  have fc: "fl c = c" unfolding c by simp
  have cpos: "0 < c" "0 < c2" "0 < n3" by (simp_all add: cv c2_def n3_def)
  have lam: "fl (c * 1000000000) = 39000000" unfolding cv by (rule fl_39_lamports)
  have buy: "buyAmount c c r = 39000000" for r
    by (simp add: buyAmount_def num_mul_def num_add_def num_sub_def fc lam)
  have sol: "num_div 39000000 1000000000 = c"
    by (simp add: num_div_def c)
  have a1: "num_add 0 c = c"
    by (simp add: num_add_def fc)
  have "c + c = c2" by (simp add: cv c2_def)
  moreover have "fl c2 = c2"
    unfolding c2_def using fl_dyadic [of 5620492334958379 56] by simp
  ultimately have a2: "num_add c c = c2" by (simp add: num_add_def)
  have "c2 + c = 16861477004875137 / 2 ^ 57" by (simp add: cv c2_def)
  then have a3: "num_add c2 c = n3"
    by (simp only: num_add_def n3_def fl_three_buys)
  have fn3: "fl n3 = n3"
    unfolding n3_def using fl_dyadic [of 131730289100587 50] by simp
  have "rr * (1 / 2) = h" by (simp add: rr h_def)
  moreover have fh: "fl h = h"
    unfolding h_def using fl_dyadic [of 9007199254740991 54] by simp
  ultimately have half: "num_mul rr (1 / 2) = h" by (simp add: num_mul_def)
  have "maxSellPercentage 1 = 1" by (simp add: maxSellPercentage_def num_div_def)
  then have scaled: "num_mul h (maxSellPercentage 1) = h"
    by (simp add: num_mul_def fh)
  have "fl (1 / 2 + h) = 1" unfolding h_def by (rule fl_fraction_one)
  then have sp: "sellPercentage 1 rr = 1"
    using half scaled by (simp add: sellPercentage_def num_add_def)
  have ss: "sellSol 1 n3 rr = n3"
    by (simp add: sellSol_def num_mul_def sp fn3)
  have "fl (n3 * 1000000000) = 117000000" unfolding n3_def by (rule fl_117_lamports)
  then have sell: "sellAmount 1 n3 rr = 117000000"
    by (simp add: sellAmount_def num_mul_def ss)
  have "fl (117 / 1000) = s2" unfolding s2_def by (rule fl_117_1000)
  then have sol2: "num_div 117000000 1000000000 = s2"
    by (simp add: num_div_def)
  have "n3 - s2 = - 1 / 2 ^ 56" by (simp add: n3_def s2_def)
  moreover have "fl (- 1 / 2 ^ 56) = - 1 / 2 ^ 56"
    using fl_dyadic [of "- 1" 56] by simp
  ultimately have last: "num_sub n3 s2 = - (1 / 2 ^ 56)"
    by (simp add: num_sub_def)
  have nc: "next_countdown (3 / 4) = 3"
    by (simp add: next_countdown_def num_mul_def fl_small_dyadics)
  have thr: "\<not> tt < fl (3 / 10)"
    unfolding tt by (rule threshold_below_half)
  have tip: "(1000000::nat) < 2 ^ 53" by simp
  note it = volume_iter_mock [OF refl tip]
  show ?thesis
    by (simp add: volume_def tip_or_default dexes_of_default it shouldSell_def nc new_AMM_def
        thr buy sol a1 a2 a3 sell sol2 last cpos)
qed

lemma runs_mock:
  "snd (volume (new_AMM ''payer'' None) ''mint'' lo hi m 1
         \<lparr>jitoTipLamports = None, includeDexes = None\<rparr> 0 [])
     = \<lparr>totalNetVolume = 0, totalRealVolume = 0, tradesUntilNextSell = 1, tradeCount = 0\<rparr>"
  "snd (volume (new_AMM ''payer'' None) ''mint'' 1 1 m 1
         \<lparr>jitoTipLamports = None, includeDexes = None\<rparr> 0
         [mock_env\<lparr>randomTrigger := 0, randomSize := 0\<rparr>])
     = \<lparr>totalNetVolume = 1, totalRealVolume = 1, tradesUntilNextSell = 0, tradeCount = 1\<rparr>"
  "snd (volume (new_AMM ''payer'' None) ''mint'' 1 1 1 1
         \<lparr>jitoTipLamports = None, includeDexes = None\<rparr> 0
         [mock_env\<lparr>randomTrigger := 0, randomSize := 0\<rparr>,
          mock_env\<lparr>randomTrigger := 0, randomSize := 1 / 2\<rparr>])
     = \<lparr>totalNetVolume = 1 / 4, totalRealVolume = 7 / 4, tradesUntilNextSell = 1,
        tradeCount = 2\<rparr>"
  "snd (volume (new_AMM ''payer'' None) ''mint'' 1 1 (1 / 2) 1
         \<lparr>jitoTipLamports = None, includeDexes = None\<rparr> 0
         [mock_env\<lparr>randomTrigger := 0, randomSize := 0\<rparr>,
          mock_env\<lparr>randomTrigger := 0, randomSize := 3 / 4\<rparr>])
     = \<lparr>totalNetVolume = - (1 / 4), totalRealVolume = 9 / 4, tradesUntilNextSell = 1,
        tradeCount = 2\<rparr>"
  "totalNetVolume
     (snd (volume (new_AMM ''payer'' None) ''mint'' (- 2) (- 1) 1 1
         \<lparr>jitoTipLamports = None, includeDexes = None\<rparr> 0
         [mock_env\<lparr>randomTrigger := 0, randomSize := 0\<rparr>,
          mock_env\<lparr>randomTrigger := 0, randomSize := 0\<rparr>])) = - 4"
proof -
  have tip: "(1000000::nat) < 2 ^ 53" by simp
  note it = volume_iter_mock [OF refl tip]
  show "snd (volume (new_AMM ''payer'' None) ''mint'' lo hi m 1
         \<lparr>jitoTipLamports = None, includeDexes = None\<rparr> 0 [])
     = \<lparr>totalNetVolume = 0, totalRealVolume = 0, tradesUntilNextSell = 1, tradeCount = 0\<rparr>"
    by (simp add: volume_def next_countdown_0)
  show "snd (volume (new_AMM ''payer'' None) ''mint'' 1 1 m 1
         \<lparr>jitoTipLamports = None, includeDexes = None\<rparr> 0
         [mock_env\<lparr>randomTrigger := 0, randomSize := 0\<rparr>])
     = \<lparr>totalNetVolume = 1, totalRealVolume = 1, tradesUntilNextSell = 0, tradeCount = 1\<rparr>"
    by (simp add: volume_def tip_or_default dexes_of_default it shouldSell_def next_countdown_0
        new_AMM_def amounts_mock sums_mock)
  show "snd (volume (new_AMM ''payer'' None) ''mint'' 1 1 1 1
         \<lparr>jitoTipLamports = None, includeDexes = None\<rparr> 0
         [mock_env\<lparr>randomTrigger := 0, randomSize := 0\<rparr>,
          mock_env\<lparr>randomTrigger := 0, randomSize := 1 / 2\<rparr>])
     = \<lparr>totalNetVolume = 1 / 4, totalRealVolume = 7 / 4, tradesUntilNextSell = 1,
        tradeCount = 2\<rparr>"
    by (simp add: volume_def tip_or_default dexes_of_default it shouldSell_def next_countdown_0
        new_AMM_def amounts_mock sums_mock)
  show "snd (volume (new_AMM ''payer'' None) ''mint'' 1 1 (1 / 2) 1
         \<lparr>jitoTipLamports = None, includeDexes = None\<rparr> 0
         [mock_env\<lparr>randomTrigger := 0, randomSize := 0\<rparr>,
          mock_env\<lparr>randomTrigger := 0, randomSize := 3 / 4\<rparr>])
     = \<lparr>totalNetVolume = - (1 / 4), totalRealVolume = 9 / 4, tradesUntilNextSell = 1,
        tradeCount = 2\<rparr>"
    by (simp add: volume_def tip_or_default dexes_of_default it shouldSell_def next_countdown_0
        new_AMM_def amounts_mock sums_mock)
  show "totalNetVolume
     (snd (volume (new_AMM ''payer'' None) ''mint'' (- 2) (- 1) 1 1
         \<lparr>jitoTipLamports = None, includeDexes = None\<rparr> 0
         [mock_env\<lparr>randomTrigger := 0, randomSize := 0\<rparr>,
          mock_env\<lparr>randomTrigger := 0, randomSize := 0\<rparr>])) = - 4"
    by (simp add: volume_def tip_or_default dexes_of_default it shouldSell_def next_countdown_0
        new_AMM_def amounts_mock sums_mock)
qed

text \<open>
  C1, amended. Numbers are IEEE doubles, every operation rounded. For every \<open>mCapFactor\<close>
  of at least 1, every \<open>0 \<le> minSolPerSwap \<le> maxSolPerSwap\<close>, every sequence of draws in
  \<open>[0, 1)\<close> and whatever the outcomes of the submissions:
  \<^item> a sell is only chosen when the net volume is positive;
  \<^item> the amount of a sell is at most the net volume in smallest units (the net volume
    scaled by 1e9, rounded, rounded down), and the counter after a sell from the net volume
    \<open>v\<close> is at least \<open>- v / 2^51\<close>: it can fall below zero only by what the conversion to
    smallest units and back rounds away;
  \<^item> a buy never lowers the counter;
  \<^item> while the counter stays at or below a bound \<open>B\<close> along the run, it is never below
    \<open>- B / 2^51\<close>.

  The amounts are taken below \<open>2^990\<close> SOL, where no operation of the loop overflows.
\<close>

theorem net_volume_bounded_below:
  assumes "1 \<le> mCapFactor" and "0 \<le> minSolPerSwap" and "minSolPerSwap \<le> maxSolPerSwap"
    and "maxSolPerSwap \<le> 2 ^ 990" and "bound \<le> 2 ^ 990"
    and "\<forall>w \<in> set ws. random_ok (randomSize w)"
    and "\<forall>k \<le> length ws.
           totalNetVolume
             (snd (volume this mint minSolPerSwap maxSolPerSwap mCapFactor speedFactor
                     options firstDraw (take k ws))) \<le> bound"
  shows "- bound / 2 ^ 51
           \<le> totalNetVolume
               (snd (volume this mint minSolPerSwap maxSolPerSwap mCapFactor speedFactor
                       options firstDraw ws))
     \<and> (trade_direction vars w = Sell \<longrightarrow> 0 < totalNetVolume vars)
     \<and> (is_double (totalNetVolume vars) \<and> totalNetVolume vars \<le> 2 ^ 990
          \<and> random_ok (randomSize w) \<longrightarrow>
          (trade_direction vars w = Sell \<longrightarrow>
             trade_amount minSolPerSwap maxSolPerSwap mCapFactor vars w
               \<le> \<lfloor>fl (totalNetVolume vars * 1000000000)\<rfloor>
             \<and> - totalNetVolume vars / 2 ^ 51
               \<le> totalNetVolume
                   (snd (fst (volume_iter mint minSolPerSwap maxSolPerSwap mCapFactor
                                speedFactor dexes tip w (cached, vars)))))
          \<and> (trade_direction vars w = Buy \<longrightarrow>
               totalNetVolume vars
                 \<le> totalNetVolume
                     (snd (fst (volume_iter mint minSolPerSwap maxSolPerSwap mCapFactor
                                  speedFactor dexes tip w (cached, vars))))))"
proof (intro conjI impI)
  let ?s0 = "(this, \<lparr>totalNetVolume = 0, totalRealVolume = 0,
      tradesUntilNextSell = next_countdown firstDraw, tradeCount = 0\<rparr>)"
  have r: "random_ok (randomSize w)" if "w \<in> set ws" for w
    using assms(6) that by blast
  have top: "totalNetVolume (snd (volume_run mint minSolPerSwap maxSolPerSwap mCapFactor
      speedFactor (dexes_of options) (tip_or options 1000000) (take k ws) ?s0)) \<le> bound"
    if "k \<le> length ws" for k
    using assms(7) that by (simp add: volume_def)
  have "0 \<le> totalNetVolume (snd ?s0)" by simp
  from top [of 0] have "0 \<le> bound" by simp
  then have low: "- bound / 2 ^ 51 \<le> totalNetVolume (snd ?s0)" by simp
  have d0: "is_double (totalNetVolume (snd ?s0))" by simp
  from volume_run_net [OF assms(1,2,3) r d0 low top]
  show "- bound / 2 ^ 51
           \<le> totalNetVolume
               (snd (volume this mint minSolPerSwap maxSolPerSwap mCapFactor speedFactor
                       options firstDraw ws))"
    by (simp add: volume_def)
next
  assume "trade_direction vars w = Sell"
  then show "0 < totalNetVolume vars"
    by (simp add: trade_direction_def shouldSell_def split: if_splits)
next
  assume a: "is_double (totalNetVolume vars) \<and> totalNetVolume vars \<le> 2 ^ 990
          \<and> random_ok (randomSize w)"
    and s: "trade_direction vars w = Sell"
  from s have sell: "shouldSell vars w"
    by (simp add: trade_direction_def split: if_splits)
  then have "0 \<le> totalNetVolume vars" by (simp add: shouldSell_def)
  with a sell
  show "trade_amount minSolPerSwap maxSolPerSwap mCapFactor vars w
               \<le> \<lfloor>fl (totalNetVolume vars * 1000000000)\<rfloor>"
    using sellAmount_bounds(2) [OF assms(1), of "randomSize w" "totalNetVolume vars"]
    by (simp add: trade_amount_def)
  from a sell
  show "- totalNetVolume vars / 2 ^ 51
               \<le> totalNetVolume
                   (snd (fst (volume_iter mint minSolPerSwap maxSolPerSwap mCapFactor
                                speedFactor dexes tip w (cached, vars))))"
    by (intro volume_iter_net(2) [OF assms(1,2,3)]) simp_all
next
  assume a: "is_double (totalNetVolume vars) \<and> totalNetVolume vars \<le> 2 ^ 990
          \<and> random_ok (randomSize w)"
    and b: "trade_direction vars w = Buy"
  from b have "\<not> shouldSell vars w"
    by (simp add: trade_direction_def split: if_splits)
  with a
  show "totalNetVolume vars
                 \<le> totalNetVolume
                     (snd (fst (volume_iter mint minSolPerSwap maxSolPerSwap mCapFactor
                                  speedFactor dexes tip w (cached, vars))))"
    by (intro volume_iter_net(3) [OF assms(1,2,3)]) simp_all
qed

text \<open>
  A buy of 1 SOL, then a sell of 0.75 SOL, with \<open>mCapFactor = 1\<close>: the counter goes from 0
  to 1 and to 0.25.
\<close>

theorem net_volume_bounded_below_witness:
  "(1::real) \<le> 1 \<and> (0::real) \<le> 1 \<and> (1::real) \<le> 2 ^ 990
   \<and> random_ok (randomSize (mock_env\<lparr>randomTrigger := 0, randomSize := 0\<rparr>))
   \<and> random_ok (randomSize (mock_env\<lparr>randomTrigger := 0, randomSize := 1 / 2\<rparr>))
   \<and> totalNetVolume
        (snd (volume (new_AMM ''payer'' None) ''mint'' 1 1 1 1
                \<lparr>jitoTipLamports = None, includeDexes = None\<rparr> 0 [])) = 0
   \<and> totalNetVolume
        (snd (volume (new_AMM ''payer'' None) ''mint'' 1 1 1 1
                \<lparr>jitoTipLamports = None, includeDexes = None\<rparr> 0
                [mock_env\<lparr>randomTrigger := 0, randomSize := 0\<rparr>])) = 1
   \<and> totalNetVolume
        (snd (volume (new_AMM ''payer'' None) ''mint'' 1 1 1 1
                \<lparr>jitoTipLamports = None, includeDexes = None\<rparr> 0
                [mock_env\<lparr>randomTrigger := 0, randomSize := 0\<rparr>,
                 mock_env\<lparr>randomTrigger := 0, randomSize := 1 / 2\<rparr>])) = 1 / 4
   \<and> - 1 / 2 ^ 51
        \<le> totalNetVolume
            (snd (volume (new_AMM ''payer'' None) ''mint'' 1 1 1 1
                    \<lparr>jitoTipLamports = None, includeDexes = None\<rparr> 0
                    [mock_env\<lparr>randomTrigger := 0, randomSize := 0\<rparr>,
                     mock_env\<lparr>randomTrigger := 0, randomSize := 1 / 2\<rparr>]))
   \<and> is_double 1
   \<and> trade_direction
        \<lparr>totalNetVolume = 1, totalRealVolume = 1, tradesUntilNextSell = 0, tradeCount = 1\<rparr>
        (mock_env\<lparr>randomTrigger := 0, randomSize := 1 / 2\<rparr>) = Sell
   \<and> trade_amount 1 1 1
        \<lparr>totalNetVolume = 1, totalRealVolume = 1, tradesUntilNextSell = 0, tradeCount = 1\<rparr>
        (mock_env\<lparr>randomTrigger := 0, randomSize := 1 / 2\<rparr>) = 750000000
   \<and> \<lfloor>fl (1 * 1000000000)\<rfloor> = 1000000000
   \<and> - 1 / 2 ^ 51
        \<le> totalNetVolume
            (snd (fst (volume_iter ''mint'' 1 1 1 1 [] 1000000
                         (mock_env\<lparr>randomTrigger := 0, randomSize := 1 / 2\<rparr>)
                         (new_AMM ''payer'' None\<lparr>blockhash := ''hash''\<rparr>,
                          \<lparr>totalNetVolume = 1, totalRealVolume = 1, tradesUntilNextSell = 0,
                             tradeCount = 1\<rparr>))))
   \<and> trade_direction
        \<lparr>totalNetVolume = 0, totalRealVolume = 0, tradesUntilNextSell = 1, tradeCount = 0\<rparr>
        (mock_env\<lparr>randomTrigger := 0, randomSize := 0\<rparr>) = Buy
   \<and> 0 \<le> totalNetVolume
            (snd (fst (volume_iter ''mint'' 1 1 1 1 [] 1000000
                         (mock_env\<lparr>randomTrigger := 0, randomSize := 0\<rparr>)
                         (new_AMM ''payer'' None\<lparr>blockhash := ''hash''\<rparr>,
                          \<lparr>totalNetVolume = 0, totalRealVolume = 0, tradesUntilNextSell = 1,
                             tradeCount = 0\<rparr>))))"
proof -
  let ?buy = "mock_env\<lparr>randomTrigger := 0, randomSize := 0\<rparr>"
  let ?sell = "mock_env\<lparr>randomTrigger := 0, randomSize := 1 / 2\<rparr>"
  let ?v0 = "\<lparr>totalNetVolume = 0, totalRealVolume = 0, tradesUntilNextSell = 1, tradeCount = 0\<rparr>"
  let ?v1 = "\<lparr>totalNetVolume = 1, totalRealVolume = 1, tradesUntilNextSell = 0, tradeCount = 1\<rparr>"
  let ?amm = "new_AMM ''payer'' None"
  let ?options = "\<lparr>jitoTipLamports = None, includeDexes = None\<rparr>"
  note runs = runs_mock(1) [of 1 1 1] runs_mock(2) [of 1] runs_mock(3)
  have h: "(1::real) \<le> 1" "(0::real) \<le> 1" "(1::real) \<le> 2 ^ 990"
    by simp_all
  have draws: "random_ok (randomSize ?buy)" "random_ok (randomSize ?sell)"
    by (simp_all add: random_ok_def)
  then have all: "\<forall>w \<in> set [?buy, ?sell]. random_ok (randomSize w)"
    by simp
  have below: "\<forall>k \<le> length [?buy, ?sell].
      totalNetVolume (snd (volume ?amm ''mint'' 1 1 1 1 ?options 0 (take k [?buy, ?sell]))) \<le> 1"
  proof (intro allI impI)
    fix k :: nat
    assume "k \<le> length [?buy, ?sell]"
    then have "k = 0 \<or> k = 1 \<or> k = 2" by auto
    then show "totalNetVolume
        (snd (volume ?amm ''mint'' 1 1 1 1 ?options 0 (take k [?buy, ?sell]))) \<le> 1"
      using runs by (auto simp add: numeral_2_eq_2)
  qed
  have dirs: "trade_direction ?v1 ?sell = Sell" "trade_direction ?v0 ?buy = Buy"
    "trade_amount 1 1 1 ?v1 ?sell = 750000000" "\<lfloor>fl (1 * 1000000000)\<rfloor> = 1000000000"
    by (simp_all add: trade_direction_def trade_amount_def shouldSell_def amounts_mock
        fl_lamports)
  have dbl: "is_double (totalNetVolume ?v1)" "is_double (totalNetVolume ?v0)"
    "totalNetVolume ?v1 \<le> 2 ^ 990" "totalNetVolume ?v0 \<le> 2 ^ 990"
    by simp_all
  from net_volume_bounded_below [OF h(1,2,1,3,3) all below, where vars = ?v1 and w = ?sell
      and dexes = "[]" and tip = 1000000 and cached = "?amm\<lparr>blockhash := ''hash''\<rparr>"]
    net_volume_bounded_below [OF h(1,2,1,3,3) all below, where vars = ?v0 and w = ?buy
      and dexes = "[]" and tip = 1000000 and cached = "?amm\<lparr>blockhash := ''hash''\<rparr>"]
  show ?thesis
    using h draws runs dirs dbl by simp
qed

text \<open>
  C1, as claimed, fails in three ways.
  \<^item> \<open>mCapFactor = 1/2\<close> is positive: after a buy of 1 SOL a sell at the draw 3/4 takes
    1.25 SOL and leaves -0.25.
  \<^item> \<open>minSolPerSwap = -2 \<le> maxSolPerSwap = -1\<close>: a buy subtracts 2 SOL, the counter is -4
    after two.
  \<^item> \<open>mCapFactor = 1\<close> and \<open>minSolPerSwap = maxSolPerSwap = 0.039\<close>: three buys bring the
    counter to 0.11699999999999999, one unit in the last place below the double 0.117. A
    sell at the largest draw, \<open>1 - 2^-53\<close>, has the fraction 1 and the amount 117000000; the
    0.117 SOL subtracted leave \<open>- 2^-56\<close>, about -1.39e-17.
\<close>

theorem net_volume_negative_counterexample:
  "(0::real) < 1 / 2 \<and> (1::real) \<le> 1
   \<and> random_ok 0 \<and> random_ok (3 / 4)
   \<and> relay_acks (mock_env\<lparr>randomTrigger := 0, randomSize := 3 / 4\<rparr>)
   \<and> totalNetVolume
        (snd (volume (new_AMM ''payer'' None) ''mint'' 1 1 (1 / 2) 1
                \<lparr>jitoTipLamports = None, includeDexes = None\<rparr> 0
                [mock_env\<lparr>randomTrigger := 0, randomSize := 0\<rparr>,
                 mock_env\<lparr>randomTrigger := 0, randomSize := 3 / 4\<rparr>])) = - (1 / 4)
   \<and> (- 2::real) \<le> - 1
   \<and> totalNetVolume
        (snd (volume (new_AMM ''payer'' None) ''mint'' (- 2) (- 1) 1 1
                \<lparr>jitoTipLamports = None, includeDexes = None\<rparr> 0
                [mock_env\<lparr>randomTrigger := 0, randomSize := 0\<rparr>,
                 mock_env\<lparr>randomTrigger := 0, randomSize := 0\<rparr>])) = - 4
   \<and> (0::real) < 1 \<and> 0 \<le> fl (39 / 1000) \<and> random_ok (1 / 2) \<and> random_ok (1 - 1 / 2 ^ 53)
   \<and> relay_acks (mock_env\<lparr>randomTrigger := 1 / 2, randomSize := 1 - 1 / 2 ^ 53\<rparr>)
   \<and> totalNetVolume
        (snd (volume (new_AMM ''payer'' None) ''mint'' (fl (39 / 1000)) (fl (39 / 1000)) 1 1
                \<lparr>jitoTipLamports = None, includeDexes = None\<rparr> (3 / 4)
                [mock_env\<lparr>randomTrigger := 1 / 2, randomSize := 0\<rparr>,
                 mock_env\<lparr>randomTrigger := 1 / 2, randomSize := 0\<rparr>,
                 mock_env\<lparr>randomTrigger := 1 / 2, randomSize := 0\<rparr>,
                 mock_env\<lparr>randomTrigger := 1 / 2, randomSize := 1 - 1 / 2 ^ 53\<rparr>]))
       = - (1 / 2 ^ 56)"
proof -
  have acks: "relay_acks (mock_env\<lparr>randomTrigger := t, randomSize := r\<rparr>)" for t r
    by (simp add: relay_acks_def has_result_def js_truthy_def mock_env_def)
  have draws: "random_ok 0" "random_ok (3 / 4)" "random_ok (1 / 2)" "random_ok (1 - 1 / 2 ^ 53)"
    by (simp_all add: random_ok_def)
  have amount: "0 \<le> fl (39 / 1000)"
    by (rule fl_nonneg) simp
  note first = runs_mock(4) and second = runs_mock(5)
  note third = rounding_run [OF refl refl refl]
  show ?thesis
    unfolding first second third using acks draws amount by simp
qed

section \<open>The size of a sell\<close>

text \<open>
  C2. The claim bounds the sell fraction by \<open>1 / mCapFactor\<close>, the value the source calls
  \<^verbatim>\<open>maxSellPercentage\<close>. The source computes
  \<^verbatim>\<open>0.5 + Math.random() * 0.5 * maxSellPercentage\<close>: for \<open>mCapFactor = 4\<close>, the draw 0 and a
  net volume of 1 SOL the fraction is 0.5 and the sell is 0.5 SOL, above the cap of 0.25.
  All the numbers involved are doubles, so that nothing is rounded.
\<close>

theorem sell_fraction_exceeds_cap:
  "sellPercentage 4 0 = 1 / 2
   \<and> maxSellPercentage 4 = 1 / 4
   \<and> sellSol 4 1 0 = 1 / 2
   \<and> \<not> sellSol 4 1 0 \<le> 1 * (1 / 4)
   \<and> \<not> sellPercentage 4 0 \<le> 1 * (1 / 4)
   \<and> sellAmount 4 1 0 = 500000000"
proof -
  have q: "fl (1 / 4) = 1 / 4"
    using fl_dyadic [of 1 2] by simp
  have b: "fl 500000000 = 500000000"
    by (rule fl_numeral) simp
  have m: "maxSellPercentage 4 = 1 / 4"
    by (simp add: maxSellPercentage_def num_div_def q)
  have p: "sellPercentage 4 0 = 1 / 2"
    by (simp add: sellPercentage_def num_add_def num_mul_def m fl_half)
  have s: "sellSol 4 1 0 = 1 / 2"
    by (simp add: sellSol_def num_mul_def p fl_half)
  have a: "sellAmount 4 1 0 = 500000000"
    by (simp add: sellAmount_def num_mul_def s b)
  show ?thesis
    by (simp add: m p s a)
qed

end
